(* ===== verification/Prelude.thy ===== *)
theory Prelude
  imports Main "HOL-Library.Word" "HOL-Library.Sublist"
begin

text \<open>
  Shared vocabulary of the development: Go byte slices, the big-endian reading of a byte
  slice, and the facts on lists, prefixes and maps that the component theories use.
\<close>

section \<open>Bytes\<close>

type_synonym byte = "8 word"
type_synonym bytes = "byte list"

text \<open>Facts about byte slices that the codec proofs rewrite with.\<close>

named_theorems byte_simps

text \<open>The \<open>k\<close> low bytes of \<open>i\<close>, most significant first.\<close>

primrec be_bytes :: "nat \<Rightarrow> nat \<Rightarrow> bytes" where
  "be_bytes 0 i = []"
| "be_bytes (Suc k) i = word_of_nat (i div 256 ^ k) # be_bytes k i"

text \<open>The number a byte slice denotes, most significant byte first.\<close>

primrec be_val :: "bytes \<Rightarrow> nat" where
  "be_val [] = 0"
| "be_val (b # bs) = unat b * 256 ^ length bs + be_val bs"

lemma length_be_bytes [simp, byte_simps]: "length (be_bytes k i) = k"
  by (induction k) auto

lemma unat_byte_of_nat [byte_simps]: "unat (word_of_nat n :: byte) = n mod 256"
  by (simp add: unat_of_nat)

lemma be_val_be_bytes [byte_simps]: "be_val (be_bytes k i) = i mod 256 ^ k"
proof (induction k)
  case 0
  then show ?case by simp
next
  case (Suc k)
  have "i mod 256 ^ Suc k = (i div 256 ^ k mod 256) * 256 ^ k + i mod 256 ^ k"
    using mod_mult2_eq [of i "256 ^ k" 256] by (simp add: mult.commute)
  with Suc show ?case by (simp add: unat_byte_of_nat)
qed

lemma byte_bound: "unat (b :: byte) < 256"
  using unsigned_less [of b] by simp

lemma be_val_bound: "be_val bs < 256 ^ length bs"
proof (induction bs)
  case (Cons b bs)
  have "unat b * 256 ^ length bs + be_val bs < Suc (unat b) * 256 ^ length bs"
    using Cons by simp
  also have "\<dots> \<le> 256 * 256 ^ length bs"
    using byte_bound [of b] by (intro mult_le_mono1) simp
  finally show ?case by simp
qed simp

lemma byte_of_nat_eq_iff:
  "n < 256 \<Longrightarrow> m < 256 \<Longrightarrow> (word_of_nat n :: byte) = word_of_nat m \<longleftrightarrow> n = m"
  by (metis mod_less unat_byte_of_nat)

lemma byte_less_nat: "(b :: byte) < word_of_nat n \<longleftrightarrow> unat b < n mod 256"
  by (simp add: word_less_nat_alt unat_byte_of_nat)

section \<open>Lists and prefixes\<close>

lemma prefix_take_iff: "prefix ks xs \<longleftrightarrow> length ks \<le> length xs \<and> take (length ks) xs = ks"
  by (metis append_eq_conv_conj append_take_drop_id prefix_def prefix_length_le)

lemma prefix_drop_append: "prefix ks xs \<Longrightarrow> ks @ drop (length ks) xs = xs"
  by (auto simp: prefix_def)

lemma drop_eq_ConsE:
  assumes "drop i xs = y # ys"
  obtains "i < length xs" "xs ! i = y" "drop (Suc i) xs = ys"
proof -
  have "i < length xs" using assms by (rule_tac ccontr) simp
  with assms Cons_nth_drop_Suc [OF this] show thesis by (intro that) simp_all
qed

lemma list_update_all: "(\<And>x. x \<in> set xs \<Longrightarrow> P x) \<Longrightarrow> P y \<Longrightarrow> x \<in> set (xs[i := y]) \<Longrightarrow> P x"
  using set_update_subset_insert by fastforce

end
