(* ===== verification/Rlp.thy ===== *)
theory Rlp
  imports Prelude
begin

text \<open>
  The part of the vendored RLP codec (vendor/github.com/ethereum/go-ethereum/rlp) that the
  trie uses: the encoder with its deferred list headers (encode.go, \<open>encbuf\<close>) and the
  slice splitters (raw.go). The deferred encoder is proved equal to the textbook recursive
  encoding, and the splitters invert it.
\<close>

section \<open>Encoding\<close>

text \<open>encode.go \<open>putint\<close>: the least number of big-endian bytes of a uint64.\<close>

definition putint :: "nat \<Rightarrow> bytes" where
  "putint i =
     (if i < 2 ^ 8 then be_bytes 1 i
      else if i < 2 ^ 16 then be_bytes 2 i
      else if i < 2 ^ 24 then be_bytes 3 i
      else if i < 2 ^ 32 then be_bytes 4 i
      else if i < 2 ^ 40 then be_bytes 5 i
      else if i < 2 ^ 48 then be_bytes 6 i
      else if i < 2 ^ 56 then be_bytes 7 i
      else be_bytes 8 i)"

text \<open>encode.go \<open>intsize\<close>: the loop that shifts until nothing is left.\<close>

fun intsize :: "nat \<Rightarrow> nat" where
  "intsize i = (if i div 256 = 0 then 1 else Suc (intsize (i div 256)))"

declare intsize.simps [simp del]

definition headsize :: "nat \<Rightarrow> nat" where
  "headsize sz = (if sz < 56 then 1 else 1 + intsize sz)"

definition puthead :: "byte \<Rightarrow> byte \<Rightarrow> nat \<Rightarrow> bytes" where
  "puthead smalltag largetag sz =
     (if sz < 56 then [smalltag + word_of_nat sz]
      else (largetag + word_of_nat (length (putint sz))) # putint sz)"

text \<open>
  The values the sources encode: byte slices, booleans, unsigned integers and lists
  (\<open>[]interface{}\<close>, arrays and structs all encode as lists).
\<close>

datatype rlp_item =
    RlpBytes bytes
  | RlpBool bool
  | RlpUint nat
  | RlpList "rlp_item list"

text \<open>encode.go \<open>encbuf\<close>: string data, list headers (offset, size), total header size.\<close>

record encbuf =
  eb_str :: bytes
  eb_lheads :: "(nat \<times> nat) list"
  eb_lhsize :: nat

definition eb_reset :: encbuf where
  "eb_reset = \<lparr>eb_str = [], eb_lheads = [], eb_lhsize = 0\<rparr>"

definition eb_size :: "encbuf \<Rightarrow> nat" where
  "eb_size w = length (eb_str w) + eb_lhsize w"

definition eb_append :: "bytes \<Rightarrow> encbuf \<Rightarrow> encbuf" where
  "eb_append b w = w\<lparr>eb_str := eb_str w @ b\<rparr>"

definition encodeStringHeader :: "nat \<Rightarrow> encbuf \<Rightarrow> encbuf" where
  "encodeStringHeader sz w =
     (if sz < 56 then eb_append [0x80 + word_of_nat sz] w
      else eb_append ((0xB7 + word_of_nat (length (putint sz))) # putint sz) w)"

definition encodeString :: "bytes \<Rightarrow> encbuf \<Rightarrow> encbuf" where
  "encodeString b w =
     (if length b = 1 \<and> b ! 0 \<le> 0x7F then eb_append [b ! 0] w
      else eb_append b (encodeStringHeader (length b) w))"

definition writeBool :: "bool \<Rightarrow> encbuf \<Rightarrow> encbuf" where
  "writeBool v w = (if v then eb_append [0x01] w else eb_append [0x80] w)"

definition writeUint :: "nat \<Rightarrow> encbuf \<Rightarrow> encbuf" where
  "writeUint i w =
     (if i = 0 then eb_append [0x80] w
      else if i < 128 then eb_append [word_of_nat i] w
      else eb_append ((0x80 + word_of_nat (length (putint i))) # putint i) w)"

definition eb_list :: "encbuf \<Rightarrow> encbuf \<times> nat" where
  "eb_list w =
     (w\<lparr>eb_lheads := eb_lheads w @ [(length (eb_str w), eb_lhsize w)]\<rparr>, length (eb_lheads w))"

definition eb_listEnd :: "nat \<Rightarrow> encbuf \<Rightarrow> encbuf" where
  "eb_listEnd lh w =
     (let offset = fst (eb_lheads w ! lh);
          sz = eb_size w - offset - snd (eb_lheads w ! lh)
      in w\<lparr>eb_lheads := (eb_lheads w)[lh := (offset, sz)],
           eb_lhsize := (if sz < 56 then eb_lhsize w + 1 else eb_lhsize w + (1 + intsize sz))\<rparr>)"

fun rlp_write :: "rlp_item \<Rightarrow> encbuf \<Rightarrow> encbuf" where
  "rlp_write (RlpBytes b) w = encodeString b w"
| "rlp_write (RlpBool v) w = writeBool v w"
| "rlp_write (RlpUint i) w = writeUint i w"
| "rlp_write (RlpList xs) w =
     (let (w1, lh) = eb_list w in eb_listEnd lh (fold rlp_write xs w1))"

text \<open>encode.go \<open>toWriter\<close>: the string data with the list headers spliced in.\<close>

fun eb_splice :: "bytes \<Rightarrow> nat \<Rightarrow> (nat \<times> nat) list \<Rightarrow> bytes" where
  "eb_splice str strpos [] = drop strpos str"
| "eb_splice str strpos ((offset, sz) # hs) =
     (if offset > strpos
      then take (offset - strpos) (drop strpos str) @ puthead 0xC0 0xF7 sz @ eb_splice str offset hs
      else puthead 0xC0 0xF7 sz @ eb_splice str strpos hs)"

definition eb_toWriter :: "encbuf \<Rightarrow> bytes" where
  "eb_toWriter w = eb_splice (eb_str w) 0 (eb_lheads w)"

definition rlp_Encode :: "rlp_item \<Rightarrow> bytes" where
  "rlp_Encode x = eb_toWriter (rlp_write x eb_reset)"

section \<open>Splitting\<close>

datatype rlp_kind = KByte | KString | KList

datatype rlp_error =
    ErrUnexpectedEOF | ErrCanonSize | ErrValueTooLarge | ErrExpectedString | ErrExpectedList

definition readSize :: "bytes \<Rightarrow> nat \<Rightarrow> rlp_error + nat" where
  "readSize b slen =
     (if slen > length b then Inl ErrUnexpectedEOF
      else let s = be_val (take slen b)
           in if s < 56 \<or> b ! 0 = 0 then Inl ErrCanonSize else Inr s)"

definition readKind :: "bytes \<Rightarrow> rlp_error + rlp_kind \<times> nat \<times> nat" where
  "readKind buf =
     (case buf of
        [] \<Rightarrow> Inl ErrUnexpectedEOF
      | b # rest \<Rightarrow>
          (let n = unat b;
               fits = (\<lambda>k tagsize contentsize.
                         if contentsize > length buf - tagsize then Inl ErrValueTooLarge
                         else Inr (k, tagsize, contentsize));
               sized = (\<lambda>k slen. case readSize rest slen of
                                   Inl e \<Rightarrow> Inl e
                                 | Inr s \<Rightarrow> fits k (slen + 1) s)
           in if n < 0x80 then fits KByte 0 1
              else if n < 0xB8
                then (if n - 0x80 = 1 \<and> length buf > 1 \<and> unat (buf ! 1) < 128 then Inl ErrCanonSize
                      else fits KString 1 (n - 0x80))
              else if n < 0xC0 then sized KString (n - 0xB7)
              else if n < 0xF8 then fits KList 1 (n - 0xC0)
              else sized KList (n - 0xF7)))"

definition rlp_Split :: "bytes \<Rightarrow> rlp_error + rlp_kind \<times> bytes \<times> bytes" where
  "rlp_Split b =
     (case readKind b of
        Inl e \<Rightarrow> Inl e
      | Inr (k, ts, cs) \<Rightarrow> Inr (k, take cs (drop ts b), drop (ts + cs) b))"

definition rlp_SplitString :: "bytes \<Rightarrow> rlp_error + bytes \<times> bytes" where
  "rlp_SplitString b =
     (case rlp_Split b of
        Inl e \<Rightarrow> Inl e
      | Inr (k, content, rest) \<Rightarrow>
          if k = KList then Inl ErrExpectedString else Inr (content, rest))"

definition rlp_SplitList :: "bytes \<Rightarrow> rlp_error + bytes \<times> bytes" where
  "rlp_SplitList b =
     (case rlp_Split b of
        Inl e \<Rightarrow> Inl e
      | Inr (k, content, rest) \<Rightarrow>
          if k \<noteq> KList then Inl ErrExpectedList else Inr (content, rest))"

lemma readKind_progress: "readKind b = Inr (k, ts, cs) \<Longrightarrow> 0 < ts + cs \<and> b \<noteq> []"
  by (auto simp: readKind_def Let_def split: list.splits if_splits sum.splits)

text \<open>raw.go \<open>CountValues\<close>: every value read takes at least one byte, so the loop ends.\<close>

function rlp_CountValues :: "bytes \<Rightarrow> rlp_error + nat" where
  "rlp_CountValues b =
     (if b = [] then Inr 0
      else case readKind b of
             Inl e \<Rightarrow> Inl e
           | Inr (k, ts, cs) \<Rightarrow>
               (case rlp_CountValues (drop (ts + cs) b) of Inl e \<Rightarrow> Inl e | Inr i \<Rightarrow> Inr (Suc i)))"
  by pat_completeness auto
termination
  by (relation "measure length") (auto dest: readKind_progress)

declare rlp_CountValues.simps [simp del]

section \<open>Sizes\<close>

lemma putint_cases:
  assumes "i < 2 ^ 64"
  obtains k where "k < 8" and "putint i = be_bytes (Suc k) i"
    and "i < 256 ^ Suc k" and "k = 0 \<or> 256 ^ k \<le> i"
proof -
  consider "i < 2 ^ 8" | "2 ^ 8 \<le> i" "i < 2 ^ 16" | "2 ^ 16 \<le> i" "i < 2 ^ 24"
    | "2 ^ 24 \<le> i" "i < 2 ^ 32" | "2 ^ 32 \<le> i" "i < 2 ^ 40" | "2 ^ 40 \<le> i" "i < 2 ^ 48"
    | "2 ^ 48 \<le> i" "i < 2 ^ 56" | "2 ^ 56 \<le> i"
    using not_less by blast
  then show thesis
  proof cases
    case 1 then show thesis by (intro that [of 0]) (simp_all add: putint_def del: be_bytes.simps)
  next
    case 2
    then have "putint i = be_bytes (Suc 1) i"
      by (simp add: putint_def numeral_2_eq_2 [symmetric] del: be_bytes.simps)
    with 2 show thesis by (intro that [of 1]) (simp_all del: be_bytes.simps)
  next
    case 3 then show thesis by (intro that [of 2]) (simp_all add: putint_def del: be_bytes.simps)
  next
    case 4 then show thesis by (intro that [of 3]) (simp_all add: putint_def del: be_bytes.simps)
  next
    case 5 then show thesis by (intro that [of 4]) (simp_all add: putint_def del: be_bytes.simps)
  next
    case 6 then show thesis by (intro that [of 5]) (simp_all add: putint_def del: be_bytes.simps)
  next
    case 7 then show thesis by (intro that [of 6]) (simp_all add: putint_def del: be_bytes.simps)
  next
    case 8 with assms show thesis by (intro that [of 7]) (simp_all add: putint_def del: be_bytes.simps)
  qed
qed

lemma intsize_eq: "i < 256 ^ Suc k \<Longrightarrow> k = 0 \<or> 256 ^ k \<le> i \<Longrightarrow> intsize i = Suc k"
proof (induction k arbitrary: i)
  case 0
  then show ?case by (simp add: intsize.simps [of i])
next
  case (Suc k)
  from Suc.prems have le: "256 ^ Suc k \<le> i" by simp
  then have "i div 256 \<ge> 256 ^ k" by (simp add: less_eq_div_iff_mult_less_eq mult.commute)
  moreover from Suc.prems have "i div 256 < 256 ^ Suc k"
    by (simp add: div_less_iff_less_mult mult.commute)
  moreover have "i div 256 \<noteq> 0"
    using le by (metis calculation(1) not_one_le_zero one_le_numeral one_le_power order.trans)
  ultimately show ?case using Suc.IH [of "i div 256"] by (simp add: intsize.simps [of i])
qed

lemma length_putint: "i < 2 ^ 64 \<Longrightarrow> length (putint i) = intsize i"
  by (erule putint_cases) (simp add: intsize_eq)

lemma length_putint_bounds: "i < 2 ^ 64 \<Longrightarrow> 1 \<le> length (putint i) \<and> length (putint i) \<le> 8"
  by (erule putint_cases) simp

lemma be_val_putint: "i < 2 ^ 64 \<Longrightarrow> be_val (putint i) = i"
  by (erule putint_cases) (simp only: be_val_be_bytes mod_less)

lemma putint_first: "i < 2 ^ 64 \<Longrightarrow> 0 < i \<Longrightarrow> putint i ! 0 \<noteq> 0"
proof (erule putint_cases)
  fix k assume k: "putint i = be_bytes (Suc k) i" "i < 256 ^ Suc k" "k = 0 \<or> 256 ^ k \<le> i"
    and pos: "0 < i"
  have "i div 256 ^ k < 256" using k(2) by (simp add: div_less_iff_less_mult mult.commute)
  moreover have "0 < i div 256 ^ k" using k(3) pos by (auto simp: div_greater_zero_iff)
  ultimately have "unat (word_of_nat (i div 256 ^ k) :: byte) \<noteq> 0"
    by (simp add: unat_byte_of_nat)
  then have "(word_of_nat (i div 256 ^ k) :: byte) \<noteq> 0"
    by (metis unat_0)
  then show "putint i ! 0 \<noteq> 0" by (simp add: k(1))
qed

lemma readSize_putint:
  "i < 2 ^ 64 \<Longrightarrow> 56 \<le> i \<Longrightarrow> readSize (putint i @ r) (length (putint i)) = Inr i"
  using length_putint_bounds [of i] putint_first [of i] be_val_putint [of i]
  by (cases "putint i") (simp_all add: readSize_def Let_def del: be_val.simps)

lemma length_puthead: "sz < 2 ^ 64 \<Longrightarrow> length (puthead s l sz) = headsize sz"
  by (simp add: puthead_def headsize_def length_putint)

section \<open>The deferred encoder against the recursive encoding\<close>

definition ref_string :: "bytes \<Rightarrow> bytes" where
  "ref_string b =
     (if length b = 1 \<and> b ! 0 \<le> 0x7F then b else puthead 0x80 0xB7 (length b) @ b)"

definition ref_list :: "bytes \<Rightarrow> bytes" where
  "ref_list c = puthead 0xC0 0xF7 (length c) @ c"

definition ref_uint :: "nat \<Rightarrow> bytes" where
  "ref_uint i =
     (if i = 0 then [0x80] else if i < 128 then [word_of_nat i]
      else (0x80 + word_of_nat (length (putint i))) # putint i)"

fun rlp_ref :: "rlp_item \<Rightarrow> bytes" where
  "rlp_ref (RlpBytes b) = ref_string b"
| "rlp_ref (RlpBool v) = (if v then [0x01] else [0x80])"
| "rlp_ref (RlpUint i) = ref_uint i"
| "rlp_ref (RlpList xs) = ref_list (concat (map rlp_ref xs))"

text \<open>What one value adds to the string data and to the list headers of the buffer.\<close>

fun flat :: "rlp_item \<Rightarrow> bytes" where
  "flat (RlpList xs) = concat (map flat xs)"
| "flat x = rlp_ref x"

fun heads :: "nat \<Rightarrow> rlp_item \<Rightarrow> (nat \<times> nat) list"
  and heads_all :: "nat \<Rightarrow> rlp_item list \<Rightarrow> (nat \<times> nat) list" where
  "heads n (RlpList xs) = (n, length (concat (map rlp_ref xs))) # heads_all n xs"
| "heads n (RlpBytes b) = []"
| "heads n (RlpBool v) = []"
| "heads n (RlpUint i) = []"
| "heads_all n [] = []"
| "heads_all n (x # xs) = heads n x @ heads_all (n + length (flat x)) xs"

definition eb_extend :: "bytes \<Rightarrow> (nat \<times> nat) list \<Rightarrow> nat \<Rightarrow> encbuf \<Rightarrow> encbuf" where
  "eb_extend s hs n w =
     w\<lparr>eb_str := eb_str w @ s, eb_lheads := eb_lheads w @ hs, eb_lhsize := eb_lhsize w + n\<rparr>"

lemma flat_le: "length (flat x) \<le> length (rlp_ref x)"
proof (induction x rule: flat.induct)
  case (1 xs)
  then have "length (concat (map flat xs)) \<le> length (concat (map rlp_ref xs))"
    by (induction xs) (auto intro: add_mono)
  then show ?case by (simp add: ref_list_def)
qed auto

lemma flat_le_concat: "length (concat (map flat xs)) \<le> length (concat (map rlp_ref xs))"
  by (induction xs) (auto intro: add_mono flat_le)

lemma encodeString_extend: "encodeString b w = eb_extend (ref_string b) [] 0 w"
  by (cases b)
    (auto simp: encodeString_def encodeStringHeader_def eb_append_def eb_extend_def ref_string_def
      puthead_def)

lemma rlp_write_extend:
  "length (rlp_ref x) < 2 ^ 64 \<Longrightarrow>
     rlp_write x w = eb_extend (flat x) (heads (length (eb_str w)) x)
       (length (rlp_ref x) - length (flat x)) w"
  "length (concat (map rlp_ref xs)) < 2 ^ 64 \<Longrightarrow>
     fold rlp_write xs w = eb_extend (concat (map flat xs)) (heads_all (length (eb_str w)) xs)
       (length (concat (map rlp_ref xs)) - length (concat (map flat xs))) w"
proof (induction "length (eb_str w)" x and "length (eb_str w)" xs arbitrary: w and w
    rule: heads_heads_all.induct)
  case (1 xs w)
  let ?c = "concat (map rlp_ref xs)"
  have c: "length ?c < 2 ^ 64" using "1.prems" by (simp add: ref_list_def)
  have hd: "length (puthead 0xC0 0xF7 (length ?c)) = headsize (length ?c)"
    using c by (rule length_puthead)
  show ?case
    using "1.hyps" [of "fst (eb_list w)"] c flat_le_concat [of xs] hd
    by (simp add: eb_list_def eb_listEnd_def eb_extend_def Let_def eb_size_def ref_list_def
        headsize_def nth_append)
next
  case (6 x xs w)
  have x: "length (rlp_ref x) < 2 ^ 64" and xs: "length (concat (map rlp_ref xs)) < 2 ^ 64"
    using "6.prems" by simp_all
  let ?w = "rlp_write x w"
  have w: "?w = eb_extend (flat x) (heads (length (eb_str w)) x)
      (length (rlp_ref x) - length (flat x)) w"
    by (rule "6.hyps"(1)) (use x in simp_all)
  then have len: "length (eb_str ?w) = length (eb_str w) + length (flat x)"
    by (simp add: eb_extend_def)
  have "fold rlp_write xs ?w = eb_extend (concat (map flat xs)) (heads_all (length (eb_str ?w)) xs)
       (length (concat (map rlp_ref xs)) - length (concat (map flat xs))) ?w"
    by (rule "6.hyps"(2)) (use xs len in simp_all)
  then show ?case
    using flat_le [of x] flat_le_concat [of xs] unfolding len
    by (simp add: w) (simp add: eb_extend_def)
qed (auto simp: encodeString_extend eb_extend_def writeBool_def writeUint_def eb_append_def ref_uint_def)

lemma eb_splice_skip:
  assumes "p \<le> q" and "q \<le> length s" and "\<forall>h \<in> set hs. q \<le> fst h"
  shows "eb_splice s p hs = take (q - p) (drop p s) @ eb_splice s q hs"
proof (cases hs)
  case Nil
  have "drop p s = take (q - p) (drop p s) @ drop (q - p) (drop p s)"
    by (rule append_take_drop_id [symmetric])
  with Nil assms(1) show ?thesis by simp
next
  case (Cons h hs')
  obtain off sz where h: "h = (off, sz)" by fastforce
  have off: "q \<le> off" using assms(3) Cons h by simp
  show ?thesis
  proof (cases "q = off")
    case True
    then show ?thesis using Cons h assms(1) by simp
  next
    case False
    have "take (off - p) (drop p s) = take (q - p) (drop p s) @ take (off - q) (drop q s)"
      using take_add [of "q - p" "off - q" "drop p s"] off assms(1) by simp
    moreover have "p < off" "q < off" using off False assms(1) by simp_all
    ultimately show ?thesis by (simp add: Cons h)
  qed
qed

lemma eb_splice_atom:
  "s = pre @ q @ post \<Longrightarrow> \<forall>h \<in> set hs. length pre + length q \<le> fst h \<Longrightarrow>
     eb_splice s (length pre) hs = q @ eb_splice s (length pre + length q) hs"
  by (simp add: eb_splice_skip [of "length pre" "length pre + length q"])

lemma heads_bounds:
  "h \<in> set (heads n x) \<Longrightarrow> n \<le> fst h"
  "h \<in> set (heads_all n xs) \<Longrightarrow> n \<le> fst h"
  by (induction n x and n xs rule: heads_heads_all.induct) auto

lemma eb_splice_heads:
  "s = pre @ flat x @ post \<Longrightarrow> \<forall>h \<in> set hs. length pre + length (flat x) \<le> fst h \<Longrightarrow>
     eb_splice s (length pre) (heads (length pre) x @ hs)
       = rlp_ref x @ eb_splice s (length pre + length (flat x)) hs"
  "s = pre @ concat (map flat xs) @ post \<Longrightarrow>
     \<forall>h \<in> set hs. length pre + length (concat (map flat xs)) \<le> fst h \<Longrightarrow>
     eb_splice s (length pre) (heads_all (length pre) xs @ hs)
       = concat (map rlp_ref xs) @ eb_splice s (length pre + length (concat (map flat xs))) hs"
proof (induction "length pre" x and "length pre" xs arbitrary: pre post hs and pre post hs
    rule: heads_heads_all.induct)
  case (1 xs pre post hs)
  then show ?case by (simp add: ref_list_def)
next
  case (6 x xs pre post hs)
  have ge: "\<forall>h \<in> set (heads_all (length pre + length (flat x)) xs @ hs).
      length pre + length (flat x) \<le> fst h"
    using "6.prems"(2) heads_bounds(2) by (auto dest: add_leD1 simp: add.assoc [symmetric])
  have "eb_splice s (length pre) (heads (length pre) x @ heads_all (length pre + length (flat x)) xs @ hs)
      = rlp_ref x @ eb_splice s (length pre + length (flat x))
          (heads_all (length pre + length (flat x)) xs @ hs)"
    by (rule "6.hyps"(1) [OF refl _ ge]) (use "6.prems"(1) in simp)
  also have "eb_splice s (length pre + length (flat x)) (heads_all (length pre + length (flat x)) xs @ hs)
      = concat (map rlp_ref xs)
          @ eb_splice s (length pre + length (flat x) + length (concat (map flat xs))) hs"
    using "6.prems" "6.hyps"(2) [of "pre @ flat x" post hs]
    by (simp add: add.assoc)
  finally show ?case by (simp add: add.assoc)
next
  case (2 v pre post hs)
  then show ?case using eb_splice_atom [of s pre "flat (RlpBytes v)" post hs] by simp
next
  case (3 v pre post hs)
  then show ?case using eb_splice_atom [of s pre "flat (RlpBool v)" post hs] by simp
next
  case (4 v pre post hs)
  then show ?case using eb_splice_atom [of s pre "flat (RlpUint v)" post hs] by simp
qed simp

lemma rlp_Encode_ref: "length (rlp_ref x) < 2 ^ 64 \<Longrightarrow> rlp_Encode x = rlp_ref x"
proof -
  assume "length (rlp_ref x) < 2 ^ 64"
  then have "rlp_write x eb_reset = eb_extend (flat x) (heads (length (eb_str eb_reset)) x)
      (length (rlp_ref x) - length (flat x)) eb_reset"
    by (rule rlp_write_extend(1))
  then have "rlp_Encode x = eb_splice (flat x) 0 (heads 0 x)"
    by (simp add: rlp_Encode_def eb_toWriter_def eb_extend_def eb_reset_def)
  also have "\<dots> = rlp_ref x"
    using eb_splice_heads(1) [of "flat x" "[]" x "[]" "[]"] by simp
  finally show ?thesis .
qed

section \<open>The splitters invert the encoding\<close>

lemma rlp_Split_append:
  "readKind (h @ c @ r) = Inr (k, length h, length c) \<Longrightarrow> rlp_Split (h @ c @ r) = Inr (k, c, r)"
  by (simp add: rlp_Split_def)

lemma readKind_large:
  assumes "56 \<le> length c" "length c < 2 ^ 64"
  shows "readKind (puthead 0x80 0xB7 (length c) @ c @ r)
           = Inr (KString, length (puthead 0x80 0xB7 (length c)), length c)"
    and "readKind (puthead 0xC0 0xF7 (length c) @ c @ r)
           = Inr (KList, length (puthead 0xC0 0xF7 (length c)), length c)"
proof -
  let ?p = "putint (length c)"
  have p: "1 \<le> length ?p" "length ?p \<le> 8"
    using length_putint_bounds [OF assms(2)] by simp_all
  have s: "readSize (?p @ c @ r) (length ?p) = Inr (length c)"
    using readSize_putint [OF assms(2,1)] by simp
  have u: "unat (0xB7 + word_of_nat (length ?p) :: byte) = 0xB7 + length ?p"
    "unat (0xF7 + word_of_nat (length ?p) :: byte) = 0xF7 + length ?p"
    using p by (simp_all add: unat_word_ariths unat_byte_of_nat)
  show "readKind (puthead 0x80 0xB7 (length c) @ c @ r)
           = Inr (KString, length (puthead 0x80 0xB7 (length c)), length c)"
    using assms(1) p s by (auto simp: puthead_def readKind_def u Let_def)
  show "readKind (puthead 0xC0 0xF7 (length c) @ c @ r)
           = Inr (KList, length (puthead 0xC0 0xF7 (length c)), length c)"
    using assms(1) p s by (auto simp: puthead_def readKind_def u Let_def)
qed

lemma readKind_small:
  assumes "length c < 56"
  shows "\<not> (length c = 1 \<and> c ! 0 \<le> 0x7F) \<Longrightarrow>
           readKind (puthead 0x80 0xB7 (length c) @ c @ r)
             = Inr (KString, length (puthead 0x80 0xB7 (length c)), length c)"
    and "readKind (puthead 0xC0 0xF7 (length c) @ c @ r)
           = Inr (KList, length (puthead 0xC0 0xF7 (length c)), length c)"
proof -
  have u: "unat (0x80 + word_of_nat (length c) :: byte) = 0x80 + length c"
    "unat (0xC0 + word_of_nat (length c) :: byte) = 0xC0 + length c"
    using assms by (simp_all add: unat_word_ariths unat_byte_of_nat)
  show "readKind (puthead 0x80 0xB7 (length c) @ c @ r)
             = Inr (KString, length (puthead 0x80 0xB7 (length c)), length c)"
    if "\<not> (length c = 1 \<and> c ! 0 \<le> 0x7F)"
    using assms that
    by (auto simp: puthead_def readKind_def u Let_def word_le_nat_alt nth_append)
  show "readKind (puthead 0xC0 0xF7 (length c) @ c @ r)
           = Inr (KList, length (puthead 0xC0 0xF7 (length c)), length c)"
    using assms by (auto simp: puthead_def readKind_def u Let_def)
qed

lemma readKind_ref_string:
  assumes "length b < 2 ^ 64"
  shows "readKind (ref_string b @ r) =
    (if length b = 1 \<and> b ! 0 \<le> 0x7F then Inr (KByte, 0, 1)
     else Inr (KString, length (puthead 0x80 0xB7 (length b)), length b))"
proof (cases "length b = 1 \<and> b ! 0 \<le> 0x7F")
  case True
  then show ?thesis
    by (cases b) (auto simp: ref_string_def readKind_def Let_def word_le_nat_alt)
next
  case False
  then show ?thesis
    using readKind_small(1) [of b r] readKind_large(1) [of b r] assms
    by (cases "length b < 56") (auto simp: ref_string_def)
qed

lemma readKind_ref_list:
  assumes "length c < 2 ^ 64"
  shows "readKind (ref_list c @ r) = Inr (KList, length (puthead 0xC0 0xF7 (length c)), length c)"
  using readKind_small(2) [of c r] readKind_large(2) [of c r] assms
  by (cases "length c < 56") (simp_all add: ref_list_def)

lemma rlp_SplitString_ref [simp]:
  "length b < 2 ^ 64 \<Longrightarrow> rlp_SplitString (ref_string b @ r) = Inr (b, r)"
  by (auto simp: rlp_SplitString_def rlp_Split_def readKind_ref_string)
    (auto simp: ref_string_def)

lemma rlp_Split_ref_list [simp]:
  "length c < 2 ^ 64 \<Longrightarrow> rlp_Split (ref_list c @ r) = Inr (KList, c, r)"
  by (simp add: rlp_Split_def readKind_ref_list) (simp add: ref_list_def)

lemma rlp_Split_ref_string [simp]:
  "length b < 2 ^ 64 \<Longrightarrow> rlp_Split (ref_string b @ r) =
     Inr (if length b = 1 \<and> b ! 0 \<le> 0x7F then KByte else KString, b, r)"
  by (auto simp: rlp_Split_def readKind_ref_string) (auto simp: ref_string_def)

lemma rlp_SplitList_ref [simp]:
  "length c < 2 ^ 64 \<Longrightarrow> rlp_SplitList (ref_list c @ r) = Inr (c, r)"
  by (simp add: rlp_SplitList_def)

lemma ref_nonempty [simp]: "ref_string b \<noteq> []" "ref_list c \<noteq> []"
  by (auto simp: ref_string_def ref_list_def puthead_def)

lemma rlp_CountValues_Nil [simp]: "rlp_CountValues [] = Inr 0"
  by (simp add: rlp_CountValues.simps)

lemma rlp_CountValues_string [simp]:
  "length b < 2 ^ 64 \<Longrightarrow> rlp_CountValues (ref_string b @ r) =
     (case rlp_CountValues r of Inl e \<Rightarrow> Inl e | Inr i \<Rightarrow> Inr (Suc i))"
  by (subst rlp_CountValues.simps) (auto simp: readKind_ref_string, auto simp: ref_string_def)

lemma rlp_CountValues_list [simp]:
  "length c < 2 ^ 64 \<Longrightarrow> rlp_CountValues (ref_list c @ r) =
     (case rlp_CountValues r of Inl e \<Rightarrow> Inl e | Inr i \<Rightarrow> Inr (Suc i))"
  by (subst rlp_CountValues.simps) (simp add: readKind_ref_list, simp add: ref_list_def)

section \<open>Properties\<close>

text \<open>
  C9: the buffered encoder is the recursive RLP encoding. The encoder writes the string data and
  remembers where list headers belong, and \<open>toWriter\<close> splices the headers in; the result is the
  encoding in which every list is its header followed by the encodings of its elements, as long as
  it is shorter than 2^64 bytes.
\<close>

theorem rlp_encoder_equiv:
  assumes "length (rlp_ref x) < 2 ^ 64"
  shows "rlp_Encode x = rlp_ref x"
  using rlp_Encode_ref [OF assms] .

theorem rlp_encoder_equiv_witness:
  "rlp_Encode (RlpList [RlpBytes [1, 2], RlpList [RlpBytes [200], RlpUint 300], RlpBool True])
     = [0xCA, 0x82, 1, 2, 0xC5, 0x81, 200, 0x82, 1, 44, 1]"
proof -
  let ?x = "RlpList [RlpBytes [1, 2], RlpList [RlpBytes [200], RlpUint 300], RlpBool True]"
  have two: "be_bytes 2 i = [word_of_nat (i div 256), word_of_nat i]" for i by (simp add: numeral_2_eq_2)
  have "rlp_ref ?x = [0xCA, 0x82, 1, 2, 0xC5, 0x81, 200, 0x82, 1, 44, 1]"
    by (simp add: ref_list_def ref_string_def ref_uint_def puthead_def putint_def two)
  with rlp_encoder_equiv [of ?x] show ?thesis by simp
qed

end
