(* ===== verification/Trie.thy ===== *)
theory Trie
  imports Rlp
begin

text \<open>
  The Merkle Patricia trie of trie/node.go and trie/trie.go: node types, key nibbles,
  insertion, deletion, lookup, decoding of persisted nodes, hashing and committing.

  A \<open>noder\<close> value is the tree reachable from a Go node pointer. Every node but a
  \<open>hashNode\<close> is reachable from one parent only, so the in-place updates of the Go code
  are returned as new nodes; where an error leaves a node changed in place without its
  parent knowing, the result carries that changed node (\<open>DelErr\<close>). An index or slice
  expression out of range is the error \<open>IndexPanic\<close>.
\<close>

section \<open>Hashes\<close>

definition HashLength :: nat where
  "HashLength = 32"

definition EmptyHash :: bytes where
  "EmptyHash = replicate HashLength 0"

text \<open>common/hash.go \<open>SetBytes\<close>: right-aligned copy of the last 32 bytes.\<close>

definition BytesToHash :: "bytes \<Rightarrow> bytes" where
  "BytesToHash b =
     (let b' = (if length b > HashLength then drop (length b - HashLength) b else b)
      in replicate (HashLength - length b') 0 @ b')"

section \<open>Nodes\<close>

definition numBranchChildren :: nat where
  "numBranchChildren = 17"

datatype nodeStatus = StatusDirty | StatusUpdated | StatusPersisted

record node_hdr =
  nd_hash :: bytes
  nd_status :: nodeStatus

text \<open>\<open>NilNode\<close> is the nil interface value.\<close>

datatype noder =
    NilNode
  | HashNode bytes
  | LeafNode node_hdr bytes bytes
  | ExtensionNode node_hdr bytes noder
  | BranchNode node_hdr "noder list"

definition newNode :: node_hdr where
  "newNode = \<lparr>nd_hash = [], nd_status = StatusDirty\<rparr>"

definition newPersistedNode :: "bytes \<Rightarrow> node_hdr" where
  "newPersistedNode h = \<lparr>nd_hash = h, nd_status = StatusPersisted\<rparr>"

definition SetHash :: "bytes \<Rightarrow> node_hdr \<Rightarrow> node_hdr" where
  "SetHash h n =
     (let old = (if nd_hash n = [] then replicate HashLength 0 else nd_hash n)
      in n\<lparr>nd_hash := take (length old) h @ drop (length h) old\<rparr>)"

definition SetStatus :: "nodeStatus \<Rightarrow> node_hdr \<Rightarrow> node_hdr" where
  "SetStatus st n = n\<lparr>nd_status := st\<rparr>"

abbreviation dirty :: "node_hdr \<Rightarrow> node_hdr" where
  "dirty h \<equiv> SetStatus StatusDirty h"

fun node_Hash :: "noder \<Rightarrow> bytes" where
  "node_Hash NilNode = []"
| "node_Hash (HashNode h) = h"
| "node_Hash (LeafNode n k v) = nd_hash n"
| "node_Hash (ExtensionNode n k next) = nd_hash n"
| "node_Hash (BranchNode n cs) = nd_hash n"

fun node_Status :: "noder \<Rightarrow> nodeStatus" where
  "node_Status (LeafNode n k v) = nd_status n"
| "node_Status (ExtensionNode n k next) = nd_status n"
| "node_Status (BranchNode n cs) = nd_status n"
| "node_Status _ = StatusPersisted"

datatype trie_error =
    ErrNodeFormat | ErrNodeNotExist | ErrEmptyValue | ErrRlp rlp_error | IndexPanic | OutOfFuel

section \<open>Keys\<close>

text \<open>Two nibbles per byte and the terminator 16.\<close>

definition keybytesToHex :: "bytes \<Rightarrow> bytes" where
  "keybytesToHex str = concat (map (\<lambda>b. [b div 16, b mod 16]) str) @ [16]"

fun matchkeyLen :: "bytes \<Rightarrow> bytes \<Rightarrow> nat" where
  "matchkeyLen (a # as) (b # bs) = (if a \<noteq> b then 0 else Suc (matchkeyLen as bs))"
| "matchkeyLen _ _ = 0"

section \<open>Decoding and loading\<close>

definition decodeLeafNode :: "bytes \<Rightarrow> bytes \<Rightarrow> trie_error + noder" where
  "decodeLeafNode h values =
     (case rlp_SplitString values of
        Inl e \<Rightarrow> Inl (ErrRlp e)
      | Inr (key, rest) \<Rightarrow>
          (case rlp_SplitString rest of
             Inl e \<Rightarrow> Inl (ErrRlp e)
           | Inr (val, _) \<Rightarrow> Inr (LeafNode (newPersistedNode h) key val)))"

definition decodeExtensionNode :: "bytes \<Rightarrow> bytes \<Rightarrow> trie_error + noder" where
  "decodeExtensionNode h values =
     (case rlp_SplitString values of
        Inl e \<Rightarrow> Inl (ErrRlp e)
      | Inr (_, bufs) \<Rightarrow>
          (case rlp_SplitString bufs of
             Inl e \<Rightarrow> Inl (ErrRlp e)
           | Inr (key, rest) \<Rightarrow>
               (case rlp_SplitString rest of
                  Inl e \<Rightarrow> Inl (ErrRlp e)
                | Inr (val, _) \<Rightarrow> Inr (ExtensionNode (newPersistedNode h) key (HashNode val)))))"

primrec decodeChildren :: "nat \<Rightarrow> bytes \<Rightarrow> trie_error + noder list" where
  "decodeChildren 0 elems = Inr []"
| "decodeChildren (Suc i) elems =
     (case rlp_Split elems of
        Inl e \<Rightarrow> Inl (ErrRlp e)
      | Inr (kind, val, rest) \<Rightarrow>
          (let child = (if kind = KString \<and> length val = HashLength then HashNode val else NilNode)
           in case decodeChildren i rest of Inl e \<Rightarrow> Inl e | Inr cs \<Rightarrow> Inr (child # cs)))"

definition decodeBranchNode :: "bytes \<Rightarrow> bytes \<Rightarrow> trie_error + noder" where
  "decodeBranchNode h values =
     (case rlp_Split values of
        Inl e \<Rightarrow> Inl (ErrRlp e)
      | Inr (kind, elems, _) \<Rightarrow>
          (case rlp_CountValues elems of
             Inl e \<Rightarrow> Inl (ErrRlp e)
           | Inr itemcount \<Rightarrow>
               if kind \<noteq> KList \<and> itemcount \<noteq> numBranchChildren then Inl ErrNodeFormat
               else case decodeChildren numBranchChildren elems of
                      Inl e \<Rightarrow> Inl e
                    | Inr cs \<Rightarrow> Inr (BranchNode (newPersistedNode h) cs)))"

definition decodeNode :: "bytes \<Rightarrow> bytes \<Rightarrow> trie_error + noder" where
  "decodeNode h value =
     (if length value = 0 then Inl ErrEmptyValue
      else case rlp_SplitList value of
             Inl e \<Rightarrow> Inl (ErrRlp e)
           | Inr (vals, _) \<Rightarrow>
               (case rlp_CountValues vals of
                  Inl e \<Rightarrow> Inl (ErrRlp e)
                | Inr n \<Rightarrow>
                    if n = 1 then decodeBranchNode h vals
                    else if n = 2 then decodeLeafNode h vals
                    else if n = 3 then decodeExtensionNode h vals
                    else Inl ErrNodeFormat))"

text \<open>The database interface the trie reads through; \<open>None\<close> is an error of \<open>Get\<close>.\<close>

type_synonym trie_db = "bytes \<Rightarrow> bytes option"
type_synonym node_loader = "bytes \<Rightarrow> trie_error + noder"

definition loadNode :: "trie_db \<Rightarrow> bytes \<Rightarrow> node_loader" where
  "loadNode db dbprefix h =
     (case db (dbprefix @ h) of
        None \<Rightarrow> Inl ErrNodeNotExist
      | Some val \<Rightarrow> if length val = 0 then Inl ErrNodeNotExist else decodeNode h val)"

section \<open>Insertion\<close>

type_synonym insert_fn = "noder \<Rightarrow> bytes \<Rightarrow> bytes \<Rightarrow> trie_error + noder"

definition emptyChildren :: "noder list" where
  "emptyChildren = replicate numBranchChildren NilNode"

text \<open>\<open>Children[k] = c\<close>; an index above 16 panics.\<close>

definition setChild :: "noder list \<Rightarrow> byte \<Rightarrow> noder \<Rightarrow> trie_error + noder list" where
  "setChild cs k c = (if unat k < length cs then Inr (cs[unat k := c]) else Inl IndexPanic)"

text \<open>
  The common end of \<open>insertExtensionNode\<close> and \<open>insertLeafNode\<close>: the new leaf joins a branch
  that already holds the old node, under an extension for the shared nibbles if any.
\<close>

definition insertBranch ::
  "insert_fn \<Rightarrow> noder list \<Rightarrow> nat \<Rightarrow> bytes \<Rightarrow> bytes \<Rightarrow> trie_error + noder" where
  "insertBranch self branch matchlen key value =
     (if length key \<le> matchlen then Inl IndexPanic
      else case self NilNode (drop (matchlen + 1) key) value of
             Inl e \<Rightarrow> Inl e
           | Inr new \<Rightarrow>
               (case setChild branch (key ! matchlen) new of
                  Inl e \<Rightarrow> Inl e
                | Inr branch' \<Rightarrow>
                    if matchlen = 0 then Inr (BranchNode newNode branch')
                    else Inr (ExtensionNode newNode (take matchlen key) (BranchNode newNode branch'))))"

definition insertExtensionNode ::
  "insert_fn \<Rightarrow> node_hdr \<Rightarrow> bytes \<Rightarrow> noder \<Rightarrow> bytes \<Rightarrow> bytes \<Rightarrow> trie_error + noder" where
  "insertExtensionNode self n nkey next key value =
     (let matchlen = matchkeyLen nkey key
      in if matchlen = length nkey
         then (case self next (drop matchlen key) value of
                 Inl e \<Rightarrow> Inl e
               | Inr new \<Rightarrow> Inr (ExtensionNode (dirty n) nkey new))
         else case setChild emptyChildren (nkey ! matchlen)
                     (if matchlen \<noteq> length nkey - 1
                      then ExtensionNode (dirty n) (drop (matchlen + 1) nkey) next
                      else next) of
                Inl e \<Rightarrow> Inl e
              | Inr branch \<Rightarrow> insertBranch self branch matchlen key value)"

definition insertLeafNode ::
  "insert_fn \<Rightarrow> node_hdr \<Rightarrow> bytes \<Rightarrow> bytes \<Rightarrow> bytes \<Rightarrow> bytes \<Rightarrow> trie_error + noder" where
  "insertLeafNode self n nkey nvalue key value =
     (let matchlen = matchkeyLen nkey key
      in if matchlen = length nkey then Inr (LeafNode (dirty n) nkey value)
         else case setChild emptyChildren (nkey ! matchlen)
                     (LeafNode (dirty n) (drop (matchlen + 1) nkey) nvalue) of
                Inl e \<Rightarrow> Inl e
              | Inr branch \<Rightarrow> insertBranch self branch matchlen key value)"

primrec trie_insert :: "node_loader \<Rightarrow> nat \<Rightarrow> insert_fn" where
  "trie_insert load 0 = (\<lambda>node key value. Inl OutOfFuel)"
| "trie_insert load (Suc fuel) = (\<lambda>node key value.
     (case node of
        ExtensionNode n nkey next \<Rightarrow>
          insertExtensionNode (trie_insert load fuel) n nkey next key value
      | LeafNode n nkey nvalue \<Rightarrow>
          insertLeafNode (trie_insert load fuel) n nkey nvalue key value
      | BranchNode n cs \<Rightarrow>
          (case key of
             [] \<Rightarrow> Inl IndexPanic
           | k # ks \<Rightarrow>
               if unat k < length cs
               then (case trie_insert load fuel (cs ! unat k) ks value of
                       Inl e \<Rightarrow> Inl e
                     | Inr child \<Rightarrow> Inr (BranchNode (dirty n) (cs[unat k := child])))
               else Inl IndexPanic)
      | HashNode h \<Rightarrow>
          (case load h of
             Inl e \<Rightarrow> Inl e
           | Inr loaded \<Rightarrow> trie_insert load fuel loaded key value)
      | NilNode \<Rightarrow> Inr (LeafNode newNode key value)))"

section \<open>Deletion\<close>

text \<open>
  \<open>DelOk match newnode\<close> is a return without error. \<open>DelErr match e n\<close> is a return with error \<open>e\<close>
  where \<open>n\<close> is what the node now holds: the caller keeps its pointer to it.
\<close>

datatype del_result = DelErr bool trie_error noder | DelOk bool noder

definition countChildren :: "noder list \<Rightarrow> nat \<times> nat" where
  "countChildren cs =
     fold (\<lambda>(i, child) (pos, count). if child \<noteq> NilNode then (i, Suc count) else (pos, count))
       (enumerate 0 cs) (0, 0)"

definition deleteBranchTail :: "node_loader \<Rightarrow> node_hdr \<Rightarrow> noder list \<Rightarrow> del_result" where
  "deleteBranchTail load n cs =
     (let (pos, count) = countChildren cs; node = BranchNode (dirty n) cs
      in if count = 1
         then (case (case cs ! pos of HashNode h \<Rightarrow> load h | childnode \<Rightarrow> Inr childnode) of
                 Inl e \<Rightarrow> DelErr True e node
               | Inr (LeafNode _ k v) \<Rightarrow> DelOk True (LeafNode newNode (word_of_nat pos # k) v)
               | Inr (ExtensionNode _ k next) \<Rightarrow>
                   DelOk True (ExtensionNode newNode (word_of_nat pos # k) next)
               | Inr _ \<Rightarrow> DelOk True node)
         else DelOk True node)"

primrec trie_delete :: "node_loader \<Rightarrow> nat \<Rightarrow> noder \<Rightarrow> bytes \<Rightarrow> bool \<Rightarrow> del_result" where
  "trie_delete load 0 = (\<lambda>node key descendant. DelErr False OutOfFuel node)"
| "trie_delete load (Suc fuel) = (\<lambda>node key descendant.
     (case node of
        LeafNode n nkey nvalue \<Rightarrow>
          (let matchlen = matchkeyLen key nkey
           in if matchlen = length nkey \<or> matchlen = length key then DelOk True NilNode
              else DelOk False node)
      | ExtensionNode n nkey next \<Rightarrow>
          (let matchlen = matchkeyLen key nkey
           in if descendant \<and> matchlen = length key then DelOk True NilNode
              else if matchlen = length nkey
                then (case trie_delete load fuel next (drop matchlen key) descendant of
                        DelErr _ e next' \<Rightarrow> DelErr False e (ExtensionNode n nkey next')
                      | DelOk match new \<Rightarrow>
                          if match
                          then (if new = NilNode then DelOk True NilNode
                                else DelOk True (ExtensionNode (dirty n) nkey new))
                          else DelOk False node)
              else DelOk False node)
      | BranchNode n cs \<Rightarrow>
          (case key of
             [] \<Rightarrow> DelErr False IndexPanic node
           | k # ks \<Rightarrow>
               if length cs \<le> unat k then DelErr False IndexPanic node
               else if descendant \<and> length key = 1
                 then (if cs ! unat k = NilNode then DelOk False node
                       else deleteBranchTail load n (cs[unat k := NilNode]))
               else (case trie_delete load fuel (cs ! unat k) ks descendant of
                       DelErr _ e child \<Rightarrow> DelErr False e (BranchNode n (cs[unat k := child]))
                     | DelOk match new \<Rightarrow>
                         if \<not> match then DelOk False node
                         else deleteBranchTail load n (cs[unat k := new])))
      | HashNode h \<Rightarrow>
          (case load h of
             Inl e \<Rightarrow> DelErr False e node
           | Inr loaded \<Rightarrow>
               (case trie_delete load fuel loaded key descendant of
                  DelErr match e _ \<Rightarrow> DelErr match e node
                | r \<Rightarrow> r))
      | NilNode \<Rightarrow> DelOk False NilNode))"

section \<open>Lookup\<close>

text \<open>
  The results of \<open>get\<close>: the value if found, the node to keep in the parent (a loaded node
  replaces its \<open>hashNode\<close>), and the error.
\<close>

primrec trie_get ::
  "node_loader \<Rightarrow> nat \<Rightarrow> noder \<Rightarrow> bytes \<Rightarrow> nat \<Rightarrow> bytes option \<times> noder \<times> trie_error option" where
  "trie_get load 0 = (\<lambda>node key pos. (None, node, Some OutOfFuel))"
| "trie_get load (Suc fuel) = (\<lambda>node key pos.
     (case node of
        NilNode \<Rightarrow> (None, NilNode, None)
      | ExtensionNode n nkey next \<Rightarrow>
          if length key - pos < length nkey \<or> nkey \<noteq> take (length nkey) (drop pos key)
          then (None, node, None)
          else (case trie_get load fuel next key (pos + length nkey) of
                  (val, new, err) \<Rightarrow> (val, ExtensionNode n nkey new, err))
      | HashNode h \<Rightarrow>
          (case load h of
             Inl e \<Rightarrow> (None, node, Some e)
           | Inr child \<Rightarrow> trie_get load fuel child key pos)
      | LeafNode n nkey nvalue \<Rightarrow>
          if length key - pos < length nkey \<or> nkey \<noteq> take (length nkey) (drop pos key)
          then (None, node, None)
          else (Some nvalue, node, None)
      | BranchNode n cs \<Rightarrow>
          if pos < length key \<and> unat (key ! pos) < length cs
          then (case trie_get load fuel (cs ! unat (key ! pos)) key (pos + 1) of
                  (val, new, err) \<Rightarrow> (val, BranchNode n (cs[unat (key ! pos) := new]), err))
          else (None, node, Some IndexPanic)))"

section \<open>Hashing and committing\<close>

definition encodeLeaf :: "bytes \<Rightarrow> bytes \<Rightarrow> bytes" where
  "encodeLeaf k v = rlp_Encode (RlpList [RlpBytes k, RlpBytes v])"

definition encodeExtension :: "bytes \<Rightarrow> bytes \<Rightarrow> bytes" where
  "encodeExtension k nexthash = rlp_Encode (RlpList [RlpBool True, RlpBytes k, RlpBytes nexthash])"

definition encodeBranch :: "bytes list \<Rightarrow> bytes" where
  "encodeBranch children = rlp_Encode (RlpList [RlpList (map RlpBytes children)])"

text \<open>
  The end of \<open>nodeHash\<close>: hash a dirty node, then persist it when a batch is given. The batch
  is \<open>Some dbPrefix\<close>; its writes are returned in order.
\<close>

definition finishHash ::
  "(bytes \<Rightarrow> bytes) \<Rightarrow> bytes option \<Rightarrow> node_hdr \<Rightarrow> bytes \<Rightarrow> node_hdr \<times> (bytes \<times> bytes) list" where
  "finishHash sha batch n buf =
     (let n1 = (if nd_status n = StatusDirty then SetStatus StatusUpdated (SetHash (sha buf) n) else n)
      in case batch of
           None \<Rightarrow> (n1, [])
         | Some dbPrefix \<Rightarrow> (SetStatus StatusPersisted n1, [(dbPrefix @ nd_hash n1, buf)]))"

definition hashKnown :: "bytes option \<Rightarrow> node_hdr \<Rightarrow> bool" where
  "hashKnown batch n \<longleftrightarrow>
     nd_status n = StatusPersisted \<or> nd_status n = StatusUpdated \<and> batch = None"

fun nodeHash ::
  "(bytes \<Rightarrow> bytes) \<Rightarrow> bytes option \<Rightarrow> noder \<Rightarrow> bytes \<times> noder \<times> (bytes \<times> bytes) list" where
  "nodeHash sha batch NilNode = ([], NilNode, [])"
| "nodeHash sha batch (HashNode h) = (h, HashNode h, [])"
| "nodeHash sha batch (LeafNode n k v) =
     (if hashKnown batch n then (nd_hash n, LeafNode n k v, [])
      else let (n', puts) = finishHash sha batch n (encodeLeaf k v)
           in (nd_hash n', LeafNode n' k v, puts))"
| "nodeHash sha batch (ExtensionNode n k next) =
     (if hashKnown batch n then (nd_hash n, ExtensionNode n k next, [])
      else let (nexthash, next', puts1) = nodeHash sha batch next;
               (n', puts2) = finishHash sha batch n (encodeExtension k nexthash)
           in (nd_hash n', ExtensionNode n' k next', puts1 @ puts2))"
| "nodeHash sha batch (BranchNode n cs) =
     (if hashKnown batch n then (nd_hash n, BranchNode n cs, [])
      else let rs = map (nodeHash sha batch) cs;
               (n', puts2) = finishHash sha batch n (encodeBranch (map fst rs))
           in (nd_hash n', BranchNode n' (map (\<lambda>r. fst (snd r)) rs),
               concat (map (\<lambda>r. snd (snd r)) rs) @ puts2))"

section \<open>The trie\<close>

record trie =
  t_db :: trie_db
  t_root :: noder
  t_dbprefix :: bytes

definition NewEmptyTrie :: "bytes \<Rightarrow> trie_db \<Rightarrow> trie" where
  "NewEmptyTrie dbprefix db = \<lparr>t_db = db, t_root = NilNode, t_dbprefix = dbprefix\<rparr>"

definition NewTrie :: "bytes \<Rightarrow> bytes \<Rightarrow> trie_db \<Rightarrow> trie_error + trie" where
  "NewTrie root dbprefix db =
     (if root \<noteq> EmptyHash
      then (case loadNode db dbprefix root of
              Inl e \<Rightarrow> Inl e
            | Inr rootnode \<Rightarrow> Inr ((NewEmptyTrie dbprefix db)\<lparr>t_root := rootnode\<rparr>))
      else Inr (NewEmptyTrie dbprefix db))"

definition t_load :: "trie \<Rightarrow> node_loader" where
  "t_load t = loadNode (t_db t) (t_dbprefix t)"

text \<open>Recursion depth allowed for a key: a load and a step per nibble, and the end.\<close>

definition key_fuel :: "bytes \<Rightarrow> nat" where
  "key_fuel key = 2 * length key + 3"

definition trie_Put :: "trie \<Rightarrow> bytes \<Rightarrow> bytes \<Rightarrow> trie \<times> trie_error option" where
  "trie_Put t key value =
     (let k = keybytesToHex key
      in case trie_insert (t_load t) (key_fuel k) (t_root t) k value of
           Inl e \<Rightarrow> (t, Some e)
         | Inr node \<Rightarrow> (t\<lparr>t_root := node\<rparr>, None))"

definition runDelete :: "trie \<Rightarrow> bytes \<Rightarrow> bool \<Rightarrow> trie \<times> bool \<times> trie_error option" where
  "runDelete t key descendant =
     (case trie_delete (t_load t) (key_fuel key) (t_root t) key descendant of
        DelErr match e root \<Rightarrow> (t\<lparr>t_root := root\<rparr>, match, Some e)
      | DelOk match new \<Rightarrow> (if match then t\<lparr>t_root := new\<rparr> else t, match, None))"

definition trie_Delete :: "trie \<Rightarrow> bytes \<Rightarrow> trie \<times> bool \<times> trie_error option" where
  "trie_Delete t key =
     (if t_root t = NilNode then (t, False, None) else runDelete t (keybytesToHex key) False)"

definition trie_DeletePrefix :: "trie \<Rightarrow> bytes \<Rightarrow> trie \<times> bool \<times> trie_error option" where
  "trie_DeletePrefix t pre =
     (if length pre = 0 \<or> t_root t = NilNode then (t, False, None)
      else runDelete t (butlast (keybytesToHex pre)) True)"

text \<open>
  The root pointer keeps its place, but the nodes below it may have been loaded. When the root is
  itself a \<open>hashNode\<close> the loaded node is dropped.
\<close>

definition trie_Get :: "trie \<Rightarrow> bytes \<Rightarrow> trie \<times> bytes option \<times> trie_error option" where
  "trie_Get t key =
     (if t_root t = NilNode then (t, None, None)
      else let k = keybytesToHex key
           in case trie_get (t_load t) (key_fuel k) (t_root t) k 0 of
                (val, new, err) \<Rightarrow>
                  (case t_root t of HashNode _ \<Rightarrow> t | _ \<Rightarrow> t\<lparr>t_root := new\<rparr>, val, err))"

definition trie_Hash :: "(bytes \<Rightarrow> bytes) \<Rightarrow> trie \<Rightarrow> trie \<times> bytes" where
  "trie_Hash sha t =
     (if t_root t \<noteq> NilNode
      then (case nodeHash sha None (t_root t) of
              (_, root, _) \<Rightarrow> (t\<lparr>t_root := root\<rparr>, BytesToHash (node_Hash root)))
      else (t, EmptyHash))"

definition trie_Commit :: "(bytes \<Rightarrow> bytes) \<Rightarrow> trie \<Rightarrow> trie \<times> bytes \<times> (bytes \<times> bytes) list" where
  "trie_Commit sha t =
     (if t_root t \<noteq> NilNode
      then (case nodeHash sha (Some (t_dbprefix t)) (t_root t) of
              (_, root, puts) \<Rightarrow> (t\<lparr>t_root := root\<rparr>, BytesToHash (node_Hash root), puts))
      else (t, EmptyHash, []))"

end
