(* ===== verification/Trie_Map.thy ===== *)
theory Trie_Map
  imports Trie
begin

text \<open>
  The finite map a trie stands for. \<open>rep load t n m\<close> says that node \<open>n\<close>, with its hash nodes
  resolved by \<open>load\<close>, holds exactly the entries \<open>m\<close> from key nibbles to values; \<open>t\<close> says that
  the terminator nibble has already been consumed on the way to \<open>n\<close>. Lookup, insertion and
  deletion are proved to compute lookup, update and removal on that map, within their fuel
  and without errors or panics.
\<close>

section \<open>Key nibbles\<close>

definition nibbles :: "bytes \<Rightarrow> bool" where
  "nibbles ks \<longleftrightarrow> (\<forall>k \<in> set ks. unat k < 16)"

definition hexkey :: "bytes \<Rightarrow> bool" where
  "hexkey ks \<longleftrightarrow> ks \<noteq> [] \<and> last ks = 16 \<and> nibbles (butlast ks)"

definition tailkey :: "bool \<Rightarrow> bytes \<Rightarrow> bool" where
  "tailkey t ks \<longleftrightarrow> (if t then ks = [] else hexkey ks)"

lemma nibbles_simps [simp]:
  "nibbles []" "nibbles (k # ks) \<longleftrightarrow> unat k < 16 \<and> nibbles ks"
  "nibbles (ks @ ls) \<longleftrightarrow> nibbles ks \<and> nibbles ls"
  by (auto simp: nibbles_def)

lemma unat_16_iff: "unat (k :: byte) = 16 \<longleftrightarrow> k = 16"
  by (simp add: word_unat_eq_iff)

lemma hexkey_Nil [simp]: "\<not> hexkey []"
  by (simp add: hexkey_def)

lemma hexkey_Cons: "hexkey (k # ks) \<longleftrightarrow> (if k = 16 then ks = [] else unat k < 16 \<and> hexkey ks)"
  by (cases ks) (auto simp: hexkey_def)

lemma hexkey_Cons_iff: "hexkey (k # ks) \<longleftrightarrow> unat k < 17 \<and> tailkey (unat k = 16) ks"
proof -
  have "unat k < 17 \<longleftrightarrow> unat k < 16 \<or> unat k = 16" by linarith
  then show ?thesis by (auto simp: hexkey_Cons tailkey_def unat_16_iff)
qed

lemma hexkey_append: "nibbles p \<Longrightarrow> hexkey (p @ ks) \<longleftrightarrow> hexkey ks"
  by (induction p) (auto simp: hexkey_Cons)

lemma hexkey_append_nibbles: "hexkey (p @ ks) \<Longrightarrow> ks \<noteq> [] \<Longrightarrow> nibbles p"
  by (induction p) (auto simp: hexkey_Cons split: if_splits)

lemma hexkey_prefix_eq: "hexkey ks \<Longrightarrow> hexkey ls \<Longrightarrow> prefix ks ls \<Longrightarrow> ks = ls"
proof (induction ks arbitrary: ls)
  case (Cons k ks)
  then show ?case by (cases ls) (auto simp: hexkey_Cons split: if_splits)
qed simp

lemma hexkey_not_nibbles_prefix: "hexkey ks \<Longrightarrow> nibbles ls \<Longrightarrow> \<not> prefix ks ls"
proof (induction ks arbitrary: ls)
  case (Cons k ks)
  then show ?case by (cases ls) (auto simp: hexkey_Cons unat_16_iff split: if_splits)
qed simp

lemma tailkey_prefix_eq: "tailkey t ks \<Longrightarrow> tailkey t ls \<Longrightarrow> prefix ks ls \<Longrightarrow> ks = ls"
  by (auto simp: tailkey_def hexkey_prefix_eq split: if_splits)

lemma keybytesToHex_Nil [simp]: "keybytesToHex [] = [16]"
  by (simp add: keybytesToHex_def)

lemma keybytesToHex_Cons [simp]:
  "keybytesToHex (b # bs) = b div 16 # b mod 16 # keybytesToHex bs"
  by (simp add: keybytesToHex_def)

lemma byte_div_mod_16:
  "unat (b div 16 :: byte) = unat b div 16" "unat (b mod 16 :: byte) = unat b mod 16"
  by (simp_all add: unat_div unat_mod)

lemma byte_div_16_less: "unat (b div 16 :: byte) < 16" "unat (b mod 16 :: byte) < 16"
  using byte_bound [of b] by (simp_all add: byte_div_mod_16)

lemma hexkey_keybytesToHex [simp]: "hexkey (keybytesToHex bs)"
proof (induction bs)
  case (Cons b bs)
  then show ?case using byte_div_16_less [of b] by (auto simp: hexkey_Cons)
qed (simp add: hexkey_Cons)

lemma nibbles_keybytesToHex [simp]: "nibbles (butlast (keybytesToHex bs))"
  using hexkey_keybytesToHex hexkey_def by blast

lemma keybytesToHex_butlast: "keybytesToHex bs = butlast (keybytesToHex bs) @ [16]"
  using hexkey_keybytesToHex [of bs] unfolding hexkey_def by (metis append_butlast_last_id)

lemma byte_eq_div_mod: "a div 16 = b div 16 \<Longrightarrow> a mod 16 = b mod 16 \<Longrightarrow> a = (b :: byte)"
  by (metis div_mult_mod_eq)

lemma keybytesToHex_inj: "keybytesToHex as = keybytesToHex bs \<longleftrightarrow> as = bs"
proof (induction as arbitrary: bs)
  case Nil
  then show ?case using byte_div_16_less(1) by (cases bs) (auto simp: unat_16_iff [symmetric])
next
  case (Cons a as)
  then show ?case using byte_div_16_less(1) [of a]
    by (cases bs) (auto simp: unat_16_iff [symmetric] dest: byte_eq_div_mod)
qed

lemma keybytesToHex_append: "keybytesToHex (as @ bs) = butlast (keybytesToHex as) @ keybytesToHex bs"
  by (induction as) (auto simp: keybytesToHex_def)

lemma prefix_keybytesToHex:
  "prefix (butlast (keybytesToHex as)) (keybytesToHex bs) \<longleftrightarrow> prefix as bs"
proof (induction as arbitrary: bs)
  case (Cons a as)
  have ne: "keybytesToHex as \<noteq> []" by (simp add: keybytesToHex_def)
  show ?case
  proof (cases bs)
    case Nil
    then show ?thesis using byte_div_16_less(1) [of a] ne by (auto simp: unat_16_iff [symmetric])
  next
    case (Cons b bs')
    then show ?thesis using Cons.IH [of bs'] ne by (auto dest: byte_eq_div_mod)
  qed
qed simp

section \<open>Common prefixes\<close>

lemma matchkeyLen_le: "matchkeyLen as bs \<le> length as" "matchkeyLen as bs \<le> length bs"
  by (induction as bs rule: matchkeyLen.induct) auto

lemma matchkeyLen_take: "take (matchkeyLen as bs) as = take (matchkeyLen as bs) bs"
  by (induction as bs rule: matchkeyLen.induct) auto

lemma matchkeyLen_commute: "matchkeyLen as bs = matchkeyLen bs as"
  by (induction as bs rule: matchkeyLen.induct) (auto simp: matchkeyLen.simps)

lemma matchkeyLen_prefix: "matchkeyLen as bs = length as \<longleftrightarrow> prefix as bs"
  by (induction as bs rule: matchkeyLen.induct) auto

lemma matchkeyLen_prefix2: "matchkeyLen as bs = length bs \<longleftrightarrow> prefix bs as"
  by (simp add: matchkeyLen_commute [of as] matchkeyLen_prefix)

lemma matchkeyLen_append [simp]:
  "matchkeyLen as (as @ bs) = length as" "matchkeyLen (as @ bs) as = length as"
  by (simp_all add: matchkeyLen_prefix matchkeyLen_prefix2)

lemma matchkeyLen_split:
  assumes "\<not> prefix as bs" and "\<not> prefix bs as"
  obtains p a as' b bs' where "as = p @ a # as'" "bs = p @ b # bs'" "a \<noteq> b"
    "matchkeyLen as bs = length p"
  using assms
proof (induction as bs arbitrary: thesis rule: matchkeyLen.induct)
  case (1 a as b bs)
  show ?case
  proof (cases "a = b")
    case True
    with "1.prems" have "\<not> prefix as bs" "\<not> prefix bs as" by simp_all
    then obtain p a' as' b' bs' where
      "as = p @ a' # as'" "bs = p @ b' # bs'" "a' \<noteq> b'" "matchkeyLen as bs = length p"
      using "1.IH" True by metis
    then show thesis using True by (intro "1.prems"(1) [of "a # p"]) auto
  next
    case False
    then show thesis by (intro "1.prems"(1) [of "[]"]) auto
  qed
qed auto

section \<open>Maps over nibbles\<close>

type_synonym kvmap = "bytes \<rightharpoonup> bytes"

definition mprefix :: "bytes \<Rightarrow> kvmap \<Rightarrow> kvmap" where
  "mprefix k m = (\<lambda>x. if prefix k x then m (drop (length k) x) else None)"

definition mbranch :: "(nat \<Rightarrow> kvmap) \<Rightarrow> kvmap" where
  "mbranch ms = (\<lambda>x. case x of [] \<Rightarrow> None | k # ks \<Rightarrow> if unat k < 17 then ms (unat k) ks else None)"

text \<open>Removal of every key that starts with \<open>k\<close>.\<close>

definition mdrop :: "bytes \<Rightarrow> kvmap \<Rightarrow> kvmap" where
  "mdrop k m = (\<lambda>x. if prefix k x then None else m x)"

lemma mprefix_Nil [simp]: "mprefix [] m = m"
  by (simp add: mprefix_def)

lemma mprefix_append: "mprefix (p @ q) m = mprefix p (mprefix q m)"
  by (rule ext) (auto simp: mprefix_def prefix_def add.commute)

lemma mprefix_empty [simp]: "mprefix p (\<lambda>_. None) = (\<lambda>_. None)"
  by (simp add: mprefix_def)

lemma mprefix_apply [simp]: "mprefix p m (p @ x) = m x"
  by (simp add: mprefix_def)

lemma mprefix_other: "\<not> prefix p x \<Longrightarrow> mprefix p m x = None"
  by (simp add: mprefix_def)

lemma mprefix_upd: "(mprefix p m)(p @ x := v) = mprefix p (m(x := v))"
  by (rule ext) (auto simp: mprefix_def prefix_def)

lemma mprefix_single: "[p @ q \<mapsto> v] = mprefix p [q \<mapsto> v]"
  using mprefix_upd [of p "\<lambda>_. None" q "Some v"] by simp

lemma mbranch_empty [simp]: "mbranch (\<lambda>_ _. None) = (\<lambda>_. None)"
  by (auto simp: mbranch_def split: list.splits)

lemma mbranch_Nil [simp]: "mbranch ms [] = None"
  by (simp add: mbranch_def)

lemma mbranch_Cons [simp]: "unat k < 17 \<Longrightarrow> mbranch ms (k # ks) = ms (unat k) ks"
  by (simp add: mbranch_def)

lemma mbranch_upd:
  "unat k < 17 \<Longrightarrow> (mbranch ms)(k # ks := v) = mbranch (ms(unat k := (ms (unat k))(ks := v)))"
  by (rule ext) (auto simp: mbranch_def word_unat_eq_iff split: list.splits)

lemma mbranch_cong: "(\<And>i. i < 17 \<Longrightarrow> ms i = ms' i) \<Longrightarrow> mbranch ms = mbranch ms'"
  by (rule ext) (auto simp: mbranch_def split: list.splits)

lemma mprefix_Cons:
  "unat k < 17 \<Longrightarrow> mprefix (k # ks) m = mbranch ((\<lambda>_ _. None)(unat k := mprefix ks m))"
  by (rule ext) (auto simp: mbranch_def mprefix_def word_unat_eq_iff split: list.splits)

lemma mdrop_Nil [simp]: "mdrop [] m = (\<lambda>_. None)"
  by (simp add: mdrop_def)

lemma mdrop_empty [simp]: "mdrop k (\<lambda>_. None) = (\<lambda>_. None)"
  by (simp add: mdrop_def)

lemma mdrop_mprefix: "mdrop (p @ x) (mprefix p m) = mprefix p (mdrop x m)"
  by (rule ext) (auto simp: mprefix_def mdrop_def prefix_def)

lemma mdrop_mprefix_all: "prefix k p \<Longrightarrow> mdrop k (mprefix p m) = (\<lambda>_. None)"
  by (rule ext) (auto simp: mprefix_def mdrop_def prefix_def)

lemma mdrop_mprefix_other:
  "\<not> prefix k p \<Longrightarrow> \<not> prefix p k \<Longrightarrow> prefix k x \<Longrightarrow> mprefix p m x = None"
  using prefix_same_cases by (auto simp: mprefix_def)

lemma mdrop_mbranch:
  "unat k < 17 \<Longrightarrow> mdrop (k # ks) (mbranch ms) = mbranch (ms(unat k := mdrop ks (ms (unat k))))"
  by (rule ext) (auto simp: mbranch_def mdrop_def word_unat_eq_iff split: list.splits)

lemma mdrop_no_key: "(\<And>x. prefix k x \<Longrightarrow> m x = None) \<Longrightarrow> mdrop k m = m"
  by (rule ext) (simp add: mdrop_def)

section \<open>The represented map\<close>

inductive rep :: "node_loader \<Rightarrow> bool \<Rightarrow> noder \<Rightarrow> kvmap \<Rightarrow> bool" for load where
  rep_nil: "rep load t NilNode (\<lambda>_. None)"
| rep_leaf: "tailkey t k \<Longrightarrow> rep load t (LeafNode n k v) [k \<mapsto> v]"
| rep_ext: "k \<noteq> [] \<Longrightarrow> nibbles k \<Longrightarrow> rep load False next m \<Longrightarrow>
    rep load False (ExtensionNode n k next) (mprefix k m)"
| rep_branch: "length cs = 17 \<Longrightarrow> (\<And>i. i < 17 \<Longrightarrow> rep load (i = 16) (cs ! i) (ms i)) \<Longrightarrow>
    rep load False (BranchNode n cs) (mbranch ms)"
| rep_hash: "load h = Inr n \<Longrightarrow> rep load t n m \<Longrightarrow> rep load t (HashNode h) m"

inductive_cases rep_NilE: "rep load t NilNode m"
inductive_cases rep_LeafE: "rep load t (LeafNode n k v) m"
inductive_cases rep_ExtE: "rep load t (ExtensionNode n k next) m"
inductive_cases rep_BranchE: "rep load t (BranchNode n cs) m"
inductive_cases rep_HashE: "rep load t (HashNode h) m"

inductive_simps rep_Nil_iff [simp]: "rep load t NilNode m"
inductive_simps rep_Leaf_iff: "rep load t (LeafNode n k v) m"
inductive_simps rep_Ext_iff: "rep load t (ExtensionNode n k next) m"
inductive_simps rep_Hash_iff: "rep load t (HashNode h) m"

lemma rep_dom: "rep load t n m \<Longrightarrow> m x = Some v \<Longrightarrow> tailkey t x"
proof (induction arbitrary: x v rule: rep.induct)
  case (rep_ext k "next" m n)
  then obtain y where y: "x = k @ y" "m y = Some v"
    by (auto simp: mprefix_def prefix_def split: if_splits)
  then show ?case using rep_ext.IH [OF y(2)] rep_ext.hyps(2) by (simp add: tailkey_def hexkey_append)
next
  case (rep_branch cs ms n)
  from rep_branch.prems obtain k ks where x: "x = k # ks" "unat k < 17" "ms (unat k) ks = Some v"
    by (auto simp: mbranch_def split: list.splits if_splits)
  then have "tailkey (unat k = 16) ks" using rep_branch.IH by blast
  with x show ?case by (simp add: tailkey_def [of False] hexkey_Cons_iff)
qed (auto split: if_splits)

lemma rep_fun: "rep load t n m \<Longrightarrow> rep load t n m' \<Longrightarrow> m = m'"
proof (induction arbitrary: m' rule: rep.induct)
  case (rep_branch cs ms n)
  from rep_branch.prems obtain ms' where "m' = mbranch ms'"
    "\<And>i. i < 17 \<Longrightarrow> rep load (i = 16) (cs ! i) (ms' i)"
    by (auto elim: rep_BranchE)
  with rep_branch.IH show ?case by (auto intro: mbranch_cong)
next
  case (rep_hash h n t m)
  from rep_hash.prems rep_hash.hyps(1) have "rep load t n m'" by (auto elim: rep_HashE)
  then show ?case by (rule rep_hash.IH)
next
  case (rep_ext k "next" m n)
  from rep_ext.prems obtain m2 where "m' = mprefix k m2" "rep load False next m2"
    by (auto elim: rep_ExtE)
  with rep_ext.IH show ?case by blast
qed (auto simp: rep_Leaf_iff)

text \<open>Removing one key is removing the keys it prefixes, as no key is a prefix of another.\<close>

lemma rep_mdrop_key: "rep load t n m \<Longrightarrow> tailkey t k \<Longrightarrow> mdrop k m = m(k := None)"
proof (rule ext)
  fix x assume r: "rep load t n m" "tailkey t k"
  show "mdrop k m x = (m(k := None)) x"
  proof (cases "m x")
    case (Some v)
    then have "tailkey t x" using r(1) by (rule rep_dom [rotated])
    then have "prefix k x \<longleftrightarrow> k = x" using r(2) tailkey_prefix_eq by auto
    then show ?thesis by (simp add: mdrop_def)
  qed (simp add: mdrop_def)
qed

section \<open>Lookup, insertion and deletion over a node store\<close>

text \<open>
  What the trie relies on when it resolves a hash node: the store hands out leaf, extension and
  branch nodes only, so one load is followed by a step along the key.
\<close>

fun loadable :: "noder \<Rightarrow> bool" where
  "loadable (LeafNode n k v) \<longleftrightarrow> True"
| "loadable (ExtensionNode n k next) \<longleftrightarrow> True"
| "loadable (BranchNode n cs) \<longleftrightarrow> True"
| "loadable _ \<longleftrightarrow> False"

text \<open>Fuel that suffices for a node and a remaining key.\<close>

definition enough :: "noder \<Rightarrow> bytes \<Rightarrow> nat \<Rightarrow> bool" where
  "enough n key fuel \<longleftrightarrow> 2 * length key + (if loadable n then 1 else 2) \<le> fuel"

lemma enough_Suc: "enough n key fuel \<Longrightarrow> \<exists>f. fuel = Suc f \<and> 2 * length key \<le> f"
  by (cases fuel) (auto simp: enough_def split: if_splits)

lemma enough_next: "2 * length key \<le> f \<Longrightarrow> length key' < length key \<Longrightarrow> enough n key' f"
  by (auto simp: enough_def)

lemma enough_key_fuel: "enough n key (key_fuel key)"
  by (simp add: enough_def key_fuel_def)

lemma rep_insertBranch:
  assumes cs: "length cs = 17" "\<And>i. i < 17 \<Longrightarrow> rep load (i = 16) (cs ! i) (ms i)"
    and key: "key = p @ b # bs" "nibbles p" "hexkey (b # bs)"
    and self: "self NilNode bs value = Inr (LeafNode newNode bs value)"
  shows "\<exists>n'. insertBranch self cs (length p) key value = Inr n' \<and>
    rep load False n' (mprefix p (mbranch (ms(unat b := [bs \<mapsto> value]))))"
proof -
  have b: "unat b < 17" "tailkey (unat b = 16) bs" using key(3) by (auto simp: hexkey_Cons_iff)
  let ?cs = "cs[unat b := LeafNode newNode bs value]"
  have "rep load False (BranchNode newNode ?cs) (mbranch (ms(unat b := [bs \<mapsto> value])))"
    using cs b by (intro rep_branch) (auto simp: nth_list_update intro: rep_leaf)
  then show ?thesis
    using key(2) self b(1) cs(1)
    by (auto simp: insertBranch_def key(1) setChild_def intro: rep_ext)
qed

text \<open>Keys a deletion is called with: a full key, or a proper prefix of nibbles.\<close>

definition delkey :: "bool \<Rightarrow> bool \<Rightarrow> bytes \<Rightarrow> bool" where
  "delkey t descendant key \<longleftrightarrow>
     (if descendant then \<not> t \<and> key \<noteq> [] \<and> nibbles key else tailkey t key)"

text \<open>
  What a deletion returns: the node without the keys that start with \<open>key\<close>; a result of false
  means there was no such key; for a full key a result of true means the key was there.
\<close>

definition deleted :: "node_loader \<Rightarrow> bool \<Rightarrow> bool \<Rightarrow> bytes \<Rightarrow> kvmap \<Rightarrow> del_result \<Rightarrow> bool" where
  "deleted load t descendant key m r \<longleftrightarrow>
     (\<exists>match n'. r = DelOk match n'
        \<and> (if match then rep load t n' (mdrop key m) else (\<forall>x. prefix key x \<longrightarrow> m x = None))
        \<and> (match \<longrightarrow> \<not> descendant \<longrightarrow> m key \<noteq> None))"

lemma deleted_matchI:
  "rep load t n' (mdrop key m) \<Longrightarrow> (\<not> d \<Longrightarrow> m key \<noteq> None) \<Longrightarrow> deleted load t d key m (DelOk True n')"
  by (auto simp: deleted_def)

lemma deleted_nomatchI:
  "(\<And>x. prefix key x \<Longrightarrow> m x = None) \<Longrightarrow> deleted load t d key m (DelOk False n')"
  by (auto simp: deleted_def)

lemma deletedE:
  assumes "deleted load t d key m r"
  obtains n' where "r = DelOk True n'" "rep load t n' (mdrop key m)" "\<not> d \<longrightarrow> m key \<noteq> None"
  | n' where "r = DelOk False n'" "\<And>x. prefix key x \<Longrightarrow> m x = None"
proof -
  from assms obtain match n' where "r = DelOk match n'"
    "if match then rep load t n' (mdrop key m) else (\<forall>x. prefix key x \<longrightarrow> m x = None)"
    "match \<longrightarrow> \<not> d \<longrightarrow> m key \<noteq> None"
    unfolding deleted_def by blast
  then show thesis using that by (cases match) auto
qed

lemma countChildren_snoc:
  "countChildren (cs @ [c]) =
     (if c \<noteq> NilNode then (length cs, Suc (snd (countChildren cs))) else countChildren cs)"
  by (auto simp: countChildren_def enumerate_append_eq split: prod.splits)

lemma countChildren_Nil [simp]: "countChildren [] = (0, 0)"
  by (simp add: countChildren_def)

lemma countChildren_count: "snd (countChildren cs) = length (filter (\<lambda>c. c \<noteq> NilNode) cs)"
  by (induction cs rule: rev_induct) (auto simp: countChildren_snoc)

lemma countChildren_pos:
  "snd (countChildren cs) \<noteq> 0 \<Longrightarrow>
     fst (countChildren cs) < length cs \<and> cs ! fst (countChildren cs) \<noteq> NilNode"
proof (induction cs rule: rev_induct)
  case Nil
  then show ?case by simp
next
  case (snoc c cs)
  then show ?case by (auto simp: countChildren_snoc nth_append)
qed

lemma countChildren_one:
  assumes "countChildren cs = (pos, 1)"
  shows "pos < length cs" "cs ! pos \<noteq> NilNode"
    "i < length cs \<Longrightarrow> i \<noteq> pos \<Longrightarrow> cs ! i = NilNode"
proof -
  show pos: "pos < length cs" "cs ! pos \<noteq> NilNode"
    using countChildren_pos [of cs] assms by auto
  have one: "card {i. i < length cs \<and> cs ! i \<noteq> NilNode} = 1"
    using countChildren_count [of cs] assms by (simp add: length_filter_conv_card)
  then obtain j where j: "{i. i < length cs \<and> cs ! i \<noteq> NilNode} = {j}" by (rule card_1_singletonE)
  then have "pos = j" using pos by blast
  with j show "i < length cs \<Longrightarrow> i \<noteq> pos \<Longrightarrow> cs ! i = NilNode" by blast
qed

locale node_store =
  fixes load :: node_loader
  assumes load_loadable: "load h = Inr n \<Longrightarrow> loadable n"
begin

lemma enough_loaded:
  "load h = Inr n \<Longrightarrow> enough (HashNode h) key (Suc f) \<Longrightarrow> enough n key f"
  using load_loadable by (auto simp: enough_def)

lemma get_rep:
  "rep load t n m \<Longrightarrow> tailkey t (drop pos key) \<Longrightarrow> enough n (drop pos key) fuel \<Longrightarrow>
     \<exists>n'. trie_get load fuel n key pos = (m (drop pos key), n', None) \<and> rep load t n' m
       \<and> (loadable n \<longrightarrow> loadable n')"
proof (induction arbitrary: pos fuel rule: rep.induct)
  case (rep_nil t)
  then show ?case by (auto dest!: enough_Suc)
next
  case (rep_leaf t k n v)
  let ?x = "drop pos key"
  have "length key - pos < length k \<or> k \<noteq> take (length k) ?x \<longleftrightarrow> \<not> prefix k ?x"
    by (auto simp: prefix_take_iff)
  moreover have "prefix k ?x \<longleftrightarrow> k = ?x"
    using rep_leaf.hyps rep_leaf.prems(1) tailkey_prefix_eq by auto
  moreover have "rep load t (LeafNode n k v) (\<lambda>x. if x = k then Some v else None)"
    using rep.rep_leaf [OF rep_leaf.hyps] by (simp add: fun_upd_def)
  ultimately show ?case using rep_leaf.prems(2) by (auto dest!: enough_Suc)
next
  case (rep_ext k "next" m n)
  let ?x = "drop pos key"
  obtain f where f: "fuel = Suc f" "2 * length ?x \<le> f" using rep_ext.prems(2) by (auto dest: enough_Suc)
  have c: "length key - pos < length k \<or> k \<noteq> take (length k) ?x \<longleftrightarrow> \<not> prefix k ?x"
    by (auto simp: prefix_take_iff)
  show ?case
  proof (cases "prefix k ?x")
    case True
    then obtain y where y: "?x = k @ y" by (auto simp: prefix_def)
    then have dy: "drop (pos + length k) key = y" by (metis add.commute append_eq_conv_conj drop_drop)
    have "tailkey False y"
      using rep_ext.prems(1) rep_ext.hyps(2) y by (simp add: tailkey_def hexkey_append)
    moreover have "enough next y f" using f(2) y rep_ext.hyps(1) by (intro enough_next [of ?x]) auto
    ultimately obtain n' where "trie_get load f next key (pos + length k) = (m y, n', None)"
      "rep load False n' m" using rep_ext.IH [of "pos + length k" f] dy by auto
    then show ?thesis using True c f(1) rep_ext.hyps y by (auto intro: rep.rep_ext)
  next
    case False
    then show ?thesis using c f(1) rep_ext.hyps by (auto simp: mprefix_other intro: rep.rep_ext)
  qed
next
  case (rep_branch cs ms n)
  let ?x = "drop pos key"
  obtain f where f: "fuel = Suc f" "2 * length ?x \<le> f" using rep_branch.prems(2) by (auto dest: enough_Suc)
  obtain k ks where x: "?x = k # ks" using rep_branch.prems(1) by (cases ?x) (auto simp: tailkey_def)
  then have k: "unat k < 17" "tailkey (unat k = 16) ks"
    using rep_branch.prems(1) by (auto simp: tailkey_def [of False] hexkey_Cons_iff)
  have pos: "pos < length key" "key ! pos = k" "drop (pos + 1) key = ks"
    using x by (auto elim: drop_eq_ConsE)
  have "enough (cs ! unat k) ks f" using f(2) x by (intro enough_next [of ?x]) auto
  then obtain n' where "trie_get load f (cs ! unat k) key (pos + 1) = (ms (unat k) ks, n', None)"
    "rep load (unat k = 16) n' (ms (unat k))"
    using rep_branch.IH [OF k(1), of "pos + 1" f] k pos by auto
  then show ?case using f(1) x k(1) pos rep_branch.hyps
    by (auto intro!: rep.rep_branch simp: nth_list_update)
next
  case (rep_hash h n t m)
  then obtain f where f: "fuel = Suc f" by (auto dest: enough_Suc)
  have "enough n (drop pos key) f"
    using enough_loaded [OF rep_hash.hyps(1)] rep_hash.prems(2) f by simp
  then show ?case using rep_hash.IH [OF rep_hash.prems(1)] rep_hash.hyps(1) f by fastforce
qed

lemma insert_nil: "0 < f \<Longrightarrow> trie_insert load f NilNode key v = Inr (LeafNode newNode key v)"
  by (cases f) auto

text \<open>An old leaf or extension and a new key that parts from it after \<open>p\<close> meet in a branch.\<close>

lemma insert_parts:
  assumes old: "rep load (unat a = 16) old m" "unat a < 17"
    and key: "key = p @ b # bs" "nibbles p" "hexkey (b # bs)" "a \<noteq> b" "0 < f"
  shows "\<exists>n'. insertBranch (trie_insert load f) (emptyChildren[unat a := old]) (length p) key v = Inr n'
    \<and> rep load False n' ((mprefix (p @ [a]) m)(key \<mapsto> v)) \<and> loadable n'"
proof -
  let ?ms = "(\<lambda>_ _. None)(unat a := m)"
  have b: "unat b < 17" "unat a \<noteq> unat b" using key(3,4) by (auto simp: hexkey_Cons_iff word_unat_eq_iff)
  have eq: "mprefix p (mbranch (?ms(unat b := [bs \<mapsto> v]))) = (mprefix (p @ [a]) m)(key \<mapsto> v)"
    unfolding key(1) mprefix_append mprefix_upd mprefix_Cons [OF old(2)] mbranch_upd [OF b(1)]
    using b by simp
  have "\<exists>n'. insertBranch (trie_insert load f) (emptyChildren[unat a := old]) (length p) key v = Inr n'
    \<and> rep load False n' (mprefix p (mbranch (?ms(unat b := [bs \<mapsto> v]))))"
    by (rule rep_insertBranch [OF _ _ key(1,2,3)])
      (use old key(5) in \<open>auto simp: emptyChildren_def numBranchChildren_def nth_list_update insert_nil\<close>)
  then show ?thesis unfolding eq
    by (auto simp: insertBranch_def split: sum.splits if_splits)
qed

lemma insert_rep:
  "rep load t n m \<Longrightarrow> tailkey t key \<Longrightarrow> enough n key fuel \<Longrightarrow>
     \<exists>n'. trie_insert load fuel n key v = Inr n' \<and> rep load t n' (m(key \<mapsto> v)) \<and> loadable n'"
proof (induction arbitrary: key fuel rule: rep.induct)
  case (rep_nil t)
  then obtain f where "fuel = Suc f" by (auto dest: enough_Suc)
  then show ?case using rep.rep_leaf [OF rep_nil.prems(1)] by (simp add: fun_upd_def)
next
  case (rep_leaf t k n w)
  obtain f where f: "fuel = Suc f" "2 * length key \<le> f" using rep_leaf.prems(2) by (auto dest: enough_Suc)
  show ?case
  proof (cases "prefix k key \<or> prefix key k")
    case True
    then have "k = key" using rep_leaf.hyps rep_leaf.prems(1) tailkey_prefix_eq by blast
    moreover have "rep load t (LeafNode (dirty n) key v) [key \<mapsto> v]"
      using rep_leaf.prems(1) by (rule rep.rep_leaf)
    ultimately show ?thesis using f(1)
      by (simp add: insertLeafNode_def matchkeyLen_prefix del: fun_upd_apply)
  next
    case False
    then have t: "\<not> t" "hexkey k" "hexkey key"
      using rep_leaf.hyps rep_leaf.prems(1) by (auto simp: tailkey_def split: if_splits)
    obtain p a as b bs where s: "k = p @ a # as" "key = p @ b # bs" "a \<noteq> b"
      "matchkeyLen k key = length p"
      using False by (auto elim: matchkeyLen_split)
    have p: "nibbles p" using t(2) s(1) hexkey_append_nibbles by blast
    have a: "unat a < 17" "tailkey (unat a = 16) as" and b: "hexkey (b # bs)"
      using t(2,3) s(1,2) p by (auto simp: hexkey_append hexkey_Cons_iff)
    have "rep load (unat a = 16) (LeafNode (dirty n) as w) [as \<mapsto> w]" using a(2) by (rule rep.rep_leaf)
    moreover have "[k \<mapsto> w] = mprefix (p @ [a]) [as \<mapsto> w]"
      using mprefix_single [of "p @ [a]" as w] s(1) by simp
    ultimately show ?thesis
      using insert_parts [OF _ a(1) s(2) p b s(3), of _ "[as \<mapsto> w]" f v] f s t a(1)
      by (simp add: insertLeafNode_def setChild_def emptyChildren_def numBranchChildren_def
          del: fun_upd_apply)
  qed
next
  case (rep_ext k "next" m n)
  obtain f where f: "fuel = Suc f" "2 * length key \<le> f" using rep_ext.prems(2) by (auto dest: enough_Suc)
  have hk: "hexkey key" using rep_ext.prems(1) by (simp add: tailkey_def)
  show ?case
  proof (cases "prefix k key")
    case True
    then obtain y where y: "key = k @ y" by (auto simp: prefix_def)
    have "tailkey False y" using hk rep_ext.hyps(2) y by (simp add: tailkey_def hexkey_append)
    moreover have "enough next y f" using f(2) y rep_ext.hyps(1) by (intro enough_next [of key]) auto
    ultimately obtain n' where "trie_insert load f next y v = Inr n'" "rep load False n' (m(y \<mapsto> v))"
      using rep_ext.IH by blast
    then show ?thesis using f(1) y rep_ext.hyps
      by (simp add: insertExtensionNode_def Let_def matchkeyLen_prefix mprefix_upd rep.rep_ext
          del: fun_upd_apply)
  next
    case False
    moreover have "\<not> prefix key k" using hk rep_ext.hyps(2) by (rule hexkey_not_nibbles_prefix)
    ultimately obtain p a as b bs where s: "k = p @ a # as" "key = p @ b # bs" "a \<noteq> b"
      "matchkeyLen k key = length p" by (auto elim: matchkeyLen_split)
    have p: "nibbles p" "unat a < 16" "nibbles as" using rep_ext.hyps(2) s(1) by auto
    have b: "hexkey (b # bs)" using hk s(2) p by (simp add: hexkey_append)
    have old: "rep load (unat a = 16) (if as \<noteq> [] then ExtensionNode (dirty n) as next else next) (mprefix as m)"
      using p rep_ext.hyps(3) by (auto intro: rep.rep_ext)
    have "mprefix k m = mprefix (p @ [a]) (mprefix as m)" by (simp add: s(1) flip: mprefix_append)
    then show ?thesis
      using insert_parts [OF old _ s(2) p(1) b s(3), of f v] f s p(2)
      by (cases "as = []") (simp_all add: insertExtensionNode_def setChild_def emptyChildren_def
          numBranchChildren_def Let_def del: fun_upd_apply)
  qed
next
  case (rep_branch cs ms n)
  obtain f where f: "fuel = Suc f" "2 * length key \<le> f" using rep_branch.prems(2) by (auto dest: enough_Suc)
  obtain k ks where x: "key = k # ks" using rep_branch.prems(1) by (cases key) (auto simp: tailkey_def)
  then have k: "unat k < 17" "tailkey (unat k = 16) ks"
    using rep_branch.prems(1) by (auto simp: tailkey_def [of False] hexkey_Cons_iff)
  have "enough (cs ! unat k) ks f" using f(2) x by (intro enough_next [of key]) auto
  then obtain n' where n': "trie_insert load f (cs ! unat k) ks v = Inr n'"
    "rep load (unat k = 16) n' ((ms (unat k))(ks \<mapsto> v))"
    using rep_branch.IH k by blast
  have "rep load False (BranchNode (dirty n) (cs[unat k := n'])) (mbranch (ms(unat k := (ms (unat k))(ks \<mapsto> v))))"
    using rep_branch.hyps n'(2) k(1) by (intro rep.rep_branch) (auto simp: nth_list_update)
  then show ?case using f(1) x k(1) n'(1) rep_branch.hyps(1)
    by (simp add: mbranch_upd del: fun_upd_apply)
next
  case (rep_hash h n t m)
  then obtain f where f: "fuel = Suc f" by (auto dest: enough_Suc)
  have "enough n key f"
    using enough_loaded [OF rep_hash.hyps(1)] rep_hash.prems(2) f by simp
  then show ?case using rep_hash.IH [OF rep_hash.prems(1)] rep_hash.hyps(1) f by simp
qed

lemma deleteBranchTail_rep:
  assumes cs: "length cs = 17" "\<And>i. i < 17 \<Longrightarrow> rep load (i = 16) (cs ! i) (ms i)"
  shows "\<exists>n'. deleteBranchTail load n cs = DelOk True n' \<and> rep load False n' (mbranch ms)"
proof -
  have whole: "rep load False (BranchNode (dirty n) cs) (mbranch ms)"
    using cs by (rule rep_branch)
  show ?thesis
proof (cases "snd (countChildren cs) = 1")
  case False
  then show ?thesis using whole by (cases "countChildren cs") (simp add: deleteBranchTail_def Let_def)
next
  case True
  then obtain pos where pos: "countChildren cs = (pos, 1)" by (cases "countChildren cs") auto
  note one = countChildren_one [OF pos]
  have lt: "pos < 17" "unat (word_of_nat pos :: byte) = pos"
    using one(1) cs(1) by (simp_all add: unat_byte_of_nat)
  have others: "ms i = (\<lambda>_. None)" if "i < 17" "i \<noteq> pos" for i
    using cs(2) [OF that(1)] one(3) [of i] that cs(1) by simp
  have eq: "mbranch ms = mprefix [word_of_nat pos] (ms pos)"
    using lt others by (auto simp: mprefix_Cons intro!: mbranch_cong)
  define child where "child = (case cs ! pos of HashNode h \<Rightarrow> load h | c \<Rightarrow> Inr c)"
  have "\<exists>c. child = Inr c \<and> rep load (pos = 16) c (ms pos)"
    using cs(2) [OF lt(1)] one(2) by (cases "cs ! pos") (auto simp: child_def rep_Hash_iff)
  then obtain c where c: "child = Inr c" "rep load (pos = 16) c (ms pos)" by blast
  show ?thesis
  proof (cases c)
    case (LeafNode _ k v)
    with c(2) have "tailkey (pos = 16) k" "ms pos = [k \<mapsto> v]" by (auto simp: rep_Leaf_iff)
    then have "rep load False (LeafNode newNode (word_of_nat pos # k) v) (mbranch ms)"
      using rep_leaf [of False "word_of_nat pos # k" load newNode v] lt
        mprefix_single [of "[word_of_nat pos]" k v]
      by (simp add: eq tailkey_def [of False] hexkey_Cons_iff)
    with LeafNode c(1) show ?thesis by (simp add: deleteBranchTail_def Let_def pos child_def [symmetric])
  next
    case (ExtensionNode _ k "next")
    with c(2) obtain m where m: "pos \<noteq> 16" "k \<noteq> []" "nibbles k" "ms pos = mprefix k m" "rep load False next m"
      by (auto simp: rep_Ext_iff)
    then have "rep load False (ExtensionNode newNode (word_of_nat pos # k) next) (mprefix (word_of_nat pos # k) m)"
      using lt by (intro rep_ext) auto
    with ExtensionNode c(1) m(4) show ?thesis
      using mprefix_append [of "[word_of_nat pos]" k m]
      by (simp add: deleteBranchTail_def Let_def pos child_def [symmetric] eq)
  qed (use whole c(1) pos in \<open>simp_all add: deleteBranchTail_def Let_def child_def [symmetric]\<close>)
qed
qed

lemma deleted_leaf:
  assumes "tailkey t k" "delkey t d key" "2 * length key \<le> f"
  shows "deleted load t d key [k \<mapsto> v] (trie_delete load (Suc f) (LeafNode n k v) key d)"
proof (cases "prefix key k")
  case True
  then have "mdrop key [k \<mapsto> v] = (\<lambda>_. None)" by (auto simp: mdrop_def)
  moreover have "\<not> d \<longrightarrow> key = k"
    using True assms(1,2) tailkey_prefix_eq by (auto simp: delkey_def)
  ultimately show ?thesis
    using True by (auto simp: deleted_def matchkeyLen_prefix)
next
  case False
  have "\<not> prefix k key"
  proof (cases d)
    case True
    then show ?thesis
      using assms(1,2) by (simp add: delkey_def tailkey_def hexkey_not_nibbles_prefix)
  next
    case nd: False
    then show ?thesis
      using tailkey_prefix_eq [OF assms(1), of key] assms(2) False by (auto simp: delkey_def)
  qed
  with False show ?thesis
    by (auto simp: deleted_def matchkeyLen_prefix matchkeyLen_prefix2)
qed

lemma deleted_ext:
  assumes hyps: "k \<noteq> []" "nibbles k" "rep load False next m"
    and key: "delkey False d key" "2 * length key \<le> f"
    and IH: "\<And>y. delkey False d y \<Longrightarrow> enough next y f \<Longrightarrow>
      deleted load False d y m (trie_delete load f next y d)"
  shows "deleted load False d key (mprefix k m) (trie_delete load (Suc f) (ExtensionNode n k next) key d)"
proof -
  consider (all) "d" "prefix key k" | (under) y where "key = k @ y" "\<not> (d \<and> prefix key k)"
    | (other) "\<not> prefix key k" "\<not> prefix k key"
  proof (cases "prefix k key"; cases "d \<and> prefix key k")
    assume "\<not> prefix k key" "\<not> (d \<and> prefix key k)"
    moreover have "\<not> d \<longrightarrow> \<not> prefix key k"
      using key(1) hyps(2) hexkey_not_nibbles_prefix [of key k]
      by (auto simp: delkey_def tailkey_def split: if_splits)
    ultimately show thesis using other by blast
  qed (use all under in \<open>auto simp: prefix_def [of k]\<close>)
  then show ?thesis
  proof cases
    case all
    then have "trie_delete load (Suc f) (ExtensionNode n k next) key d = DelOk True NilNode"
      by (simp add: matchkeyLen_prefix)
    with all show ?thesis by (auto simp: mdrop_mprefix_all intro: deleted_matchI)
  next
    case under
    have "delkey False d y"
      using key(1) under hyps(2) by (auto simp: delkey_def tailkey_def hexkey_append)
    moreover have "enough next y f" using key(2) under(1) hyps(1) by (intro enough_next [of key]) auto
    ultimately have "deleted load False d y m (trie_delete load f next y d)" by (rule IH)
    then show ?thesis
    proof (cases rule: deletedE)
      case (1 n')
      have "trie_delete load (Suc f) (ExtensionNode n k next) key d
          = DelOk True (if n' = NilNode then NilNode else ExtensionNode (dirty n) k n')"
        using 1(1) under by (simp add: Let_def matchkeyLen_prefix)
      moreover have "rep load False (if n' = NilNode then NilNode else ExtensionNode (dirty n) k n')
          (mdrop key (mprefix k m))"
        using 1(2) hyps(1,2) under(1) by (auto simp: mdrop_mprefix intro: rep_ext)
      ultimately show ?thesis using 1(3) under(1) by (auto intro: deleted_matchI)
    next
      case (2 n')
      have "trie_delete load (Suc f) (ExtensionNode n k next) key d = DelOk False (ExtensionNode n k next)"
        using 2(1) under by (simp add: Let_def matchkeyLen_prefix)
      moreover have "mprefix k m x = None" if "prefix key x" for x
        using that 2(2) under(1) by (auto simp: prefix_def)
      ultimately show ?thesis by (auto intro: deleted_nomatchI)
    qed
  next
    case other
    then have "trie_delete load (Suc f) (ExtensionNode n k next) key d = DelOk False (ExtensionNode n k next)"
      by (simp add: Let_def matchkeyLen_prefix matchkeyLen_prefix2)
    with other show ?thesis by (auto intro: deleted_nomatchI mdrop_mprefix_other)
  qed
qed

lemma deleted_branch:
  assumes hyps: "length cs = 17" "\<And>i. i < 17 \<Longrightarrow> rep load (i = 16) (cs ! i) (ms i)"
    and key: "delkey False d key" "2 * length key \<le> f"
    and IH: "\<And>i y. i < 17 \<Longrightarrow> delkey (i = 16) d y \<Longrightarrow> enough (cs ! i) y f \<Longrightarrow>
      deleted load (i = 16) d y (ms i) (trie_delete load f (cs ! i) y d)"
  shows "deleted load False d key (mbranch ms) (trie_delete load (Suc f) (BranchNode n cs) key d)"
proof -
  obtain k ks where ks: "key = k # ks" using key(1)
    by (cases key) (auto simp: delkey_def tailkey_def split: if_splits)
  then have k: "unat k < 17" using key(1)
    by (auto simp: delkey_def tailkey_def hexkey_Cons_iff split: if_splits)
  have tail: "\<exists>n'. deleteBranchTail load n (cs[unat k := c]) = DelOk True n'
      \<and> rep load False n' (mdrop key (mbranch ms))"
    if "rep load (unat k = 16) c (mdrop ks (ms (unat k)))" for c
    using deleteBranchTail_rep [of "cs[unat k := c]" "ms(unat k := mdrop ks (ms (unat k)))" n] that hyps k ks
    by (auto simp: mdrop_mbranch nth_list_update)
  have none: "mbranch ms x = None" if "prefix key x" "\<forall>x. prefix ks x \<longrightarrow> ms (unat k) x = None" for x
    using that ks k by (auto simp: prefix_def)
  show ?thesis
  proof (cases "d \<and> ks = []")
    case True
    show ?thesis
    proof (cases "cs ! unat k = NilNode")
      case nil: True
      then have "ms (unat k) = (\<lambda>_. None)" using hyps(2) [OF k] by simp
      then show ?thesis using True nil ks k hyps(1) none by (auto simp: deleted_def)
    next
      case False
      with tail [of NilNode] True ks k hyps(1) show ?thesis by (auto simp: deleted_def)
    qed
  next
    case False
    have "delkey (unat k = 16) d ks"
      using key(1) ks False by (auto simp: delkey_def tailkey_def [of False] hexkey_Cons_iff split: if_splits)
    moreover have "enough (cs ! unat k) ks f" using key(2) ks by (intro enough_next [of key]) auto
    ultimately have "deleted load (unat k = 16) d ks (ms (unat k)) (trie_delete load f (cs ! unat k) ks d)"
      by (rule IH [OF k])
    then show ?thesis
    proof (cases rule: deletedE)
      case (1 n')
      obtain n'' where "deleteBranchTail load n (cs[unat k := n']) = DelOk True n''"
        "rep load False n'' (mdrop key (mbranch ms))" using tail [OF 1(2)] by blast
      then show ?thesis using 1(1,3) False ks k hyps(1) by (auto intro: deleted_matchI)
    next
      case (2 n')
      then show ?thesis using False ks k hyps(1) none by (auto intro: deleted_nomatchI)
    qed
  qed
qed

lemma delete_rep:
  "rep load t n m \<Longrightarrow> delkey t d key \<Longrightarrow> enough n key fuel \<Longrightarrow>
     deleted load t d key m (trie_delete load fuel n key d)"
proof (induction arbitrary: key fuel rule: rep.induct)
  case (rep_nil t)
  then obtain f where "fuel = Suc f" by (auto dest: enough_Suc)
  then show ?case by (auto intro: deleted_nomatchI)
next
  case (rep_leaf t k n v)
  obtain f where "fuel = Suc f" "2 * length key \<le> f" using rep_leaf.prems(2) by (auto dest: enough_Suc)
  then show ?case using deleted_leaf [OF rep_leaf.hyps rep_leaf.prems(1)] by blast
next
  case (rep_ext k "next" m n)
  obtain f where "fuel = Suc f" "2 * length key \<le> f" using rep_ext.prems(2) by (auto dest: enough_Suc)
  then show ?case using deleted_ext [OF rep_ext.hyps rep_ext.prems(1) _ rep_ext.IH] by blast
next
  case (rep_branch cs ms n)
  obtain f where "fuel = Suc f" "2 * length key \<le> f" using rep_branch.prems(2) by (auto dest: enough_Suc)
  then show ?case using deleted_branch [OF rep_branch.hyps rep_branch.prems(1) _ rep_branch.IH] by blast
next
  case (rep_hash h n t m)
  then obtain f where f: "fuel = Suc f" by (auto dest: enough_Suc)
  have "enough n key f"
    using enough_loaded [OF rep_hash.hyps(1)] rep_hash.prems(2) f by simp
  with rep_hash.prems(1) have "deleted load t d key m (trie_delete load f n key d)" by (rule rep_hash.IH)
  then show ?case using rep_hash.hyps(1) f
    by (cases rule: deletedE) (auto intro: deleted_matchI deleted_nomatchI)
qed

end

section \<open>The trie over its database\<close>

lemma decodeNode_loadable: "decodeNode h val = Inr n \<Longrightarrow> loadable n"
  by (auto simp: decodeNode_def decodeBranchNode_def decodeLeafNode_def decodeExtensionNode_def
      split: if_splits sum.splits)

lemma loadNode_loadable: "loadNode db pfx h = Inr n \<Longrightarrow> loadable n"
  by (auto simp: loadNode_def decodeNode_loadable split: option.splits if_splits)

interpretation db_nodes: node_store "loadNode db pfx" for db pfx
  by unfold_locales (rule loadNode_loadable)

interpretation trie_nodes: node_store "t_load t" for t
  unfolding t_load_def by unfold_locales (rule loadNode_loadable)

text \<open>\<open>holds t M\<close>: the trie \<open>t\<close> stores exactly the entries of \<open>M\<close>, byte keys to values.\<close>

definition holds :: "trie \<Rightarrow> (bytes \<rightharpoonup> bytes) \<Rightarrow> bool" where
  "holds t M \<longleftrightarrow> (\<exists>m. rep (t_load t) False (t_root t) m \<and> M = m \<circ> keybytesToHex)"

lemma t_load_root [simp]: "t_load (t\<lparr>t_root := n\<rparr>) = t_load t"
  by (simp add: t_load_def)

lemma tailkey_hex [simp]: "tailkey False (keybytesToHex k)"
  by (simp add: tailkey_def)

lemma holds_empty: "holds (NewEmptyTrie pfx db) (\<lambda>_. None)"
  by (auto simp: holds_def NewEmptyTrie_def)

lemma trie_Put_holds:
  assumes "holds t M"
  shows "\<exists>t'. trie_Put t k v = (t', None) \<and> holds t' (M(k \<mapsto> v))"
proof -
  from assms obtain m where m: "rep (t_load t) False (t_root t) m" "M = m \<circ> keybytesToHex"
    by (auto simp: holds_def)
  obtain n' where n': "trie_insert (t_load t) (key_fuel (keybytesToHex k)) (t_root t) (keybytesToHex k) v
      = Inr n'" "rep (t_load t) False n' (m(keybytesToHex k \<mapsto> v))"
    using trie_nodes.insert_rep [OF m(1) tailkey_hex enough_key_fuel] by blast
  have "M(k \<mapsto> v) = m(keybytesToHex k \<mapsto> v) \<circ> keybytesToHex"
    by (rule ext) (simp add: m(2) keybytesToHex_inj)
  with n' show ?thesis by (auto simp: trie_Put_def holds_def Let_def)
qed

lemma trie_Get_holds:
  assumes "holds t M"
  shows "\<exists>t'. trie_Get t k = (t', M k, None) \<and> holds t' M"
proof (cases "t_root t = NilNode")
  case True
  with assms show ?thesis by (auto simp: trie_Get_def holds_def)
next
  case False
  from assms obtain m where m: "rep (t_load t) False (t_root t) m" "M = m \<circ> keybytesToHex"
    by (auto simp: holds_def)
  obtain n' where n': "trie_get (t_load t) (key_fuel (keybytesToHex k)) (t_root t) (keybytesToHex k) 0
      = (M k, n', None)" "rep (t_load t) False n' m"
    using trie_nodes.get_rep [OF m(1), of 0 "keybytesToHex k" "key_fuel (keybytesToHex k)"]
    by (auto simp: m(2) enough_key_fuel)
  show ?thesis
    by (cases "t_root t") (use False n' assms m(2) in \<open>auto simp: trie_Get_def holds_def Let_def\<close>)
qed

lemma runDelete_holds:
  assumes "rep (t_load t) False (t_root t) m" "delkey False d key"
  shows "\<exists>t' b. runDelete t key d = (t', b, None)
    \<and> rep (t_load t') False (t_root t') (mdrop key m)
    \<and> (\<not> b \<longrightarrow> (\<forall>x. prefix key x \<longrightarrow> m x = None)) \<and> (b \<longrightarrow> \<not> d \<longrightarrow> m key \<noteq> None)"
  using trie_nodes.delete_rep [OF assms enough_key_fuel]
proof (cases rule: deletedE)
  case (2 n')
  then have "mdrop key m = m" by (intro mdrop_no_key)
  with 2 assms(1) show ?thesis by (auto simp: runDelete_def)
qed (auto simp: runDelete_def)

lemma trie_Delete_holds:
  assumes "holds t M"
  shows "\<exists>t'. trie_Delete t k = (t', M k \<noteq> None, None) \<and> holds t' (M(k := None))"
proof (cases "t_root t = NilNode")
  case True
  with assms show ?thesis by (auto simp: trie_Delete_def holds_def fun_eq_iff)
next
  case False
  from assms obtain m where m: "rep (t_load t) False (t_root t) m" "M = m \<circ> keybytesToHex"
    by (auto simp: holds_def)
  obtain t' b where t': "runDelete t (keybytesToHex k) False = (t', b, None)"
    "rep (t_load t') False (t_root t') (mdrop (keybytesToHex k) m)"
    "\<not> b \<longrightarrow> (\<forall>x. prefix (keybytesToHex k) x \<longrightarrow> m x = None)" "b \<longrightarrow> m (keybytesToHex k) \<noteq> None"
    using runDelete_holds [OF m(1), of False "keybytesToHex k"] by (auto simp: delkey_def)
  have "b \<longleftrightarrow> M k \<noteq> None" using t'(3,4) m(2) by auto
  moreover have "mdrop (keybytesToHex k) m \<circ> keybytesToHex = M(k := None)"
    using rep_mdrop_key [OF m(1) tailkey_hex] m(2) by (auto simp: fun_eq_iff keybytesToHex_inj)
  ultimately show ?thesis using t'(1,2) False by (auto simp: trie_Delete_def holds_def)
qed

lemma trie_DeletePrefix_holds:
  assumes "holds t M" "pre \<noteq> []"
  shows "\<exists>t' b. trie_DeletePrefix t pre = (t', b, None)
    \<and> holds t' (\<lambda>k. if prefix pre k then None else M k)
    \<and> (\<not> b \<longrightarrow> (\<forall>k. prefix pre k \<longrightarrow> M k = None))"
proof (cases "t_root t = NilNode")
  case True
  with assms show ?thesis by (auto simp: trie_DeletePrefix_def holds_def fun_eq_iff)
next
  case False
  let ?key = "butlast (keybytesToHex pre)"
  from assms obtain m where m: "rep (t_load t) False (t_root t) m" "M = m \<circ> keybytesToHex"
    by (auto simp: holds_def)
  have "?key \<noteq> []" using assms(2) by (cases pre) (auto simp: keybytesToHex_def)
  then obtain t' b where t': "runDelete t ?key True = (t', b, None)"
    "rep (t_load t') False (t_root t') (mdrop ?key m)"
    "\<not> b \<longrightarrow> (\<forall>x. prefix ?key x \<longrightarrow> m x = None)"
    using runDelete_holds [OF m(1), of True ?key] by (auto simp: delkey_def)
  have "mdrop ?key m \<circ> keybytesToHex = (\<lambda>k. if prefix pre k then None else M k)"
    by (auto simp: fun_eq_iff mdrop_def prefix_keybytesToHex m(2))
  then show ?thesis using t' False assms(2) m(2)
    by (auto simp: trie_DeletePrefix_def holds_def prefix_keybytesToHex)
qed

end
