(* ===== verification/Trie_Hash.thy ===== *)
theory Trie_Hash
  imports Trie_Map
begin

text \<open>
  Hashing, committing and reloading. The hash function is a parameter \<open>sha\<close> (the source uses
  Keccak-256); what is assumed of it is its output length, and that no two of the encodings
  at hand collide. \<open>node_ok\<close> is the invariant that ties the cached hash and status of every
  node to its contents and to the database. Every operation keeps it, and a committed trie
  reopened from the database by its root hash holds the same entries.
\<close>

section \<open>Encoded nodes decode to themselves\<close>

text \<open>A bound on the length of keys and values, far above what a Go slice can hold in memory.\<close>

definition lim :: nat where
  "lim = 2 ^ 60"

lemma map_le_SomeD: "m \<subseteq>\<^sub>m m' \<Longrightarrow> m k = Some v \<Longrightarrow> m' k = Some v"
  by (metis domI map_le_def)

lemma ref_string_length: "length b < lim \<Longrightarrow> length (ref_string b) \<le> length b + 9"
  using length_putint_bounds [of "length b"] by (auto simp: ref_string_def puthead_def lim_def)

lemma encodeLeaf_eq:
  assumes "length k < lim" "length v < lim"
  shows "encodeLeaf k v = ref_list (ref_string k @ ref_string v)"
    and "length (ref_string k @ ref_string v) < 2 ^ 64"
proof -
  show c: "length (ref_string k @ ref_string v) < 2 ^ 64"
    using assms ref_string_length [of k] ref_string_length [of v] by (simp add: lim_def)
  have "length (ref_list (ref_string k @ ref_string v)) < 2 ^ 64"
    using assms ref_string_length [of k] ref_string_length [of v]
      length_putint_bounds [OF c] by (simp add: ref_list_def puthead_def lim_def)
  then show "encodeLeaf k v = ref_list (ref_string k @ ref_string v)"
    by (simp add: encodeLeaf_def rlp_Encode_ref)
qed

lemma decodeNode_encodeLeaf:
  assumes "length k < lim" "length v < lim"
  shows "decodeNode h (encodeLeaf k v) = Inr (LeafNode (newPersistedNode h) k v)"
proof -
  note e = encodeLeaf_eq [OF assms]
  have l: "length k < 2 ^ 64" "length v < 2 ^ 64" using assms by (simp_all add: lim_def)
  show ?thesis
    unfolding decodeNode_def e(1)
    using rlp_SplitList_ref [OF e(2), of "[]"] rlp_CountValues_string [OF l(1), of "ref_string v"]
      rlp_CountValues_string [OF l(2), of "[]"] rlp_SplitString_ref [OF l(1), of "ref_string v"]
      rlp_SplitString_ref [OF l(2), of "[]"]
    by (simp add: decodeLeafNode_def)
qed

lemma rlp_ref_True: "rlp_ref (RlpBool True) = ref_string [1]"
  by (simp add: ref_string_def)

lemma encodeExtension_eq:
  assumes "length k < lim" "length v < lim"
  shows "encodeExtension k v = ref_list (ref_string [1] @ ref_string k @ ref_string v)"
    and "length (ref_string [1] @ ref_string k @ ref_string v) < 2 ^ 64"
proof -
  have one: "length (ref_string [1]) = 1" by (simp add: ref_string_def)
  show c: "length (ref_string [1] @ ref_string k @ ref_string v) < 2 ^ 64"
    using assms ref_string_length [of k] ref_string_length [of v] one by (simp add: lim_def)
  have "length (ref_list (ref_string [1] @ ref_string k @ ref_string v)) < 2 ^ 64"
    using assms ref_string_length [of k] ref_string_length [of v] one
      length_putint_bounds [OF c] by (simp add: ref_list_def puthead_def lim_def)
  then show "encodeExtension k v = ref_list (ref_string [1] @ ref_string k @ ref_string v)"
    using rlp_ref_True by (simp add: encodeExtension_def rlp_Encode_ref)
qed

lemma decodeNode_encodeExtension:
  assumes "length k < lim" "length v < lim"
  shows "decodeNode h (encodeExtension k v) = Inr (ExtensionNode (newPersistedNode h) k (HashNode v))"
proof -
  note e = encodeExtension_eq [OF assms]
  have l: "length k < 2 ^ 64" "length v < 2 ^ 64" "length [1 :: byte] < 2 ^ 64" using assms by (simp_all add: lim_def)
  show ?thesis
    unfolding decodeNode_def e(1)
    using rlp_SplitList_ref [OF e(2), of "[]"]
      rlp_CountValues_string [OF l(3), of "ref_string k @ ref_string v"]
      rlp_CountValues_string [OF l(1), of "ref_string v"] rlp_CountValues_string [OF l(2), of "[]"]
      rlp_SplitString_ref [OF l(3), of "ref_string k @ ref_string v"]
      rlp_SplitString_ref [OF l(1), of "ref_string v"] rlp_SplitString_ref [OF l(2), of "[]"]
    by (simp add: decodeExtensionNode_def)
qed

section \<open>Branch nodes\<close>

definition hash_or_nil :: "bytes \<Rightarrow> bool" where
  "hash_or_nil h \<longleftrightarrow> h = [] \<or> length h = HashLength"

definition stub :: "bytes \<Rightarrow> noder" where
  "stub h = (if h = [] then NilNode else HashNode h)"

lemma hash_or_nil_split:
  "hash_or_nil h \<Longrightarrow> rlp_Split (ref_string h @ r) = Inr (KString, h, r)"
  using rlp_Split_ref_string [of h r] by (auto simp: hash_or_nil_def HashLength_def)

lemma decodeChildren_ref:
  "list_all hash_or_nil hs \<Longrightarrow>
     decodeChildren (length hs) (concat (map ref_string hs)) = Inr (map stub hs)"
  by (induction hs) (auto simp: hash_or_nil_split stub_def hash_or_nil_def HashLength_def)

lemma CountValues_hashes:
  "list_all hash_or_nil hs \<Longrightarrow> rlp_CountValues (concat (map ref_string hs)) = Inr (length hs)"
proof (induction hs)
  case (Cons h hs)
  then have "length h < 2 ^ 64" by (auto simp: hash_or_nil_def HashLength_def)
  with Cons show ?case using rlp_CountValues_string [of h "concat (map ref_string hs)"] by simp
qed simp

lemma concat_ref_length:
  "list_all hash_or_nil hs \<Longrightarrow> length (concat (map ref_string hs)) \<le> 41 * length hs"
proof (induction hs)
  case (Cons h hs)
  then have "length h \<le> 32" by (auto simp: hash_or_nil_def HashLength_def)
  then have "length (ref_string h) \<le> 41" using ref_string_length [of h] by (simp add: lim_def)
  with Cons show ?case by simp
qed simp

lemma encodeBranch_eq:
  assumes "list_all hash_or_nil hs" "length hs = 17"
  shows "encodeBranch hs = ref_list (ref_list (concat (map ref_string hs)))"
    and "length (concat (map ref_string hs)) < 2 ^ 64"
    and "length (ref_list (concat (map ref_string hs))) < 2 ^ 64"
proof -
  let ?c = "concat (map ref_string hs)"
  have l: "length ?c \<le> 697" using concat_ref_length [OF assms(1)] assms(2) by simp
  then show c: "length ?c < 2 ^ 64" by simp
  have l2: "length (ref_list ?c) \<le> 706"
    using l length_putint_bounds [OF c] by (simp add: ref_list_def puthead_def)
  then show c2: "length (ref_list ?c) < 2 ^ 64" by simp
  have "length (ref_list (ref_list ?c)) < 2 ^ 64"
    using l2 length_putint_bounds [OF c2] by (simp add: ref_list_def [of "ref_list ?c"] puthead_def)
  then show "encodeBranch hs = ref_list (ref_list ?c)"
    by (simp add: encodeBranch_def rlp_Encode_ref comp_def)
qed

lemma decodeNode_encodeBranch:
  assumes "list_all hash_or_nil hs" "length hs = 17"
  shows "decodeNode h (encodeBranch hs) = Inr (BranchNode (newPersistedNode h) (map stub hs))"
proof -
  note e = encodeBranch_eq [OF assms]
  show ?thesis
    unfolding decodeNode_def e(1)
    using rlp_SplitList_ref [OF e(3), of "[]"] rlp_CountValues_list [OF e(2), of "[]"]
      rlp_Split_ref_list [OF e(2), of "[]"] CountValues_hashes [OF assms(1)]
      decodeChildren_ref [OF assms(1)] assms(2)
    by (simp add: decodeBranchNode_def numBranchChildren_def)
qed

section \<open>Consistency of cached hashes\<close>

fun node_enc :: "noder \<Rightarrow> bytes" where
  "node_enc (LeafNode n k v) = encodeLeaf k v"
| "node_enc (ExtensionNode n k next) = encodeExtension k (node_Hash next)"
| "node_enc (BranchNode n cs) = encodeBranch (map node_Hash cs)"
| "node_enc _ = []"

definition hdr_ok :: "(bytes \<Rightarrow> bytes) \<Rightarrow> trie_db \<Rightarrow> bytes \<Rightarrow> node_hdr \<Rightarrow> bytes \<Rightarrow> bool" where
  "hdr_ok sha db pfx n enc \<longleftrightarrow>
     hash_or_nil (nd_hash n)
     \<and> (nd_status n \<noteq> StatusDirty \<longrightarrow> nd_hash n = sha enc)
     \<and> (nd_status n = StatusPersisted \<longrightarrow> db (pfx @ nd_hash n) = Some enc)"

definition status_le :: "node_hdr \<Rightarrow> noder \<Rightarrow> bool" where
  "status_le n child \<longleftrightarrow>
     (nd_status n \<noteq> StatusDirty \<longrightarrow> node_Status child \<noteq> StatusDirty)
     \<and> (nd_status n = StatusPersisted \<longrightarrow> node_Status child = StatusPersisted)"

fun node_ok :: "(bytes \<Rightarrow> bytes) \<Rightarrow> trie_db \<Rightarrow> bytes \<Rightarrow> noder \<Rightarrow> bool" where
  "node_ok sha db pfx NilNode \<longleftrightarrow> True"
| "node_ok sha db pfx (HashNode h) \<longleftrightarrow> length h = HashLength"
| "node_ok sha db pfx (LeafNode n k v) \<longleftrightarrow>
     hdr_ok sha db pfx n (encodeLeaf k v)"
| "node_ok sha db pfx (ExtensionNode n k next) \<longleftrightarrow>
     next \<noteq> NilNode \<and> node_ok sha db pfx next \<and> status_le n next
     \<and> hdr_ok sha db pfx n (encodeExtension k (node_Hash next))"
| "node_ok sha db pfx (BranchNode n cs) \<longleftrightarrow>
     length cs = 17 \<and> list_all (node_ok sha db pfx) cs \<and> list_all (status_le n) cs
     \<and> hdr_ok sha db pfx n (encodeBranch (map node_Hash cs))"

text \<open>Keys and values short enough for an RLP length header.\<close>

fun sized :: "noder \<Rightarrow> bool" where
  "sized (LeafNode n k v) \<longleftrightarrow> length k < lim \<and> length v < lim"
| "sized (ExtensionNode n k next) \<longleftrightarrow> length k < lim \<and> sized next"
| "sized (BranchNode n cs) \<longleftrightarrow> list_all sized cs"
| "sized _ \<longleftrightarrow> True"

text \<open>Every node entry of the database is stored under the hash of its own encoding.\<close>

definition db_ok :: "(bytes \<Rightarrow> bytes) \<Rightarrow> trie_db \<Rightarrow> bytes \<Rightarrow> bool" where
  "db_ok sha db pfx \<longleftrightarrow>
     (\<forall>h v. length h = HashLength \<longrightarrow> db (pfx @ h) = Some v \<longrightarrow>
        sha v = h \<and> (\<exists>n. decodeNode h v = Inr n \<and> node_ok sha db pfx n \<and> sized n))"

lemma HashLength_pos [simp]: "0 < HashLength" "HashLength \<noteq> 0"
  by (simp_all add: HashLength_def)

lemma hdr_ok_mono:
  "hdr_ok sha db pfx n enc \<Longrightarrow> db \<subseteq>\<^sub>m db' \<Longrightarrow> hdr_ok sha db' pfx n enc"
  by (auto simp: hdr_ok_def dest: map_le_SomeD)

lemma node_ok_mono: "node_ok sha db pfx n \<Longrightarrow> db \<subseteq>\<^sub>m db' \<Longrightarrow> node_ok sha db' pfx n"
proof (induction n)
  case (BranchNode n cs)
  then have "\<forall>c \<in> set cs. node_ok sha db' pfx c" by (simp add: list_all_iff)
  with BranchNode.prems show ?case by (auto simp: list_all_iff intro: hdr_ok_mono)
qed (auto intro: hdr_ok_mono)

lemma hash_or_nil_node:
  "node_ok sha db pfx n \<Longrightarrow> hash_or_nil (node_Hash n)"
  by (cases n) (auto simp: hdr_ok_def hash_or_nil_def)

lemma node_Hash_length:
  "node_ok sha db pfx n \<Longrightarrow> node_Status n \<noteq> StatusDirty \<Longrightarrow> n \<noteq> NilNode \<Longrightarrow>
     (\<And>x. length (sha x) = HashLength) \<Longrightarrow> length (node_Hash n) = HashLength"
  by (cases n) (auto simp: hdr_ok_def)

lemma children_hash_or_nil:
  "list_all (node_ok sha db pfx) cs \<Longrightarrow> list_all hash_or_nil (map node_Hash cs)"
  by (auto simp: list_all_iff intro: hash_or_nil_node)

text \<open>A node, its children replaced by their hashes: what the database holds of it.\<close>

fun shallow :: "noder \<Rightarrow> noder" where
  "shallow (LeafNode n k v) = LeafNode (newPersistedNode (nd_hash n)) k v"
| "shallow (ExtensionNode n k next) =
     ExtensionNode (newPersistedNode (nd_hash n)) k (HashNode (node_Hash next))"
| "shallow (BranchNode n cs) =
     BranchNode (newPersistedNode (nd_hash n)) (map (\<lambda>c. stub (node_Hash c)) cs)"
| "shallow n = n"

lemma lim_HashLength: "length h = HashLength \<Longrightarrow> length h < lim"
  by (simp add: HashLength_def lim_def)

lemma hash_or_nil_lim: "hash_or_nil h \<Longrightarrow> length h < lim"
  by (auto simp: hash_or_nil_def HashLength_def lim_def)

lemma decodeNode_enc:
  "node_ok sha db pfx n \<Longrightarrow> sized n \<Longrightarrow> loadable n \<Longrightarrow>
     decodeNode (node_Hash n) (node_enc n) = Inr (shallow n)"
  by (cases n)
    (auto simp: decodeNode_encodeLeaf decodeNode_encodeExtension decodeNode_encodeBranch
      hash_or_nil_lim hash_or_nil_node children_hash_or_nil comp_def)

lemma node_Hash_stub [simp]: "node_Hash (stub h) = h"
  by (simp add: stub_def)

lemma node_ok_shallow:
  assumes n: "node_ok sha db pfx n" "loadable n" "node_Status n = StatusPersisted"
    and sha: "\<And>x. length (sha x) = HashLength"
  shows "node_ok sha db pfx (shallow n)"
proof (cases n)
  case (LeafNode hd k v)
  then show ?thesis using n by (auto simp: hdr_ok_def newPersistedNode_def)
next
  case (ExtensionNode hd k "next")
  then have "length (node_Hash next) = HashLength"
    using n sha by (auto simp: status_le_def intro: node_Hash_length)
  with ExtensionNode show ?thesis
    using n by (auto simp: hdr_ok_def newPersistedNode_def status_le_def)
next
  case (BranchNode hd cs)
  have ok: "node_ok sha db pfx (stub h)" if "hash_or_nil h" for h
    using that by (auto simp: stub_def hash_or_nil_def)
  have st: "status_le n' (stub h)" for n' h
    by (simp add: stub_def status_le_def)
  have "list_all (\<lambda>c. node_ok sha db pfx (stub (node_Hash c))) cs"
    using n(1) BranchNode by (auto simp: list_all_iff intro!: ok intro: hash_or_nil_node)
  moreover have "hdr_ok sha db pfx (newPersistedNode (nd_hash hd)) (encodeBranch (map node_Hash cs))"
    using n(1,3) BranchNode by (auto simp: hdr_ok_def newPersistedNode_def)
  moreover have "length cs = 17" using n(1) BranchNode by simp
  ultimately show ?thesis
    using st by (simp add: BranchNode list.pred_map comp_def list_all_iff)
qed (use n in auto)

lemma hdr_persisted:
  "node_ok sha db pfx n \<Longrightarrow> loadable n \<Longrightarrow> node_Status n = StatusPersisted \<Longrightarrow>
     db (pfx @ node_Hash n) = Some (node_enc n) \<and> node_Hash n = sha (node_enc n)"
  by (cases n) (auto simp: hdr_ok_def)

text \<open>Encodings are not empty, so loading reaches the decoder.\<close>

lemma decodeNode_Inr_nonempty: "decodeNode h v = Inr n \<Longrightarrow> v \<noteq> []"
  by (auto simp: decodeNode_def)

lemma loadNode_persisted:
  "node_ok sha db pfx n \<Longrightarrow> sized n \<Longrightarrow> loadable n \<Longrightarrow> node_Status n = StatusPersisted \<Longrightarrow>
     loadNode db pfx (node_Hash n) = Inr (shallow n)"
  using hdr_persisted [of sha db pfx n] decodeNode_enc [of sha db pfx n] decodeNode_Inr_nonempty
  by (fastforce simp: loadNode_def)

text \<open>Nodes loaded from a sound database are consistent.\<close>

lemma loadNode_ok:
  assumes "db_ok sha db pfx" "length h = HashLength" "loadNode db pfx h = Inr n"
  shows "node_ok sha db pfx n"
proof -
  obtain v where v: "db (pfx @ h) = Some v" "decodeNode h v = Inr n"
    using assms(3) by (auto simp: loadNode_def split: option.splits if_splits)
  then obtain n' where "decodeNode h v = Inr n'" "node_ok sha db pfx n'"
    using assms(1,2) unfolding db_ok_def by blast
  with v show ?thesis by simp
qed

lemma loadNode_sized:
  assumes "db_ok sha db pfx" "length h = HashLength" "loadNode db pfx h = Inr n"
  shows "sized n"
proof -
  obtain v where v: "db (pfx @ h) = Some v" "decodeNode h v = Inr n"
    using assms(3) by (auto simp: loadNode_def split: option.splits if_splits)
  then obtain n' where "decodeNode h v = Inr n'" "sized n'"
    using assms(1,2) unfolding db_ok_def by blast
  with v show ?thesis by simp
qed

section \<open>Hashing a node\<close>

lemma SetHash_ok:
  "hash_or_nil (nd_hash n) \<Longrightarrow> length h = HashLength \<Longrightarrow> SetHash h n = n\<lparr>nd_hash := h\<rparr>"
  by (auto simp: SetHash_def hash_or_nil_def Let_def)

lemma finishHash_ok:
  assumes "hdr_ok sha db pfx n enc" "\<And>x. length (sha x) = HashLength"
  shows "finishHash sha None n enc =
      (n\<lparr>nd_hash := if nd_status n = StatusDirty then sha enc else nd_hash n,
         nd_status := if nd_status n = StatusDirty then StatusUpdated else nd_status n\<rparr>, [])"
    and "finishHash sha (Some pfx) n enc =
      (n\<lparr>nd_hash := sha enc, nd_status := StatusPersisted\<rparr>, [(pfx @ sha enc, enc)])"
proof -
  show "finishHash sha None n enc =
      (n\<lparr>nd_hash := if nd_status n = StatusDirty then sha enc else nd_hash n,
         nd_status := if nd_status n = StatusDirty then StatusUpdated else nd_status n\<rparr>, [])"
    using assms by (cases n) (auto simp: finishHash_def hdr_ok_def SetHash_ok SetStatus_def)
  show "finishHash sha (Some pfx) n enc =
      (n\<lparr>nd_hash := sha enc, nd_status := StatusPersisted\<rparr>, [(pfx @ sha enc, enc)])"
    using assms by (cases n) (auto simp: finishHash_def hdr_ok_def SetHash_ok SetStatus_def)
qed

text \<open>The node after hashing, and the batch writes.\<close>

abbreviation hashed :: "(bytes \<Rightarrow> bytes) \<Rightarrow> bytes option \<Rightarrow> noder \<Rightarrow> noder" where
  "hashed sha b n \<equiv> fst (snd (nodeHash sha b n))"

abbreviation puts :: "(bytes \<Rightarrow> bytes) \<Rightarrow> bytes option \<Rightarrow> noder \<Rightarrow> (bytes \<times> bytes) list" where
  "puts sha b n \<equiv> snd (snd (nodeHash sha b n))"

lemma nodeHash_fst: "fst (nodeHash sha b n) = node_Hash (hashed sha b n)"
  by (cases n) (auto split: prod.splits)

lemma nodeHash_nil_iff [simp]: "hashed sha b n = NilNode \<longleftrightarrow> n = NilNode"
  by (cases n) (auto split: prod.splits)

lemma nodeHash_loadable [simp]: "loadable (hashed sha b n) \<longleftrightarrow> loadable n"
  by (cases n) (auto split: prod.splits)

text \<open>Only headers change, so the represented map does not.\<close>

lemma rep_hashed: "rep load t n m \<Longrightarrow> rep load t (hashed sha b n) m"
proof (induction rule: rep.induct)
  case (rep_branch cs ms n)
  then show ?case by (auto split: prod.splits intro!: rep.rep_branch)
qed (auto split: prod.splits simp del: fun_upd_apply intro: rep.intros)

text \<open>A database that has taken the batch.\<close>

definition apply_puts :: "trie_db \<Rightarrow> (bytes \<times> bytes) list \<Rightarrow> trie_db" where
  "apply_puts db ps = fold (\<lambda>(k, v) d. d(k \<mapsto> v)) ps db"

definition puts_in :: "(bytes \<times> bytes) list \<Rightarrow> trie_db \<Rightarrow> bool" where
  "puts_in ps db \<longleftrightarrow> (\<forall>(k, v) \<in> set ps. db k = Some v)"

lemma puts_in_append [simp]: "puts_in (ps @ qs) db \<longleftrightarrow> puts_in ps db \<and> puts_in qs db"
  by (auto simp: puts_in_def)

lemma puts_in_concat: "puts_in (concat pss) db \<longleftrightarrow> (\<forall>ps \<in> set pss. puts_in ps db)"
  by (auto simp: puts_in_def)

lemma hashKnown_batch:
  "hashKnown (Some pfx) n \<longleftrightarrow> nd_status n = StatusPersisted"
  "hashKnown None n \<longleftrightarrow> nd_status n \<noteq> StatusDirty"
  by (cases "nd_status n"; simp add: hashKnown_def)+

lemma hashed_stable: "node_Status n \<noteq> StatusDirty \<Longrightarrow> node_Hash (hashed sha b n) = node_Hash n"
  by (cases n) (auto simp: finishHash_def SetStatus_def split: prod.splits option.splits)

text \<open>The header stays consistent when the encoding uses the children's refreshed hashes.\<close>

lemma hdr_ok_refresh_ext:
  assumes "node_ok sha db pfx (ExtensionNode n k next)" "nd_status n \<noteq> StatusPersisted"
  shows "hdr_ok sha db pfx n (encodeExtension k (node_Hash (hashed sha b next)))"
proof (cases "nd_status n")
  case StatusUpdated
  then have "node_Hash (hashed sha b next) = node_Hash next"
    using assms(1) by (intro hashed_stable) (auto simp: status_le_def)
  with assms(1) show ?thesis by simp
qed (use assms in \<open>auto simp: hdr_ok_def\<close>)

lemma hdr_ok_refresh_branch:
  assumes "node_ok sha db pfx (BranchNode n cs)" "nd_status n \<noteq> StatusPersisted"
  shows "hdr_ok sha db pfx n (encodeBranch (map (\<lambda>c. node_Hash (hashed sha b c)) cs))"
proof (cases "nd_status n")
  case StatusUpdated
  then have eq: "map (\<lambda>c. node_Hash (hashed sha b c)) cs = map node_Hash cs"
    using assms(1) by (auto simp: status_le_def list_all_iff intro: hashed_stable)
  show ?thesis unfolding eq using assms(1) by simp
qed (use assms in \<open>auto simp: hdr_ok_def\<close>)

lemma nodeHash_commit:
  assumes sha: "\<And>x. length (sha x) = HashLength"
  shows "node_ok sha db pfx (LeafNode n k v) \<Longrightarrow> nd_status n \<noteq> StatusPersisted \<Longrightarrow>
      nodeHash sha (Some pfx) (LeafNode n k v) =
        (sha (encodeLeaf k v), LeafNode \<lparr>nd_hash = sha (encodeLeaf k v), nd_status = StatusPersisted\<rparr> k v,
         [(pfx @ sha (encodeLeaf k v), encodeLeaf k v)])"
    and "node_ok sha db pfx (ExtensionNode n k next) \<Longrightarrow> nd_status n \<noteq> StatusPersisted \<Longrightarrow>
      nodeHash sha (Some pfx) (ExtensionNode n k next) =
        (let next' = hashed sha (Some pfx) next; enc = encodeExtension k (node_Hash next')
         in (sha enc, ExtensionNode \<lparr>nd_hash = sha enc, nd_status = StatusPersisted\<rparr> k next',
             puts sha (Some pfx) next @ [(pfx @ sha enc, enc)]))"
    and "node_ok sha db pfx (BranchNode n cs) \<Longrightarrow> nd_status n \<noteq> StatusPersisted \<Longrightarrow>
      nodeHash sha (Some pfx) (BranchNode n cs) =
        (let cs' = map (hashed sha (Some pfx)) cs; enc = encodeBranch (map node_Hash cs')
         in (sha enc, BranchNode \<lparr>nd_hash = sha enc, nd_status = StatusPersisted\<rparr> cs',
             concat (map (puts sha (Some pfx)) cs) @ [(pfx @ sha enc, enc)]))"
proof -
  have hdr: "n\<lparr>nd_hash := h, nd_status := StatusPersisted\<rparr> = \<lparr>nd_hash = h, nd_status = StatusPersisted\<rparr>" for h
    by (cases n) simp
  show "nodeHash sha (Some pfx) (LeafNode n k v) =
        (sha (encodeLeaf k v), LeafNode \<lparr>nd_hash = sha (encodeLeaf k v), nd_status = StatusPersisted\<rparr> k v,
         [(pfx @ sha (encodeLeaf k v), encodeLeaf k v)])"
    if "node_ok sha db pfx (LeafNode n k v)" "nd_status n \<noteq> StatusPersisted"
    using finishHash_ok(2) [of sha db pfx n "encodeLeaf k v"] that sha by (simp add: hashKnown_batch hdr)
  show "nodeHash sha (Some pfx) (ExtensionNode n k next) =
        (let next' = hashed sha (Some pfx) next; enc = encodeExtension k (node_Hash next')
         in (sha enc, ExtensionNode \<lparr>nd_hash = sha enc, nd_status = StatusPersisted\<rparr> k next',
             puts sha (Some pfx) next @ [(pfx @ sha enc, enc)]))"
    if "node_ok sha db pfx (ExtensionNode n k next)" "nd_status n \<noteq> StatusPersisted"
    using finishHash_ok(2) [OF hdr_ok_refresh_ext [OF that, of "Some pfx"] sha] that
      nodeHash_fst [of sha "Some pfx" "next"]
    by (cases "nodeHash sha (Some pfx) next") (simp add: hashKnown_batch hdr Let_def)
  show "nodeHash sha (Some pfx) (BranchNode n cs) =
        (let cs' = map (hashed sha (Some pfx)) cs; enc = encodeBranch (map node_Hash cs')
         in (sha enc, BranchNode \<lparr>nd_hash = sha enc, nd_status = StatusPersisted\<rparr> cs',
             concat (map (puts sha (Some pfx)) cs) @ [(pfx @ sha enc, enc)]))"
    if "node_ok sha db pfx (BranchNode n cs)" "nd_status n \<noteq> StatusPersisted"
    using finishHash_ok(2) [OF hdr_ok_refresh_branch [OF that, of "Some pfx"] sha] that
    by (simp add: hashKnown_batch hdr Let_def comp_def nodeHash_fst)
qed

lemma committed_ok:
  assumes sha: "\<And>x. length (sha x) = HashLength" and le: "db \<subseteq>\<^sub>m db'"
  shows "node_ok sha db pfx n \<Longrightarrow> puts_in (puts sha (Some pfx) n) db' \<Longrightarrow>
    node_ok sha db' pfx (hashed sha (Some pfx) n) \<and>
    node_Status (hashed sha (Some pfx) n) = StatusPersisted"
proof (induction n)
  case (LeafNode n k v)
  show ?case
  proof (cases "nd_status n = StatusPersisted")
    case True
    then show ?thesis using LeafNode.prems(1) node_ok_mono [OF _ le, of sha pfx "LeafNode n k v"]
      by (simp add: hashKnown_batch)
  next
    case False
    note eq = nodeHash_commit(1) [OF sha LeafNode.prems(1) False]
    show ?thesis using LeafNode.prems sha unfolding eq
      by (simp add: hdr_ok_def hash_or_nil_def puts_in_def)
  qed
next
  case (ExtensionNode n k "next")
  show ?case
  proof (cases "nd_status n = StatusPersisted")
    case True
    then show ?thesis using ExtensionNode.prems(1) node_ok_mono [OF _ le, of sha pfx "ExtensionNode n k next"]
      by (simp add: hashKnown_batch)
  next
    case False
    note eq = nodeHash_commit(2) [OF sha ExtensionNode.prems(1) False]
    have "node_ok sha db' pfx (hashed sha (Some pfx) next)"
      "node_Status (hashed sha (Some pfx) next) = StatusPersisted"
      using ExtensionNode.IH ExtensionNode.prems unfolding eq by (simp_all add: Let_def)
    then show ?thesis using ExtensionNode.prems sha unfolding eq
      by (simp add: Let_def hdr_ok_def hash_or_nil_def status_le_def puts_in_def)
  qed
next
  case (BranchNode n cs)
  show ?case
  proof (cases "nd_status n = StatusPersisted")
    case True
    then show ?thesis using BranchNode.prems(1) node_ok_mono [OF _ le, of sha pfx "BranchNode n cs"]
      by (simp add: hashKnown_batch)
  next
    case False
    note eq = nodeHash_commit(3) [OF sha BranchNode.prems(1) False]
    have "\<forall>c \<in> set cs. node_ok sha db' pfx (hashed sha (Some pfx) c)
        \<and> node_Status (hashed sha (Some pfx) c) = StatusPersisted"
      using BranchNode.IH BranchNode.prems unfolding eq
      by (auto simp: Let_def list_all_iff puts_in_concat)
    then show ?thesis using BranchNode.prems sha unfolding eq
      by (simp add: Let_def hdr_ok_def hash_or_nil_def status_le_def list_all_iff puts_in_def)
  qed
qed simp_all

lemma sized_hashed [simp]: "sized (hashed sha b n) \<longleftrightarrow> sized n"
proof (induction n)
  case (BranchNode n cs)
  then show ?case by (auto simp: list_all_iff split: prod.splits)
qed (auto split: prod.splits)

section \<open>Taking the batch into the database\<close>

lemma put_self:
  assumes "\<And>x. length (sha x) = HashLength" "db \<subseteq>\<^sub>m db'" "node_ok sha db pfx n" "sized n" "loadable n"
    "puts_in (puts sha (Some pfx) n) db'" "node_enc (hashed sha (Some pfx) n) = v"
  shows "\<exists>n'. node_ok sha db' pfx n' \<and> sized n' \<and> loadable n' \<and> node_Status n' = StatusPersisted \<and>
      node_enc n' = v"
  using committed_ok [OF assms(1,2,3,6)] assms(4,5,7) sized_hashed nodeHash_loadable by blast

lemma puts_nodes:
  assumes sha: "\<And>x. length (sha x) = HashLength" and le: "db \<subseteq>\<^sub>m db'"
  shows "node_ok sha db pfx n \<Longrightarrow> sized n \<Longrightarrow> puts_in (puts sha (Some pfx) n) db' \<Longrightarrow>
    (k, v) \<in> set (puts sha (Some pfx) n) \<Longrightarrow>
    \<exists>n'. node_ok sha db' pfx n' \<and> sized n' \<and> loadable n' \<and> node_Status n' = StatusPersisted \<and>
      node_enc n' = v"
proof (induction n)
  case (LeafNode n nk nv)
  have np: "nd_status n \<noteq> StatusPersisted" using LeafNode.prems(4) by (auto simp: hashKnown_batch)
  note eq = nodeHash_commit(1) [OF sha LeafNode.prems(1) np]
  show ?case
    by (rule put_self [OF sha le LeafNode.prems(1,2) _ LeafNode.prems(3)])
      (use LeafNode.prems(4) in \<open>unfold eq, simp_all\<close>)
next
  case (ExtensionNode n nk "next")
  have np: "nd_status n \<noteq> StatusPersisted" using ExtensionNode.prems(4) by (auto simp: hashKnown_batch)
  note eq = nodeHash_commit(2) [OF sha ExtensionNode.prems(1) np]
  show ?case
  proof (cases "(k, v) \<in> set (puts sha (Some pfx) next)")
    case True
    then show ?thesis using ExtensionNode.IH ExtensionNode.prems unfolding eq by (simp add: Let_def)
  next
    case False
    then show ?thesis
      by (intro put_self [OF sha le ExtensionNode.prems(1,2) _ ExtensionNode.prems(3)])
        (use ExtensionNode.prems(4) in \<open>unfold eq, simp_all add: Let_def\<close>)
  qed
next
  case (BranchNode n cs)
  have np: "nd_status n \<noteq> StatusPersisted" using BranchNode.prems(4) by (auto simp: hashKnown_batch)
  note eq = nodeHash_commit(3) [OF sha BranchNode.prems(1) np]
  show ?case
  proof (cases "\<exists>c \<in> set cs. (k, v) \<in> set (puts sha (Some pfx) c)")
    case True
    then show ?thesis using BranchNode.IH BranchNode.prems unfolding eq
      by (auto simp: Let_def list_all_iff puts_in_concat)
  next
    case False
    then show ?thesis
      by (intro put_self [OF sha le BranchNode.prems(1,2) _ BranchNode.prems(3)])
        (use BranchNode.prems(4) in \<open>unfold eq, simp_all add: Let_def\<close>)
  qed
qed simp_all

lemma puts_keys:
  assumes sha: "\<And>x. length (sha x) = HashLength"
  shows "node_ok sha db pfx n \<Longrightarrow> (k, v) \<in> set (puts sha (Some pfx) n) \<Longrightarrow> k = pfx @ sha v"
proof (induction n)
  case (LeafNode n nk nv)
  have np: "nd_status n \<noteq> StatusPersisted" using LeafNode.prems(2) by (auto simp: hashKnown_batch)
  show ?case using LeafNode.prems(2) unfolding nodeHash_commit(1) [OF sha LeafNode.prems(1) np] by simp
next
  case (ExtensionNode n nk "next")
  have np: "nd_status n \<noteq> StatusPersisted" using ExtensionNode.prems(2) by (auto simp: hashKnown_batch)
  show ?case using ExtensionNode unfolding nodeHash_commit(2) [OF sha ExtensionNode.prems(1) np]
    by (auto simp: Let_def)
next
  case (BranchNode n cs)
  have np: "nd_status n \<noteq> StatusPersisted" using BranchNode.prems(2) by (auto simp: hashKnown_batch)
  show ?case using BranchNode unfolding nodeHash_commit(3) [OF sha BranchNode.prems(1) np]
    by (auto simp: Let_def list_all_iff)
qed simp_all

text \<open>No two of the encodings already stored or about to be stored have the same hash.\<close>

definition collision_free ::
  "(bytes \<Rightarrow> bytes) \<Rightarrow> trie_db \<Rightarrow> bytes \<Rightarrow> (bytes \<times> bytes) list \<Rightarrow> bool" where
  "collision_free sha db pfx ps \<longleftrightarrow>
     inj_on sha ({v. \<exists>h. length h = HashLength \<and> db (pfx @ h) = Some v} \<union> snd ` set ps)"

lemma apply_puts_eq: "apply_puts db ps = db ++ map_of (rev ps)"
  by (induction ps rule: rev_induct) (auto simp: apply_puts_def fun_eq_iff map_add_def)

lemma apply_puts_in:
  assumes keys: "\<And>k v. (k, v) \<in> set ps \<Longrightarrow> k = pfx @ sha v"
    and cf: "collision_free sha db pfx ps"
  shows "puts_in ps (apply_puts db ps)"
proof -
  have "apply_puts db ps k = Some v" if kv: "(k, v) \<in> set ps" for k v
  proof -
    obtain v' where v': "map_of (rev ps) k = Some v'"
      using weak_map_of_SomeI [of k v "rev ps"] kv by auto
    then have "(k, v') \<in> set ps" by (metis map_of_SomeD set_rev)
    then have "sha v = sha v'" using keys kv by (metis same_append_eq)
    then have "v = v'" using cf kv \<open>(k, v') \<in> set ps\<close>
      unfolding collision_free_def inj_on_def by force
    with v' show ?thesis by (simp add: apply_puts_eq)
  qed
  then show ?thesis by (auto simp: puts_in_def)
qed

lemma apply_puts_le:
  assumes sha: "\<And>x. length (sha x) = HashLength"
    and keys: "\<And>k v. (k, v) \<in> set ps \<Longrightarrow> k = pfx @ sha v"
    and cf: "collision_free sha db pfx ps" and db: "db_ok sha db pfx"
  shows "db \<subseteq>\<^sub>m apply_puts db ps"
proof -
  have "apply_puts db ps k = Some w" if w: "db k = Some w" for k w
  proof (cases "map_of (rev ps) k")
    case (Some v)
    then have kv: "(k, v) \<in> set ps" by (metis map_of_SomeD set_rev)
    then have k: "k = pfx @ sha v" by (rule keys)
    have "sha w = sha v" using db w sha unfolding db_ok_def k by blast
    then have "w = v" using cf kv w k sha
      unfolding collision_free_def inj_on_def by (metis (mono_tags, lifting) UnCI image_eqI mem_Collect_eq snd_conv)
    with Some show ?thesis by (simp add: apply_puts_eq)
  qed (use w in \<open>simp add: apply_puts_eq map_add_def\<close>)
  then show ?thesis by (auto simp: map_le_def)
qed

lemma loadNode_mono: "loadNode db pfx h = Inr n \<Longrightarrow> db \<subseteq>\<^sub>m db' \<Longrightarrow> loadNode db' pfx h = Inr n"
  by (auto simp: loadNode_def split: option.splits dest: map_le_SomeD)

lemma rep_mono:
  "rep (loadNode db pfx) t n m \<Longrightarrow> db \<subseteq>\<^sub>m db' \<Longrightarrow> rep (loadNode db' pfx) t n m"
proof (induction rule: rep.induct)
  case (rep_leaf t k n v)
  then show ?case by (intro rep.rep_leaf)
qed (auto intro: rep.intros loadNode_mono)

text \<open>A persisted node and its hash stand for the same map.\<close>

lemma rep_stub:
  assumes sha: "\<And>x. length (sha x) = HashLength"
  shows "rep (loadNode db pfx) t n m \<Longrightarrow> node_ok sha db pfx n \<Longrightarrow> sized n \<Longrightarrow>
    node_Status n = StatusPersisted \<Longrightarrow> rep (loadNode db pfx) t (stub (node_Hash n)) m"
proof (induction rule: rep.induct)
  case (rep_leaf t k n v)
  have "loadNode db pfx (nd_hash n) = Inr (shallow (LeafNode n k v))"
    using loadNode_persisted [OF rep_leaf.prems(1,2)] rep_leaf.prems by simp
  moreover have "nd_hash n \<noteq> []" using node_Hash_length [OF rep_leaf.prems(1)] rep_leaf.prems(3) sha by auto
  moreover have "rep (loadNode db pfx) t (LeafNode (newPersistedNode (nd_hash n)) k v) [k \<mapsto> v]"
    using rep_leaf.hyps by (rule rep.rep_leaf)
  ultimately show ?case by (auto simp: stub_def simp del: fun_upd_apply intro: rep_hash)
next
  case (rep_ext k "next" m n)
  have "loadNode db pfx (nd_hash n) = Inr (shallow (ExtensionNode n k next))"
    using loadNode_persisted [OF rep_ext.prems(1,2)] rep_ext.prems by simp
  moreover have "nd_hash n \<noteq> []" using node_Hash_length [OF rep_ext.prems(1)] rep_ext.prems(3) sha by auto
  moreover have nx: "node_ok sha db pfx next" "sized next" "node_Status next = StatusPersisted" "next \<noteq> NilNode"
    using rep_ext.prems by (auto simp: status_le_def)
  then have "node_Hash next \<noteq> []" using node_Hash_length [OF nx(1)] sha by auto
  then have "rep (loadNode db pfx) False (HashNode (node_Hash next)) m"
    using rep_ext.IH [OF nx(1,2,3)] by (simp add: stub_def)
  ultimately show ?case using rep_ext.hyps by (auto simp: stub_def intro!: rep_hash rep.rep_ext)
next
  case (rep_branch cs ms n)
  have "loadNode db pfx (nd_hash n) = Inr (shallow (BranchNode n cs))"
    using loadNode_persisted [OF rep_branch.prems(1,2)] rep_branch.prems by simp
  moreover have "nd_hash n \<noteq> []"
    using node_Hash_length [OF rep_branch.prems(1)] rep_branch.prems(3) sha by auto
  moreover have "rep (loadNode db pfx) (i = 16) (stub (node_Hash (cs ! i))) (ms i)" if "i < 17" for i
  proof -
    have "cs ! i \<in> set cs" using that rep_branch.hyps(1) by simp
    then have "node_ok sha db pfx (cs ! i)" "sized (cs ! i)" "node_Status (cs ! i) = StatusPersisted"
      using rep_branch.prems by (auto simp: list_all_iff status_le_def)
    then show ?thesis by (rule rep_branch.IH [OF that])
  qed
  ultimately show ?case using rep_branch.hyps(1) by (auto simp: stub_def intro!: rep_hash rep.rep_branch)
next
  case (rep_hash h n t m)
  then show ?case by (auto simp: stub_def intro: rep.rep_hash)
qed (simp add: stub_def)

lemma sized_shallow: "sized n \<Longrightarrow> sized (shallow n)"
  by (cases n) (auto simp: list_all_iff stub_def)

lemma db_ok_puts:
  assumes sha: "\<And>x. length (sha x) = HashLength" and db: "db_ok sha db pfx"
    and n: "node_ok sha db pfx n" "sized n"
    and ps: "ps = puts sha (Some pfx) n" and db': "db' = apply_puts db ps"
    and cf: "collision_free sha db pfx ps"
  shows "db \<subseteq>\<^sub>m db'" "puts_in ps db'" "db_ok sha db' pfx"
proof -
  have keys: "\<And>k v. (k, v) \<in> set ps \<Longrightarrow> k = pfx @ sha v"
    using puts_keys [OF sha n(1)] ps by blast
  show le: "db \<subseteq>\<^sub>m db'" unfolding db' by (rule apply_puts_le [OF sha keys cf db])
  show pin: "puts_in ps db'" unfolding db' by (rule apply_puts_in [OF keys cf])
  have "sha v = h \<and> (\<exists>n. decodeNode h v = Inr n \<and> node_ok sha db' pfx n \<and> sized n)"
    if hv: "length h = HashLength" "db' (pfx @ h) = Some v" for h v
  proof (cases "map_of (rev ps) (pfx @ h)")
    case None
    then have "db (pfx @ h) = Some v" using hv(2) by (simp add: db' apply_puts_eq map_add_def)
    then obtain n' where "sha v = h" "decodeNode h v = Inr n'" "node_ok sha db pfx n'" "sized n'"
      using db hv(1) unfolding db_ok_def by blast
    then show ?thesis using node_ok_mono [OF _ le] by blast
  next
    case (Some w)
    then have "w = v" using hv(2) by (simp add: db' apply_puts_eq)
    then have kv: "(pfx @ h, v) \<in> set ps" using Some by (metis map_of_SomeD set_rev)
    then have h: "h = sha v" using keys by blast
    obtain n' where n': "node_ok sha db' pfx n'" "sized n'" "loadable n'"
      "node_Status n' = StatusPersisted" "node_enc n' = v"
      using puts_nodes [OF sha le n] pin kv unfolding ps by blast
    then have "decodeNode (node_Hash n') v = Inr (shallow n')" "node_Hash n' = h"
      using decodeNode_enc [OF n'(1,2,3)] hdr_persisted [OF n'(1,3,4)] h by simp_all
    then show ?thesis using node_ok_shallow [OF n'(1,3,4) sha] sized_shallow [OF n'(2)] h by auto
  qed
  then show "db_ok sha db' pfx" unfolding db_ok_def by blast
qed

section \<open>The trie invariant\<close>

definition trie_inv :: "(bytes \<Rightarrow> bytes) \<Rightarrow> trie \<Rightarrow> bool" where
  "trie_inv sha t \<longleftrightarrow>
     db_ok sha (t_db t) (t_dbprefix t) \<and> node_ok sha (t_db t) (t_dbprefix t) (t_root t)
     \<and> (t_root t = NilNode \<or> loadable (t_root t))"

lemma BytesToHash_id: "length h = HashLength \<Longrightarrow> BytesToHash h = h"
  by (simp add: BytesToHash_def)

lemma length_EmptyHash [simp]: "length EmptyHash = HashLength"
  by (simp add: EmptyHash_def)

lemma commit_root:
  assumes sha: "\<And>x. length (sha x) = HashLength"
    and n: "node_ok sha db pfx n" "sized n" "loadable n" and m: "rep (loadNode db pfx) t n m"
    and le: "db \<subseteq>\<^sub>m db'" and pin: "puts_in (puts sha (Some pfx) n) db'"
  shows "node_ok sha db' pfx (hashed sha (Some pfx) n)"
    "length (node_Hash (hashed sha (Some pfx) n)) = HashLength"
    "rep (loadNode db' pfx) t (hashed sha (Some pfx) n) m"
    "rep (loadNode db' pfx) t (HashNode (node_Hash (hashed sha (Some pfx) n))) m"
proof -
  let ?n = "hashed sha (Some pfx) n"
  note ok = committed_ok [OF sha le n(1) pin]
  show "node_ok sha db' pfx ?n" using ok by simp
  have "?n \<noteq> NilNode" using n(3) by auto
  then show len: "length (node_Hash ?n) = HashLength"
    using node_Hash_length [of sha db' pfx ?n] ok sha by simp
  show r: "rep (loadNode db' pfx) t ?n m" by (rule rep_hashed [OF rep_mono [OF m le]])
  have "rep (loadNode db' pfx) t (stub (node_Hash ?n)) m"
    by (rule rep_stub [where sha = sha, OF sha r]) (use ok n(2) in simp_all)
  moreover have "node_Hash ?n \<noteq> []" using len by auto
  ultimately show "rep (loadNode db' pfx) t (HashNode (node_Hash ?n)) m" by (simp add: stub_def)
qed

lemma trie_Commit_eq:
  assumes "t_root t \<noteq> NilNode"
  shows "trie_Commit sha t =
    (t\<lparr>t_root := hashed sha (Some (t_dbprefix t)) (t_root t)\<rparr>,
     BytesToHash (node_Hash (hashed sha (Some (t_dbprefix t)) (t_root t))),
     puts sha (Some (t_dbprefix t)) (t_root t))"
  using assms by (simp add: trie_Commit_def split: prod.splits)

text \<open>A root hash that loads a consistent node opens a trie with the entries under it.\<close>

lemma NewTrie_holds:
  assumes "db_ok sha db pfx" "length r = HashLength" "r \<noteq> EmptyHash"
    and "rep (loadNode db pfx) False (HashNode r) m"
  shows "\<exists>t. NewTrie r pfx db = Inr t \<and> t_db t = db \<and> t_dbprefix t = pfx
    \<and> holds t (m \<circ> keybytesToHex) \<and> trie_inv sha t"
proof -
  obtain n where n: "loadNode db pfx r = Inr n" "rep (loadNode db pfx) False n m"
    using assms(4) by (auto elim: rep_HashE)
  have "node_ok sha db pfx n" using assms(1,2) n(1) by (rule loadNode_ok)
  with n assms(1,3) loadNode_loadable [OF n(1)] show ?thesis
    by (auto simp: NewTrie_def NewEmptyTrie_def holds_def trie_inv_def t_load_def)
qed

lemma commit_reload:
  assumes sha: "\<And>x. length (sha x) = HashLength" "\<And>x. sha x \<noteq> EmptyHash"
    and t: "trie_inv sha t" "holds t M" "sized (t_root t)"
    and c: "trie_Commit sha t = (t', r, ps)"
    and cf: "collision_free sha (t_db t) (t_dbprefix t) ps"
  shows "\<exists>t2. NewTrie r (t_dbprefix t) (apply_puts (t_db t) ps) = Inr t2 \<and> holds t2 M \<and> trie_inv sha t2
    \<and> t_db t2 = apply_puts (t_db t) ps"
proof (cases "t_root t = NilNode")
  case True
  then have "M = (\<lambda>_. None)" using t(2) by (auto simp: holds_def)
  with True c t(1) show ?thesis
    by (auto simp: trie_Commit_def NewTrie_def apply_puts_def trie_inv_def NewEmptyTrie_def holds_empty
        holds_def comp_def)
next
  case False
  let ?pfx = "t_dbprefix t" and ?n = "hashed sha (Some (t_dbprefix t)) (t_root t)"
  let ?db' = "apply_puts (t_db t) ps"
  obtain m where m: "rep (loadNode (t_db t) ?pfx) False (t_root t) m" "M = m \<circ> keybytesToHex"
    using t(2) by (auto simp: holds_def t_load_def)
  have n: "node_ok sha (t_db t) ?pfx (t_root t)" "loadable (t_root t)" "db_ok sha (t_db t) ?pfx"
    using t(1) False by (auto simp: trie_inv_def)
  have ps: "ps = puts sha (Some ?pfx) (t_root t)" and r: "r = BytesToHash (node_Hash ?n)"
    using c trie_Commit_eq [OF False, of sha] by simp_all
  note db = db_ok_puts [OF sha(1) n(3,1) t(3) ps refl cf]
  have pin: "puts_in (puts sha (Some ?pfx) (t_root t)) ?db'" using db(2) ps by simp
  note root = commit_root [OF sha(1) n(1) t(3) n(2) m(1) db(1) pin]
  have rh: "r = node_Hash ?n" using r root(2) by (simp add: BytesToHash_id)
  have "node_Hash ?n = sha (node_enc ?n)"
    using committed_ok [OF sha(1) db(1) n(1) pin] hdr_persisted [of sha _ ?pfx ?n] n(2)
    by (metis nodeHash_loadable)
  then have "r \<noteq> EmptyHash" using sha(2) rh by metis
  then show ?thesis
    using NewTrie_holds [OF db(3), of r m] root(2,4) rh m(2) by auto
qed

section \<open>Operations keep the invariant\<close>

lemma hdr_ok_new [simp]: "hdr_ok sha db pfx newNode enc"
  by (simp add: hdr_ok_def newNode_def hash_or_nil_def)

lemma hdr_ok_dirty: "hdr_ok sha db pfx n enc \<Longrightarrow> hdr_ok sha db pfx (dirty n) enc'"
  by (simp add: hdr_ok_def SetStatus_def)

lemma status_le_new [simp]: "status_le newNode c" "status_le (dirty n) c"
  by (simp_all add: status_le_def newNode_def SetStatus_def)

lemma list_all_update: "list_all P xs \<Longrightarrow> P y \<Longrightarrow> list_all P (xs[i := y])"
  unfolding list_all_iff using set_update_subset_insert by fastforce

lemma list_all_nth: "list_all P xs \<Longrightarrow> i < length xs \<Longrightarrow> P (xs ! i)"
  by (simp add: list_all_length)

lemma node_ok_emptyChildren: "list_all (node_ok sha db pfx) emptyChildren" "length emptyChildren = 17"
  by (simp_all add: emptyChildren_def numBranchChildren_def list_all_iff)

lemma node_ok_branch_new:
  "length cs = 17 \<Longrightarrow> list_all (node_ok sha db pfx) cs \<Longrightarrow>
     hdr_ok sha db pfx n (encodeBranch (map node_Hash cs)) \<Longrightarrow> nd_status n = StatusDirty \<Longrightarrow>
     node_ok sha db pfx (BranchNode n cs)"
  by (simp add: list_all_iff status_le_def)

lemma newNode_dirty [simp]: "nd_status newNode = StatusDirty" "nd_status (dirty n) = StatusDirty"
  by (simp_all add: newNode_def SetStatus_def)

lemma insertBranch_ok:
  assumes "insertBranch self cs i key v = Inr n'" "length cs = 17" "list_all (node_ok sha db pfx) cs"
    and "\<And>k n. self NilNode k v = Inr n \<Longrightarrow> node_ok sha db pfx n"
  shows "node_ok sha db pfx n' \<and> loadable n'"
proof -
  obtain new where new: "self NilNode (drop (i + 1) key) v = Inr new"
    and n': "n' = BranchNode newNode (cs[unat (key ! i) := new])
      \<or> n' = ExtensionNode newNode (take i key) (BranchNode newNode (cs[unat (key ! i) := new]))"
    using assms(1) by (auto simp: insertBranch_def setChild_def split: if_splits sum.splits)
  have "node_ok sha db pfx (BranchNode newNode (cs[unat (key ! i) := new]))"
    using assms(2,3) assms(4) [OF new] by (intro node_ok_branch_new) (simp_all add: list_all_update)
  with n' show ?thesis by auto
qed

lemma insert_ok:
  assumes db: "db_ok sha db pfx"
  shows "trie_insert (loadNode db pfx) f n key v = Inr n' \<Longrightarrow> node_ok sha db pfx n \<Longrightarrow>
    node_ok sha db pfx n' \<and> loadable n'"
proof (induction f arbitrary: n key n')
  case (Suc f)
  have nil: "trie_insert (loadNode db pfx) f NilNode k v = Inr n \<Longrightarrow> node_ok sha db pfx n" for k n
    using Suc.IH by fastforce
  show ?case
  proof (cases n)
    case NilNode
    with Suc.prems show ?thesis by auto
  next
    case (HashNode h)
    with Suc.prems obtain l where "loadNode db pfx h = Inr l"
      "trie_insert (loadNode db pfx) f l key v = Inr n'" by (auto split: sum.splits)
    then show ?thesis using Suc.IH loadNode_ok [OF db] Suc.prems(2) HashNode by auto
  next
    case (LeafNode hd k w)
    then have hd: "hdr_ok sha db pfx (dirty hd) enc" for enc
      using Suc.prems(2) hdr_ok_dirty by fastforce
    show ?thesis
    proof (cases "matchkeyLen k key = length k")
      case True
      with Suc.prems(1) LeafNode hd show ?thesis by (auto simp: insertLeafNode_def Let_def)
    next
      case False
      with Suc.prems(1) LeafNode obtain cs where
        "setChild emptyChildren (k ! matchkeyLen k key)
           (LeafNode (dirty hd) (drop (matchkeyLen k key + 1) k) w) = Inr cs"
        "insertBranch (trie_insert (loadNode db pfx) f) cs (matchkeyLen k key) key v = Inr n'"
        by (auto simp: insertLeafNode_def Let_def split: sum.splits)
      then show ?thesis
        using insertBranch_ok [OF _ _ _ nil] node_ok_emptyChildren hd
        by (auto simp: setChild_def list_all_update split: if_splits)
    qed
  next
    case (ExtensionNode hd k "next")
    then have hd: "hdr_ok sha db pfx (dirty hd) enc" for enc
      using Suc.prems(2) hdr_ok_dirty by fastforce
    have nx: "node_ok sha db pfx next" "next \<noteq> NilNode" using Suc.prems(2) ExtensionNode by auto
    show ?thesis
    proof (cases "matchkeyLen k key = length k")
      case True
      with Suc.prems(1) ExtensionNode obtain new where
        "trie_insert (loadNode db pfx) f next (drop (length k) key) v = Inr new"
        "n' = ExtensionNode (dirty hd) k new"
        by (auto simp: insertExtensionNode_def Let_def split: sum.splits)
      then show ?thesis using Suc.IH nx hd by fastforce
    next
      case False
      define old where "old = (if matchkeyLen k key \<noteq> length k - 1
        then ExtensionNode (dirty hd) (drop (matchkeyLen k key + 1) k) next else next)"
      have "node_ok sha db pfx old" using nx hd by (auto simp: old_def)
      moreover obtain cs where
        "setChild emptyChildren (k ! matchkeyLen k key) old = Inr cs"
        "insertBranch (trie_insert (loadNode db pfx) f) cs (matchkeyLen k key) key v = Inr n'"
        using Suc.prems(1) ExtensionNode False
        by (auto simp: insertExtensionNode_def Let_def old_def split: sum.splits)
      ultimately show ?thesis
        using insertBranch_ok [OF _ _ _ nil] node_ok_emptyChildren
        by (auto simp: setChild_def list_all_update split: if_splits)
    qed
  next
    case (BranchNode hd cs)
    with Suc.prems(1) obtain k :: byte and ks c where k: "unat k < length cs"
      "trie_insert (loadNode db pfx) f (cs ! unat k) ks v = Inr c"
      "n' = BranchNode (dirty hd) (cs[unat k := c])"
      by (auto split: list.splits if_splits sum.splits)
    have cs: "length cs = 17" "list_all (node_ok sha db pfx) cs"
      "hdr_ok sha db pfx hd (encodeBranch (map node_Hash cs))" using Suc.prems(2) BranchNode by auto
    have "node_ok sha db pfx c" using Suc.IH [OF k(2)] cs(2) k(1) list_all_nth by blast
    then show ?thesis unfolding k(3) using cs hdr_ok_dirty
      by (intro conjI node_ok_branch_new) (auto simp: list_all_update)
  qed
qed simp

lemma deleteBranchTail_ok:
  assumes db: "db_ok sha db pfx" and cs: "length cs = 17" "list_all (node_ok sha db pfx) cs"
    and hd: "hash_or_nil (nd_hash n)"
    and d: "deleteBranchTail (loadNode db pfx) n cs = DelOk m n'"
  shows "node_ok sha db pfx n' \<and> loadable n'"
proof -
  obtain pos count where pc: "countChildren cs = (pos, count)" by fastforce
  let ?child = "case cs ! pos of HashNode h \<Rightarrow> loadNode db pfx h | childnode \<Rightarrow> Inr childnode"
  have whole: "node_ok sha db pfx (BranchNode (dirty n) cs)"
    using cs hd by (intro node_ok_branch_new) (simp_all add: hdr_ok_def SetStatus_def)
  have child: "node_ok sha db pfx c" if "?child = Inr c" "pos < 17" for c
    using that list_all_nth [OF cs(2), of pos] cs(1) loadNode_ok [OF db]
    by (cases "cs ! pos") auto
  show ?thesis
  proof (cases "count = 1")
    case False
    then show ?thesis using d whole by (auto simp: deleteBranchTail_def pc)
  next
    case True
    then have "pos < 17" using countChildren_one pc cs(1) by fastforce
    with True d child whole show ?thesis
      by (auto simp: deleteBranchTail_def pc Let_def split: sum.splits noder.splits)
  qed
qed

lemma delete_ok:
  assumes db: "db_ok sha db pfx"
  shows "trie_delete (loadNode db pfx) f n key d = DelOk m n' \<Longrightarrow> node_ok sha db pfx n \<Longrightarrow>
    node_ok sha db pfx n' \<and> (n' = NilNode \<or> loadable n' \<or> n' = n)"
proof (induction f arbitrary: n key m n')
  case (Suc f)
  show ?case
  proof (cases n)
    case (HashNode h)
    with Suc.prems(1) obtain l where l: "loadNode db pfx h = Inr l"
      "trie_delete (loadNode db pfx) f l key d = DelOk m n'"
      by (auto split: sum.splits del_result.splits)
    then show ?thesis
      using Suc.IH [OF l(2)] loadNode_ok [OF db _ l(1)] loadNode_loadable [OF l(1)] Suc.prems(2) HashNode
      by auto
  next
    case (ExtensionNode hd k "next")
    then have nx: "node_ok sha db pfx next" "next \<noteq> NilNode" using Suc.prems(2) by auto
    have hd: "hdr_ok sha db pfx (dirty hd) enc" for enc
      using Suc.prems(2) hdr_ok_dirty ExtensionNode by fastforce
    consider "n' = n" | "n' = NilNode"
      | new key' where "trie_delete (loadNode db pfx) f next key' d = DelOk True new" "new \<noteq> NilNode"
        "n' = ExtensionNode (dirty hd) k new"
      using Suc.prems(1) ExtensionNode by (auto simp: Let_def split: if_splits del_result.splits)
    then show ?thesis
    proof cases
      case 3
      then show ?thesis using Suc.IH [OF 3(1) nx(1)] hd by auto
    qed (use Suc.prems in auto)
  next
    case (BranchNode hd cs)
    then have cs: "length cs = 17" "list_all (node_ok sha db pfx) cs" "hash_or_nil (nd_hash hd)"
      using Suc.prems(2) by (auto simp: hdr_ok_def)
    consider "n' = n"
      | i c where "node_ok sha db pfx c" "deleteBranchTail (loadNode db pfx) hd (cs[i := c]) = DelOk m n'"
    proof (cases key)
      case (Cons k ks)
      then show ?thesis
      proof (cases "d \<and> length key = 1")
        case True
        then show ?thesis using Suc.prems(1) BranchNode Cons that(1) that(2) [of NilNode "unat k"]
          by (auto split: if_splits)
      next
        case False
        have "node_ok sha db pfx c"
          if "trie_delete (loadNode db pfx) f (cs ! unat k) ks d = DelOk m' c" "unat k < 17" for m' c
          using Suc.IH [OF that(1)] list_all_nth [OF cs(2)] cs(1) that(2) by auto
        then show ?thesis using Suc.prems(1) BranchNode Cons False that(1) that(2) [of _ "unat k"] cs(1)
          by (auto simp del: deleteBranchTail_def split: if_splits del_result.splits)
      qed
    qed (use Suc.prems(1) BranchNode in simp)
    then show ?thesis
    proof cases
      case 2
      then show ?thesis
        using deleteBranchTail_ok [OF db _ list_all_update [OF cs(2) 2(1)] cs(3) 2(2)] cs(1) by simp
    qed (use Suc.prems in simp)
  qed (use Suc.prems in \<open>auto simp: Let_def split: if_splits\<close>)
qed simp

lemma decodeNode_hdr:
  "decodeNode h v = Inr n \<Longrightarrow> node_Hash n = h \<and> node_Status n = StatusPersisted"
  by (auto simp: decodeNode_def decodeLeafNode_def decodeExtensionNode_def decodeBranchNode_def
      newPersistedNode_def split: sum.splits prod.splits if_splits)

lemma loadNode_hdr:
  "loadNode db pfx h = Inr n \<Longrightarrow> node_Hash n = h \<and> node_Status n = StatusPersisted"
  by (auto simp: loadNode_def decodeNode_hdr split: option.splits if_splits)

lemma map_update_same: "i < length xs \<Longrightarrow> f x = f (xs ! i) \<Longrightarrow> map f (xs[i := x]) = map f xs"
  by (simp add: map_update list_update_same_conv)

lemma status_le_cong: "node_Status c' = node_Status c \<Longrightarrow> status_le n c' = status_le n c"
  by (simp add: status_le_def)

lemma get_ok:
  assumes db: "db_ok sha db pfx"
  shows "trie_get (loadNode db pfx) f n key pos = (v, n', e) \<Longrightarrow> node_ok sha db pfx n \<Longrightarrow>
    node_ok sha db pfx n' \<and> node_Hash n' = node_Hash n \<and> node_Status n' = node_Status n
    \<and> (n' = NilNode \<longleftrightarrow> n = NilNode) \<and> (loadable n \<longrightarrow> loadable n')"
proof (induction f arbitrary: n pos v n' e)
  case (Suc f)
  show ?case
  proof (cases n)
    case (HashNode h)
    show ?thesis
    proof (cases "loadNode db pfx h")
      case (Inr l)
      then show ?thesis
        using Suc.IH [of l pos v n' e] Suc.prems loadNode_ok [OF db _ Inr] loadNode_hdr [OF Inr]
          loadNode_loadable [OF Inr] HashNode by auto
    qed (use Suc.prems HashNode in auto)
  next
    case (ExtensionNode hd k "next")
    then show ?thesis
      using Suc.IH [of "next"] Suc.prems
      by (auto split: if_splits prod.splits simp: status_le_def)
  next
    case (BranchNode hd cs)
    show ?thesis
    proof (cases "pos < length key \<and> unat (key ! pos) < length cs")
      case True
      obtain v' c e' where r:
        "trie_get (loadNode db pfx) f (cs ! unat (key ! pos)) key (pos + 1) = (v', c, e')"
        by (metis prod_cases3)
      let ?i = "unat (key ! pos)"
      have cs: "length cs = 17" "list_all (node_ok sha db pfx) cs" "list_all (status_le hd) cs"
        "hdr_ok sha db pfx hd (encodeBranch (map node_Hash cs))" using Suc.prems(2) BranchNode by auto
      have c: "node_ok sha db pfx c" "node_Hash c = node_Hash (cs ! ?i)"
        "node_Status c = node_Status (cs ! ?i)"
        using Suc.IH [OF r] list_all_nth [OF cs(2)] True by auto
      have "n' = BranchNode hd (cs[?i := c])" using Suc.prems(1) BranchNode True r by simp
      moreover have "status_le hd c"
        using list_all_nth [OF cs(3), of ?i] True status_le_cong [OF c(3)] by simp
      ultimately show ?thesis
        using BranchNode cs c True by (simp add: list_all_update map_update_same)
    qed (use Suc.prems BranchNode in auto)
  qed (use Suc.prems in \<open>auto split: if_splits\<close>)
qed simp

text \<open>The Merkle hash of a node, computed from scratch without the cached hashes.\<close>

fun merkle :: "(bytes \<Rightarrow> bytes) \<Rightarrow> noder \<Rightarrow> bytes" where
  "merkle sha NilNode = []"
| "merkle sha (HashNode h) = h"
| "merkle sha (LeafNode n k v) = sha (encodeLeaf k v)"
| "merkle sha (ExtensionNode n k next) = sha (encodeExtension k (merkle sha next))"
| "merkle sha (BranchNode n cs) = sha (encodeBranch (map (merkle sha) cs))"

lemma clean_merkle:
  "node_ok sha db pfx n \<Longrightarrow> node_Status n \<noteq> StatusDirty \<Longrightarrow> node_Hash n = merkle sha n"
proof (induction n)
  case (BranchNode n cs)
  then have "map node_Hash cs = map (merkle sha) cs"
    by (auto simp: list_all_iff status_le_def)
  with BranchNode.prems show ?case by (simp add: hdr_ok_def)
qed (auto simp: hdr_ok_def status_le_def)

lemma merkle_hashed [simp]: "merkle sha (hashed sha b n) = merkle sha n"
proof (induction n)
  case (BranchNode n cs)
  then show ?case by (simp add: comp_def split: prod.splits cong: map_cong)
qed (auto split: prod.splits)

lemma hashed_ok:
  assumes sha: "\<And>x. length (sha x) = HashLength"
  shows "node_ok sha db pfx n \<Longrightarrow>
    node_ok sha db pfx (hashed sha None n) \<and> node_Status (hashed sha None n) \<noteq> StatusDirty"
proof (induction n)
  case (LeafNode n k v)
  then show ?case using sha
    by (auto simp: hashKnown_def finishHash_ok(1) hdr_ok_def hash_or_nil_def split: if_splits)
next
  case (ExtensionNode n k "next")
  show ?case
  proof (cases "nd_status n = StatusDirty")
    case True
    then show ?thesis
      using ExtensionNode sha finishHash_ok(1) [OF hdr_ok_refresh_ext [OF ExtensionNode.prems, of None] sha]
        nodeHash_fst [of sha None "next"] nodeHash_nil_iff [of sha None "next"]
      by (cases "nodeHash sha None next")
        (auto simp: hashKnown_batch hdr_ok_def hash_or_nil_def status_le_def)
  qed (use ExtensionNode.prems in \<open>simp add: hashKnown_batch\<close>)
next
  case (BranchNode n cs)
  show ?case
  proof (cases "nd_status n = StatusDirty")
    case True
    have "\<forall>c \<in> set cs. node_ok sha db pfx (hashed sha None c) \<and> node_Status (hashed sha None c) \<noteq> StatusDirty"
      using BranchNode by (auto simp: list_all_iff)
    then show ?thesis
      using BranchNode.prems True sha
        finishHash_ok(1) [OF hdr_ok_refresh_branch [OF BranchNode.prems, of None] sha]
      by (auto simp: hashKnown_batch hdr_ok_def hash_or_nil_def status_le_def list_all_iff
          comp_def nodeHash_fst)
  qed (use BranchNode.prems in \<open>simp add: hashKnown_batch\<close>)
qed simp_all

lemma hashed_merkle:
  assumes sha: "\<And>x. length (sha x) = HashLength" and n: "node_ok sha db pfx n"
  shows "node_Hash (hashed sha None n) = merkle sha n"
  using hashed_ok [OF sha n] clean_merkle by fastforce

lemma committed_merkle:
  assumes sha: "\<And>x. length (sha x) = HashLength" and n: "node_ok sha db pfx n"
  shows "node_Hash (hashed sha (Some pfx) n) = merkle sha n"
  using n
proof (induction n)
  case (LeafNode n k v)
  then show ?case using clean_merkle [OF LeafNode] nodeHash_commit(1) [OF sha LeafNode]
    by (cases "nd_status n = StatusPersisted") (auto simp: hashKnown_batch)
next
  case (ExtensionNode n k "next")
  then show ?case
    using clean_merkle [OF ExtensionNode.prems] nodeHash_commit(2) [OF sha ExtensionNode.prems]
    by (cases "nd_status n = StatusPersisted") (auto simp: hashKnown_batch Let_def)
next
  case (BranchNode n cs)
  then have "map (\<lambda>c. node_Hash (hashed sha (Some pfx) c)) cs = map (merkle sha) cs"
    by (auto simp: list_all_iff)
  then show ?case
    using clean_merkle [OF BranchNode.prems] nodeHash_commit(3) [OF sha BranchNode.prems]
    by (cases "nd_status n = StatusPersisted")
      (auto simp: hashKnown_batch Let_def comp_def cong: map_cong)
qed simp_all

lemma trie_Hash_eq:
  assumes "t_root t \<noteq> NilNode"
  shows "trie_Hash sha t =
    (t\<lparr>t_root := hashed sha None (t_root t)\<rparr>, BytesToHash (node_Hash (hashed sha None (t_root t))))"
  using assms by (simp add: trie_Hash_def split: prod.splits)

text \<open>
  Hashing and committing agree on the root: the Merkle hash of the tree, whatever hashes were
  cached in it.
\<close>

lemma root_merkle:
  assumes sha: "\<And>x. length (sha x) = HashLength" and t: "trie_inv sha t"
  shows "snd (trie_Hash sha t) =
      (if t_root t = NilNode then EmptyHash else BytesToHash (merkle sha (t_root t)))"
    and "fst (snd (trie_Commit sha t)) = snd (trie_Hash sha t)"
proof -
  have n: "node_ok sha (t_db t) (t_dbprefix t) (t_root t)" using t by (simp add: trie_inv_def)
  show "snd (trie_Hash sha t) =
      (if t_root t = NilNode then EmptyHash else BytesToHash (merkle sha (t_root t)))"
    using hashed_merkle [OF sha n] by (cases "t_root t = NilNode") (simp add: trie_Hash_def, simp add: trie_Hash_eq)
  show "fst (snd (trie_Commit sha t)) = snd (trie_Hash sha t)"
    using hashed_merkle [OF sha n] committed_merkle [OF sha n]
    by (cases "t_root t = NilNode")
      (simp_all add: trie_Hash_eq trie_Commit_eq, simp add: trie_Hash_def trie_Commit_def)
qed

section \<open>Sequences of operations\<close>

lemma trie_Put_inv:
  assumes "trie_inv sha t" "trie_Put t k v = (t', None)"
  shows "trie_inv sha t' \<and> t_db t' = t_db t \<and> t_dbprefix t' = t_dbprefix t"
  using assms insert_ok [of sha "t_db t" "t_dbprefix t"]
  by (auto simp: trie_Put_def trie_inv_def t_load_def Let_def split: sum.splits)

lemma trie_Get_inv:
  assumes "trie_inv sha t" "trie_Get t k = (t', v, e)"
  shows "trie_inv sha t' \<and> t_db t' = t_db t \<and> t_dbprefix t' = t_dbprefix t"
proof (cases "t_root t = NilNode")
  case False
  obtain v' n' e' where g: "trie_get (t_load t) (key_fuel (keybytesToHex k)) (t_root t) (keybytesToHex k) 0
      = (v', n', e')" by (metis prod_cases3)
  then have "node_ok sha (t_db t) (t_dbprefix t) n' \<and> loadable n'"
    using get_ok [of sha "t_db t" "t_dbprefix t"] assms(1) False by (fastforce simp: trie_inv_def t_load_def)
  then show ?thesis using assms g False by (auto simp: trie_Get_def trie_inv_def split: noder.splits)
qed (use assms in \<open>auto simp: trie_Get_def\<close>)

lemma runDelete_inv:
  assumes "trie_inv sha t" "runDelete t k d = (t', b, None)"
  shows "trie_inv sha t' \<and> t_db t' = t_db t \<and> t_dbprefix t' = t_dbprefix t"
proof (cases "trie_delete (t_load t) (key_fuel k) (t_root t) k d")
  case (DelOk m n')
  then have "node_ok sha (t_db t) (t_dbprefix t) n' \<and> (n' = NilNode \<or> loadable n')"
    using delete_ok [of sha "t_db t" "t_dbprefix t"] assms(1) by (fastforce simp: trie_inv_def t_load_def)
  then show ?thesis using assms DelOk by (auto simp: runDelete_def trie_inv_def split: if_splits)
qed (use assms in \<open>auto simp: runDelete_def\<close>)

lemma trie_Delete_inv:
  "trie_inv sha t \<Longrightarrow> trie_Delete t k = (t', b, None) \<Longrightarrow>
     trie_inv sha t' \<and> t_db t' = t_db t \<and> t_dbprefix t' = t_dbprefix t"
  using runDelete_inv [of sha t] by (auto simp: trie_Delete_def split: if_splits)

lemma trie_DeletePrefix_inv:
  "trie_inv sha t \<Longrightarrow> trie_DeletePrefix t k = (t', b, None) \<Longrightarrow>
     trie_inv sha t' \<and> t_db t' = t_db t \<and> t_dbprefix t' = t_dbprefix t"
  using runDelete_inv [of sha t] by (auto simp: trie_DeletePrefix_def split: if_splits)

lemma trie_Hash_inv:
  assumes "\<And>x. length (sha x) = HashLength" "trie_inv sha t" "holds t M" "trie_Hash sha t = (t', r)"
  shows "trie_inv sha t' \<and> holds t' M \<and> t_db t' = t_db t \<and> t_dbprefix t' = t_dbprefix t"
proof (cases "t_root t = NilNode")
  case False
  then have t': "t' = t\<lparr>t_root := hashed sha None (t_root t)\<rparr>" using assms(4) by (simp add: trie_Hash_eq)
  show ?thesis
    using assms(2,3) hashed_ok [where sha = sha, OF assms(1)] rep_hashed [where sha = sha and b = None] False
    unfolding t' by (fastforce simp: trie_inv_def holds_def t_load_def)
qed (use assms in \<open>auto simp: trie_Hash_def\<close>)

section \<open>Properties\<close>

text \<open>
  C10: a stored node decodes to itself. The decoder inverts the encoding of leaf, extension and
  branch nodes, with the children of a branch and the target of an extension as hash nodes, for keys
  and values shorter than 2^60 bytes and children that are empty or 32-byte hashes.
\<close>

theorem node_codec_roundtrip:
  assumes "length k < lim" and "length v < lim" and "list_all hash_or_nil hs" and "length hs = 17"
  shows "decodeNode h (encodeLeaf k v) = Inr (LeafNode (newPersistedNode h) k v)
    \<and> decodeNode h (encodeExtension k v) = Inr (ExtensionNode (newPersistedNode h) k (HashNode v))
    \<and> decodeNode h (encodeBranch hs) = Inr (BranchNode (newPersistedNode h) (map stub hs))"
  using decodeNode_encodeLeaf [OF assms(1,2)] decodeNode_encodeExtension [OF assms(1,2)]
    decodeNode_encodeBranch [OF assms(3,4)] by blast

theorem node_codec_roundtrip_witness:
  "decodeNode [5] (encodeExtension [1, 2] [9]) = Inr (ExtensionNode (newPersistedNode [5]) [1, 2] (HashNode [9]))"
proof -
  have "length [1, 2 :: byte] < lim" "length [9 :: byte] < lim" "list_all hash_or_nil (replicate 17 [])"
    "length (replicate 17 ([] :: bytes)) = 17"
    by (simp_all add: lim_def list_all_iff hash_or_nil_def)
  from node_codec_roundtrip [OF this] show ?thesis by blast
qed

end
