(* ===== verification/Trie_Run.thy ===== *)
theory Trie_Run
  imports Trie_Hash
begin

text \<open>
  Life of a trie: the states reached by any sequence of \<open>Put\<close>, \<open>Get\<close>, \<open>Delete\<close>, \<open>DeletePrefix\<close>,
  \<open>Hash\<close> and \<open>Commit\<close> with the batch written back, all of \<open>src/trie/trie.go\<close>. Every reachable
  state stands for the finite map the operations describe, and two tries with the same root hash
  stand for the same map.
\<close>

section \<open>Commit with the batch written\<close>

definition commit_db :: "trie \<Rightarrow> (bytes \<times> bytes) list \<Rightarrow> trie" where
  "commit_db t ps = t\<lparr>t_db := apply_puts (t_db t) ps\<rparr>"

lemma commit_keeps:
  assumes sha: "\<And>x. length (sha x) = HashLength"
    and t: "trie_inv sha t" "holds t M" "sized (t_root t)"
    and c: "trie_Commit sha t = (t', r, ps)"
    and cf: "collision_free sha (t_db t) (t_dbprefix t) ps"
  shows "trie_inv sha (commit_db t' ps)" "holds (commit_db t' ps) M"
proof -
  let ?pfx = "t_dbprefix t" and ?db' = "apply_puts (t_db t) ps"
  have "trie_inv sha (commit_db t' ps) \<and> holds (commit_db t' ps) M"
  proof (cases "t_root t = NilNode")
    case True
    with c t show ?thesis by (auto simp: trie_Commit_def apply_puts_def commit_db_def trie_inv_def)
  next
    case False
    obtain m where m: "rep (loadNode (t_db t) ?pfx) False (t_root t) m" "M = m \<circ> keybytesToHex"
      using t(2) by (auto simp: holds_def t_load_def)
    have n: "node_ok sha (t_db t) ?pfx (t_root t)" "loadable (t_root t)" "db_ok sha (t_db t) ?pfx"
      using t(1) False by (auto simp: trie_inv_def)
    have ps: "ps = puts sha (Some ?pfx) (t_root t)"
      and t': "t' = t\<lparr>t_root := hashed sha (Some ?pfx) (t_root t)\<rparr>"
      using c trie_Commit_eq [OF False, of sha] by simp_all
    note db = db_ok_puts [OF sha n(3,1) t(3) ps refl cf]
    have pin: "puts_in (puts sha (Some ?pfx) (t_root t)) ?db'" using db(2) ps by simp
    note root = commit_root [OF sha n(1) t(3) n(2) m(1) db(1) pin]
    show ?thesis using root db(3) n(2) m(2)
      by (auto simp: commit_db_def trie_inv_def holds_def t_load_def t')
  qed
  then show "trie_inv sha (commit_db t' ps)" "holds (commit_db t' ps) M" by auto
qed

section \<open>Reachable tries\<close>

text \<open>
  \<open>evolves sha t M\<close>: the trie \<open>t\<close> is reached from an empty trie over a sound database, and \<open>M\<close> is
  the map the same operations give when run on a map.
\<close>

inductive evolves :: "(bytes \<Rightarrow> bytes) \<Rightarrow> trie \<Rightarrow> (bytes \<rightharpoonup> bytes) \<Rightarrow> bool" for sha where
  ev_new: "db_ok sha db pfx \<Longrightarrow> evolves sha (NewEmptyTrie pfx db) Map.empty"
| ev_put: "evolves sha t M \<Longrightarrow> trie_Put t k v = (t', e) \<Longrightarrow> evolves sha t' (M(k \<mapsto> v))"
| ev_get: "evolves sha t M \<Longrightarrow> trie_Get t k = (t', v, e) \<Longrightarrow> evolves sha t' M"
| ev_delete: "evolves sha t M \<Longrightarrow> trie_Delete t k = (t', b, e) \<Longrightarrow> evolves sha t' (M(k := None))"
| ev_delete_prefix: "evolves sha t M \<Longrightarrow> trie_DeletePrefix t p = (t', b, e) \<Longrightarrow> p \<noteq> [] \<Longrightarrow>
    evolves sha t' (\<lambda>k. if prefix p k then None else M k)"
| ev_hash: "evolves sha t M \<Longrightarrow> trie_Hash sha t = (t', r) \<Longrightarrow> evolves sha t' M"
| ev_commit: "evolves sha t M \<Longrightarrow> trie_Commit sha t = (t', r, ps) \<Longrightarrow> sized (t_root t) \<Longrightarrow>
    collision_free sha (t_db t) (t_dbprefix t) ps \<Longrightarrow> evolves sha (commit_db t' ps) M"

lemma evolves_ok:
  assumes sha: "\<And>x. length (sha x) = HashLength"
  shows "evolves sha t M \<Longrightarrow> holds t M \<and> trie_inv sha t"
proof (induction rule: evolves.induct)
  case (ev_new db pfx)
  then show ?case using holds_empty [of pfx db] by (auto simp: NewEmptyTrie_def trie_inv_def)
next
  case (ev_put t M k v t' e)
  then show ?case using trie_Put_holds [of t M k v] trie_Put_inv by (fastforce simp del: fun_upd_apply)
next
  case (ev_get t M k t' v e)
  then show ?case using trie_Get_holds [of t M k] trie_Get_inv by fastforce
next
  case (ev_delete t M k t' b e)
  then show ?case using trie_Delete_holds [of t M k] trie_Delete_inv by (fastforce simp del: fun_upd_apply)
next
  case (ev_delete_prefix t M p t' b e)
  then show ?case using trie_DeletePrefix_holds [of t M p] trie_DeletePrefix_inv by fastforce
next
  case (ev_hash t M t' r)
  then show ?case using trie_Hash_inv [where sha = sha, OF sha] by blast
next
  case (ev_commit t M t' r ps)
  then show ?case using commit_keeps [where sha = sha, OF sha] by blast
qed

section \<open>The root hash determines the contents\<close>

lemma collision_free_append:
  assumes "collision_free sha db pfx (ps @ qs)"
  shows "collision_free sha db pfx ps" "collision_free sha (apply_puts db ps) pfx qs"
proof -
  show "collision_free sha db pfx ps"
    using assms unfolding collision_free_def by (rule inj_on_subset) auto
  have "v \<in> {v. \<exists>h. length h = HashLength \<and> db (pfx @ h) = Some v} \<union> snd ` set ps"
    if "length h = HashLength" "apply_puts db ps (pfx @ h) = Some v" for h v
    using that by (force simp: apply_puts_eq map_add_Some_iff dest: map_of_SomeD)
  then show "collision_free sha (apply_puts db ps) pfx qs"
    using assms unfolding collision_free_def by - (erule inj_on_subset, auto)
qed

lemma evolves_rep:
  assumes "holds t M" shows "\<exists>m. rep (loadNode (t_db t) (t_dbprefix t)) False (t_root t) m \<and> M = m \<circ> keybytesToHex"
  using assms by (auto simp: holds_def t_load_def)

lemma merkle_EmptyHash:
  assumes "\<And>x. length (sha x) = HashLength" "\<And>x. sha x \<noteq> EmptyHash" "loadable n"
  shows "length (merkle sha n) = HashLength" "merkle sha n \<noteq> EmptyHash"
  using assms by (cases n; simp)+

lemma root_binding_loadable:
  assumes sha: "\<And>x. length (sha x) = HashLength"
    and t: "trie_inv sha t" "holds t M" "sized (t_root t)" "loadable (t_root t)"
    and u: "trie_inv sha u" "holds u N" "sized (t_root u)" "loadable (t_root u)"
    and same: "t_db u = t_db t" "t_dbprefix u = t_dbprefix t"
    and cf: "collision_free sha (t_db t) (t_dbprefix t)
        (puts sha (Some (t_dbprefix t)) (t_root t) @ puts sha (Some (t_dbprefix t)) (t_root u))"
    and eq: "merkle sha (t_root t) = merkle sha (t_root u)"
  shows "M = N"
proof -
  let ?db = "t_db t" and ?pfx = "t_dbprefix t"
  let ?ps = "puts sha (Some ?pfx) (t_root t)" and ?qs = "puts sha (Some ?pfx) (t_root u)"
  let ?db1 = "apply_puts ?db ?ps" and ?db2 = "apply_puts (apply_puts ?db ?ps) ?qs"
  obtain m where m: "rep (loadNode ?db ?pfx) False (t_root t) m" "M = m \<circ> keybytesToHex"
    using evolves_rep [OF t(2)] by blast
  obtain n where n: "rep (loadNode ?db ?pfx) False (t_root u) n" "N = n \<circ> keybytesToHex"
    using evolves_rep [OF u(2)] same by auto
  have ok: "db_ok sha ?db ?pfx" "node_ok sha ?db ?pfx (t_root t)" "node_ok sha ?db ?pfx (t_root u)"
    using t(1) u(1) same by (auto simp: trie_inv_def)
  note db1 = db_ok_puts [OF sha ok(1,2) t(3) refl refl collision_free_append(1) [OF cf]]
  note ok1 = node_ok_mono [OF ok(3) db1(1)]
  note db2 = db_ok_puts [OF sha db1(3) ok1 u(3) refl refl collision_free_append(2) [OF cf]]
  have le: "?db \<subseteq>\<^sub>m ?db2" by (rule map_le_trans [OF db1(1) db2(1)])
  have pin: "puts_in ?ps ?db2" using db1(2) db2(1) by (auto simp: puts_in_def dest: map_le_SomeD)
  note rt = commit_root(4) [OF sha ok(2) t(3,4) m(1) le pin]
  note ru = commit_root(4) [OF sha ok1 u(3,4) rep_mono [OF n(1) db1(1)] db2(1) db2(2)]
  have "m = n" using rt ru rep_fun eq
    unfolding committed_merkle [OF sha ok(2)] committed_merkle [OF sha ok1] by metis
  with m(2) n(2) show ?thesis by simp
qed

lemma root_binding_inv:
  assumes sha: "\<And>x. length (sha x) = HashLength" "\<And>x. sha x \<noteq> EmptyHash"
    and t: "trie_inv sha t" "holds t M" "sized (t_root t)"
    and u: "trie_inv sha u" "holds u N" "sized (t_root u)"
    and same: "t_db u = t_db t" "t_dbprefix u = t_dbprefix t"
    and cf: "collision_free sha (t_db t) (t_dbprefix t)
        (snd (snd (trie_Commit sha t)) @ snd (snd (trie_Commit sha u)))"
    and eq: "snd (trie_Hash sha t) = snd (trie_Hash sha u)"
  shows "M = N"
proof -
  have empty: "N' = (\<lambda>_. None)" if "holds u' N'" "t_root u' = NilNode" for u' N'
    using that by (auto simp: holds_def)
  have nz: "snd (trie_Hash sha u') \<noteq> EmptyHash" if "trie_inv sha u'" "t_root u' \<noteq> NilNode" for u'
    using that merkle_EmptyHash [where sha = sha, OF sha] root_merkle(1) [where sha = sha, OF sha(1) that(1)]
    by (auto simp: trie_inv_def BytesToHash_id)
  have z: "snd (trie_Hash sha u') = EmptyHash" if "t_root u' = NilNode" for u'
    using that by (simp add: trie_Hash_def)
  show ?thesis
  proof (cases "t_root t = NilNode \<or> t_root u = NilNode")
    case True
    then have "t_root t = NilNode \<and> t_root u = NilNode" using nz z t(1) u(1) eq by metis
    then show ?thesis using empty t(2) u(2) by metis
  next
    case False
    then have l: "loadable (t_root t)" "loadable (t_root u)" using t(1) u(1) by (auto simp: trie_inv_def)
    have cf': "collision_free sha (t_db t) (t_dbprefix t)
        (puts sha (Some (t_dbprefix t)) (t_root t) @ puts sha (Some (t_dbprefix t)) (t_root u))"
      using cf False same(2) by (simp add: trie_Commit_eq)
    have "merkle sha (t_root t) = merkle sha (t_root u)"
      using eq root_merkle(1) [where sha = sha, OF sha(1) t(1)] root_merkle(1) [where sha = sha, OF sha(1) u(1)]
        merkle_EmptyHash(1) [where sha = sha, OF sha] l False by (simp add: BytesToHash_id)
    then show ?thesis
      using root_binding_loadable [where sha = sha, OF sha(1) t l(1) u l(2) same cf'] by blast
  qed
qed

section \<open>A concrete hash for examples\<close>

text \<open>A function of the right length that tells the nodes of the small examples apart.\<close>

definition sample_hash :: "bytes \<Rightarrow> bytes" where
  "sample_hash x = 1 # word_of_nat (length x) # take 30 (rev x @ replicate 30 0)"

lemma length_sample_hash: "length (sample_hash x) = HashLength"
  by (simp add: sample_hash_def HashLength_def)

lemma sample_hash_EmptyHash: "sample_hash x \<noteq> EmptyHash"
  by (simp add: sample_hash_def EmptyHash_def HashLength_def numeral_eq_Suc)

lemma db_ok_empty: "db_ok sha Map.empty pfx"
  by (simp add: db_ok_def)

lemma evolves_Put: "evolves sha t M \<Longrightarrow> evolves sha (fst (trie_Put t k v)) (M(k \<mapsto> v))"
  by (metis ev_put prod.collapse)

lemma evolves_Delete: "evolves sha t M \<Longrightarrow> evolves sha (fst (trie_Delete t k)) (M(k := None))"
  by (metis ev_delete prod.collapse)

fun puts_of :: "(bytes \<times> bytes) list \<Rightarrow> trie \<Rightarrow> trie" where
  "puts_of [] t = t"
| "puts_of ((k, v) # kvs) t = puts_of kvs (fst (trie_Put t k v))"

lemma evolves_puts_of: "evolves sha t M \<Longrightarrow> evolves sha (puts_of kvs t) (M ++ map_of (rev kvs))"
proof (induction kvs t arbitrary: M rule: puts_of.induct)
  case (2 k v kvs t)
  have "M(k \<mapsto> v) ++ map_of (rev kvs) = M ++ map_of (rev ((k, v) # kvs))"
    by (simp add: map_add_def fun_eq_iff split: option.splits)
  then show ?case using "2.IH" [OF evolves_Put [OF "2.prems"]] by (simp del: fun_upd_apply)
qed simp

lemmas sample_run = evolves_puts_of [OF ev_new [OF db_ok_empty]]

lemma collision_free_empty:
  "collision_free sha Map.empty pfx ps \<longleftrightarrow> distinct (map sha (remdups (map snd ps)))"
  by (simp add: collision_free_def distinct_map)

section \<open>Properties\<close>

text \<open>
  C1: a trie reached by any sequence of operations behaves as the finite map those operations
  describe. \<open>Get\<close> returns the stored value, \<open>Put\<close> and \<open>Delete\<close> update exactly their key, \<open>Delete\<close>
  reports whether the key was there, and \<open>DeletePrefix\<close> removes exactly the keys with the prefix,
  reporting false only when there is none. No operation returns an error, runs out of fuel or
  indexes out of range.
\<close>

theorem trie_refines_map:
  assumes "\<And>x. length (sha x) = HashLength" and "evolves sha t M"
  shows "(\<exists>t'. trie_Get t k = (t', M k, None) \<and> evolves sha t' M)
    \<and> (\<exists>t'. trie_Put t k v = (t', None) \<and> evolves sha t' (M(k \<mapsto> v)))
    \<and> (\<exists>t'. trie_Delete t k = (t', M k \<noteq> None, None) \<and> evolves sha t' (M(k := None)))
    \<and> (\<exists>t' b. trie_DeletePrefix t (x # xs) = (t', b, None)
          \<and> evolves sha t' (\<lambda>k. if prefix (x # xs) k then None else M k)
          \<and> (b \<or> (\<forall>ys. M (x # xs @ ys) = None)))"
proof -
  have h: "holds t M" using evolves_ok assms by blast
  note ev = ev_get [OF assms(2)] ev_put [OF assms(2)] ev_delete [OF assms(2)]
    ev_delete_prefix [OF assms(2), of "x # xs"]
  have "\<exists>t'. trie_Get t k = (t', M k, None) \<and> evolves sha t' M"
    using trie_Get_holds [OF h] ev(1) by blast
  moreover have "\<exists>t'. trie_Put t k v = (t', None) \<and> evolves sha t' (M(k \<mapsto> v))"
    using trie_Put_holds [OF h] ev(2) by blast
  moreover have "\<exists>t'. trie_Delete t k = (t', M k \<noteq> None, None) \<and> evolves sha t' (M(k := None))"
    using trie_Delete_holds [OF h] ev(3) by blast
  moreover obtain t' b where "trie_DeletePrefix t (x # xs) = (t', b, None)"
    "\<not> b \<longrightarrow> (\<forall>k. prefix (x # xs) k \<longrightarrow> M k = None)"
    using trie_DeletePrefix_holds [OF h, of "x # xs"] by auto
  moreover have "prefix (x # xs) (x # xs @ ys)" for ys by simp
  ultimately show ?thesis using ev(4) by blast
qed

theorem trie_refines_map_witness:
  "\<exists>t'. trie_Get (puts_of [([0x12], [7]), ([0x12, 0x34], [8])] (NewEmptyTrie [1] Map.empty)) [0x12]
     = (t', Some [7], None)"
proof -
  let ?t = "puts_of [([0x12], [7]), ([0x12, 0x34], [8])] (NewEmptyTrie [1] Map.empty)"
  have "evolves sample_hash ?t (Map.empty ++ map_of (rev [([0x12], [7]), ([0x12, 0x34], [8])]))"
    by (rule sample_run)
  from trie_refines_map [OF length_sample_hash this, of "[0x12]" "[]" 0 "[]"] show ?thesis by auto
qed

text \<open>
  C2: after \<open>Commit\<close> and the write of its batch, a trie opened by the returned root hash holds the
  same entries, provided no two distinct node encodings of the database and the batch collide under
  the hash.
\<close>

theorem Commit_then_NewTrie:
  assumes "\<And>x. length (sha x) = HashLength" and "\<And>x. sha x \<noteq> EmptyHash"
    and "evolves sha t M" and "sized (t_root t)" and "trie_Commit sha t = (t', r, ps)"
    and "collision_free sha (t_db t) (t_dbprefix t) ps"
  shows "\<exists>t2. NewTrie r (t_dbprefix t) (apply_puts (t_db t) ps) = Inr t2 \<and> holds t2 M
    \<and> (\<exists>t3. trie_Get t2 k = (t3, M k, None))"
proof -
  have t: "holds t M" "trie_inv sha t" using evolves_ok assms(1,3) by blast+
  from commit_reload [where sha = sha, OF assms(1,2) t(2,1) assms(4-6)] obtain t2 where
    "NewTrie r (t_dbprefix t) (apply_puts (t_db t) ps) = Inr t2" "holds t2 M" by blast
  then show ?thesis using trie_Get_holds by blast
qed

definition sample_trie :: trie where
  "sample_trie = puts_of [([0x12], [7]), ([0x12, 0x34], [8]), ([0x13], [9])] (NewEmptyTrie [1] Map.empty)"

lemma sample_trie_evolves:
  "evolves sample_hash sample_trie [[0x12] \<mapsto> [7], [0x12, 0x34] \<mapsto> [8], [0x13] \<mapsto> [9]]"
  using sample_run [of sample_hash "[([0x12], [7]), ([0x12, 0x34], [8]), ([0x13], [9])]" "[1]"]
  by (simp add: sample_trie_def del: puts_of.simps)

lemma sample_trie_sized: "sized (t_root sample_trie)"
proof -
  have "t_root sample_trie = ExtensionNode newNode [1] (BranchNode newNode
     [NilNode, NilNode, BranchNode newNode (replicate 3 NilNode @ [LeafNode newNode [4, 16] [8]]
        @ replicate 12 NilNode @ [LeafNode (dirty newNode) [] [7]]),
      LeafNode newNode [16] [9], NilNode, NilNode, NilNode, NilNode, NilNode, NilNode, NilNode,
      NilNode, NilNode, NilNode, NilNode, NilNode, NilNode])"
    by code_simp
  then show ?thesis by (simp add: lim_def list_all_iff)
qed

lemma trie_Put_db: "t_db (fst (trie_Put t k v)) = t_db t" "t_dbprefix (fst (trie_Put t k v)) = t_dbprefix t"
  by (simp_all add: trie_Put_def Let_def split: sum.splits)

lemma puts_of_db: "t_db (puts_of kvs t) = t_db t" "t_dbprefix (puts_of kvs t) = t_dbprefix t"
  by (induction kvs t rule: puts_of.induct) (simp_all add: trie_Put_db)

lemma sample_trie_db: "t_db sample_trie = Map.empty" "t_dbprefix sample_trie = [1]"
  by (simp_all only: sample_trie_def puts_of_db) (simp_all add: NewEmptyTrie_def)

theorem Commit_then_NewTrie_witness:
  "\<exists>t2 t3. NewTrie (fst (snd (trie_Commit sample_hash sample_trie))) [1]
       (apply_puts Map.empty (snd (snd (trie_Commit sample_hash sample_trie)))) = Inr t2
     \<and> trie_Get t2 [0x12, 0x34] = (t3, Some [8], None)"
proof -
  have "collision_free sample_hash Map.empty [1] (snd (snd (trie_Commit sample_hash sample_trie)))"
    unfolding collision_free_empty by code_simp
  then show ?thesis
    using Commit_then_NewTrie [OF length_sample_hash sample_hash_EmptyHash sample_trie_evolves sample_trie_sized,
        of "fst (trie_Commit sample_hash sample_trie)" "fst (snd (trie_Commit sample_hash sample_trie))"
          "snd (snd (trie_Commit sample_hash sample_trie))" "[0x12, 0x34]"]
    by (auto simp: sample_trie_db)
qed

text \<open>
  C3: the root hash is the Merkle hash of the tree, computed bottom up from the encodings of its
  nodes: the hashes cached in nodes by earlier calls are never stale. \<open>Hash\<close> and \<open>Commit\<close> return the
  same root.
\<close>

theorem root_is_merkle_hash:
  assumes "\<And>x. length (sha x) = HashLength" and "evolves sha t M"
  shows "snd (trie_Hash sha t) =
      (if t_root t = NilNode then EmptyHash else BytesToHash (merkle sha (t_root t)))
    \<and> fst (snd (trie_Commit sha t)) = snd (trie_Hash sha t)"
  using root_merkle [where sha = sha, OF assms(1)] evolves_ok [where sha = sha, OF assms] by blast

theorem root_is_merkle_hash_witness:
  "fst (snd (trie_Commit sample_hash sample_trie)) = snd (trie_Hash sample_hash sample_trie)"
  using root_is_merkle_hash [OF length_sample_hash sample_trie_evolves] by blast

text \<open>
  C4: the root hash binds the contents. Two tries over one database with the same root hash hold
  the same entries, provided the encodings involved do not collide.
\<close>

theorem root_hash_binding:
  assumes "\<And>x. length (sha x) = HashLength" and "\<And>x. sha x \<noteq> EmptyHash"
    and "evolves sha t M" and "sized (t_root t)" and "evolves sha u N" and "sized (t_root u)"
    and "t_db u = t_db t" and "t_dbprefix u = t_dbprefix t"
    and "collision_free sha (t_db t) (t_dbprefix t)
        (snd (snd (trie_Commit sha t)) @ snd (snd (trie_Commit sha u)))"
    and "snd (trie_Hash sha t) = snd (trie_Hash sha u)"
  shows "M = N"
proof -
  have t: "holds t M" "trie_inv sha t" and u: "holds u N" "trie_inv sha u"
    using evolves_ok assms(1,3,5) by blast+
  show ?thesis
    by (rule root_binding_inv [where sha = sha and t = t and u = u, OF assms(1,2) t(2,1) assms(4) u(2,1) assms(6-10)])
qed

theorem root_hash_binding_witness:
  "[[0x12] \<mapsto> [7], [0x12, 0x34] \<mapsto> [8], [0x13] \<mapsto> [9 :: byte]] =
     Map.empty ++ map_of (rev [([0x13 :: byte], [9]), ([0x12, 0x34], [8]), ([0x12], [7])])"
proof -
  let ?u = "puts_of [([0x13], [9]), ([0x12, 0x34], [8]), ([0x12], [7])] (NewEmptyTrie [1] Map.empty)"
  have "t_root ?u = t_root sample_trie" by code_simp
  then have u: "?u = sample_trie"
    by (intro trie.equality) (simp_all only: puts_of_db sample_trie_db, simp_all add: NewEmptyTrie_def)
  have "collision_free sample_hash Map.empty [1] (snd (snd (trie_Commit sample_hash sample_trie)) @
      snd (snd (trie_Commit sample_hash sample_trie)))"
    unfolding collision_free_empty by code_simp
  then show ?thesis
    using root_hash_binding [OF length_sample_hash sample_hash_EmptyHash sample_trie_evolves sample_trie_sized
        sample_run [of _ "[([0x13], [9]), ([0x12, 0x34], [8]), ([0x12], [7])]" "[1]", unfolded u] sample_trie_sized]
    by (simp only: sample_trie_db)
qed

text \<open>A new key that leaves a one-nibble extension at its first nibble, and its deletion.\<close>

lemma insert_beside_extension:
  assumes "unat x < 17" "unat y < 17" "y \<noteq> x"
  shows "trie_insert load (Suc (Suc f)) (ExtensionNode h [x] next) (y # ks) v
    = Inr (BranchNode newNode (emptyChildren[unat x := next, unat y := LeafNode newNode ks v]))"
  using assms by (simp add: insertExtensionNode_def insertBranch_def setChild_def emptyChildren_def numBranchChildren_def)

lemma delete_beside_branch:
  assumes "unat x < 17" "unat y < 17" "y \<noteq> x"
  shows "trie_delete load (Suc (Suc f)) (BranchNode newNode (emptyChildren[unat x := BranchNode g cs, unat y := LeafNode newNode ks v])) (y # ks) False
    = DelOk True (BranchNode newNode (emptyChildren[unat x := BranchNode g cs]))"
proof -
  let ?cs = "emptyChildren[unat x := BranchNode g cs]"
  have len: "length emptyChildren = 17" by (simp add: emptyChildren_def numBranchChildren_def)
  have xy: "unat x \<noteq> unat y" using assms(3) by (simp add: word_unat_eq_iff)
  have "emptyChildren ! unat y = NilNode" using assms(2) by (simp add: emptyChildren_def numBranchChildren_def)
  then have restored: "?cs[unat y := NilNode] = ?cs" using xy by (metis list_update_id nth_list_update_neq)
  have child: "?cs[unat y := LeafNode newNode ks v] ! unat y = LeafNode newNode ks v" using assms(2) len by simp
  have leaf: "matchkeyLen ks ks = length ks" using matchkeyLen_prefix [of ks ks] by simp
  have dirty: "dirty newNode = newNode" by (simp add: SetStatus_def newNode_def)
  have two: "?cs ! i = NilNode \<or> ?cs ! i = BranchNode g cs" if "i < 17" for i
    using that len by (cases "i = unat x") (auto simp: emptyChildren_def numBranchChildren_def)
  have pos: "snd (countChildren ?cs) = 1 \<Longrightarrow> fst (countChildren ?cs) < 17" using countChildren_one [of ?cs] len by (cases "countChildren ?cs") auto
  have tail: "deleteBranchTail load newNode ?cs = DelOk True (BranchNode newNode ?cs)"
    using two [of "fst (countChildren ?cs)"] pos
    by (auto simp: deleteBranchTail_def Let_def dirty split: prod.splits)
  show ?thesis
    using assms len by (simp add: child leaf list_update_overwrite restored tail)
qed

text \<open>
  C5: the root hash is not a function of the contents alone. Take any reached trie whose root is an extension of one
  nibble above a branch, and any key that starts with another nibble, so that it is not in the trie. Putting the
  key and deleting it gives back the same contents. But the root is then a branch with one child, and its hash
  is another one, for every hash function that does not collide on the encodings of the two roots.
\<close>

theorem root_depends_on_history:
  assumes "\<And>x. length (sha x) = HashLength" and "evolves sha t M"
    and "t_root t = ExtensionNode h [x] (BranchNode g cs)" and "hd (keybytesToHex k) \<noteq> x"
    and "t' = fst (trie_Delete (fst (trie_Put t k v)) k)" and "m = merkle sha (BranchNode g cs)"
    and "inj_on sha {encodeExtension [x] m, encodeBranch ((replicate 17 [])[unat x := m])}"
  shows "evolves sha t' M \<and> M k = None \<and> snd (trie_Hash sha t') \<noteq> snd (trie_Hash sha t)"
proof -
  have ok: "holds t M" "trie_inv sha t" using evolves_ok [where sha = sha, OF assms(1,2)] by auto
  obtain y ks where y: "keybytesToHex k = y # ks" using hexkey_keybytesToHex [of k] by (cases "keybytesToHex k") auto
  have yx: "y \<noteq> x" using assms(4) y by simp
  have hx: "unat x < 17" "unat y < 17"
  proof -
    show "unat y < 17" using hexkey_keybytesToHex [of k] by (auto simp: y hexkey_Cons_iff)
    obtain mm where "rep (t_load t) False (t_root t) mm" using ok(1) by (auto simp: holds_def)
    then show "unat x < 17" by (auto simp: assms(3) rep_Ext_iff nibbles_def)
  qed
  define f where "f = 2 * length (y # ks) + 1"
  have kf: "key_fuel (y # ks) = Suc (Suc f)" by (simp add: key_fuel_def f_def)
  have put: "trie_Put t k v = (t\<lparr>t_root := BranchNode newNode (emptyChildren[unat x := BranchNode g cs, unat y := LeafNode newNode ks v])\<rparr>, None)"
    using insert_beside_extension [OF hx yx, of "t_load t" f h "BranchNode g cs" ks v]
    by (simp add: trie_Put_def y kf assms(3) Let_def del: trie_insert.simps)
  let ?r = "BranchNode newNode (emptyChildren[unat x := BranchNode g cs])"
  have t': "t' = t\<lparr>t_root := ?r\<rparr>"
    using delete_beside_branch [OF hx yx, of "t_load t" f g cs ks v]
    by (simp add: assms(5) put trie_Delete_def runDelete_def y kf del: trie_delete.simps)
  have Mk: "M k = None"
  proof -
    obtain t1 where "trie_Get t k = (t1, M k, None)" using trie_Get_holds [OF ok(1)] by blast
    then show ?thesis using yx by (simp add: trie_Get_def assms(3) kf y Let_def split: prod.splits)
  qed
  have "evolves sha t' ((M(k \<mapsto> v))(k := None))" unfolding assms(5) by (intro evolves_Delete evolves_Put assms(2))
  moreover have "(M(k \<mapsto> v))(k := None) = M" using Mk by auto
  ultimately have ev: "evolves sha t' M" by simp
  then have ok': "trie_inv sha t'" using evolves_ok [where sha = sha, OF assms(1)] by auto
  have len: "length m = HashLength" by (simp add: assms(6) assms(1))
  have root': "merkle sha ?r = sha (encodeBranch ((replicate 17 [])[unat x := m]))"
    by (simp add: assms(6) emptyChildren_def numBranchChildren_def map_update)
  have root: "merkle sha (t_root t) = sha (encodeExtension [x] m)" by (simp add: assms(3,6))
  have "list_all hash_or_nil ((replicate 17 [])[unat x := m])"
    using len by (intro list_all_update) (simp_all add: hash_or_nil_def list_all_iff)
  from decodeNode_encodeBranch [OF this] decodeNode_encodeExtension [of "[x]" m]
  have "encodeExtension [x] m \<noteq> encodeBranch ((replicate 17 [])[unat x := m])"
    using lim_HashLength [OF len] by (auto simp: lim_def)
  then have "merkle sha ?r \<noteq> merkle sha (t_root t)" using assms(7) unfolding root root' by (auto simp: inj_on_def)
  moreover have "length (merkle sha ?r) = HashLength" "length (merkle sha (t_root t)) = HashLength" unfolding root root' by (simp_all add: assms(1))
  ultimately have "snd (trie_Hash sha t') \<noteq> snd (trie_Hash sha t)"
    using root_merkle(1) [where sha = sha, OF assms(1) ok'] root_merkle(1) [where sha = sha, OF assms(1) ok(2)]
    by (simp add: t' assms(3) BytesToHash_id)
  then show ?thesis using ev Mk by blast
qed

definition shared_trie :: trie where
  "shared_trie = puts_of [([0x11], [7]), ([0x12], [8])] (NewEmptyTrie [1] Map.empty)"

fun below :: "noder \<Rightarrow> noder" where
  "below (ExtensionNode h k c) = c"
| "below n = n"

theorem root_depends_on_history_witness:
  "evolves sample_hash (fst (trie_Delete (fst (trie_Put shared_trie [0x21] [9])) [0x21])) [[0x11] \<mapsto> [7], [0x12] \<mapsto> [8]]
   \<and> snd (trie_Hash sample_hash (fst (trie_Delete (fst (trie_Put shared_trie [0x21] [9])) [0x21])))
       \<noteq> snd (trie_Hash sample_hash shared_trie)"
proof -
  have e: "evolves sample_hash shared_trie [[0x11] \<mapsto> [7], [0x12] \<mapsto> [8]]"
    unfolding shared_trie_def using sample_run [of sample_hash "[([0x11], [7]), ([0x12], [8])]" "[1]"] by simp
  have "case t_root shared_trie of ExtensionNode h k (BranchNode g cs) \<Rightarrow> k = [1] | _ \<Rightarrow> False" by code_simp
  then obtain h g cs where r: "t_root shared_trie = ExtensionNode h [1] (BranchNode g cs)" by (auto split: noder.splits)
  have "sample_hash (encodeExtension [1] (merkle sample_hash (below (t_root shared_trie))))
      \<noteq> sample_hash (encodeBranch ((replicate 17 [])[1 := merkle sample_hash (below (t_root shared_trie))]))" by code_simp
  then have c: "sample_hash (encodeExtension [1] (merkle sample_hash (BranchNode g cs)))
      \<noteq> sample_hash (encodeBranch ((replicate 17 [])[unat (1 :: byte) := merkle sample_hash (BranchNode g cs)]))"
    by (simp only: r below.simps unat_1 not_False_eq_True)
  have "hd (keybytesToHex [0x21]) \<noteq> 1" by code_simp
  then show ?thesis
    using root_depends_on_history [OF length_sample_hash e r _ refl refl, of "[0x21]" "[9]"] c by (simp only: inj_on_insert) auto
qed

end
