(* ===== verification/Trie_Proof.thy ===== *)
theory Trie_Proof
  imports Trie_Run
begin

text \<open>
  Merkle proofs, \<open>src/trie/proof.go\<close>: \<open>GetProof\<close> collects the encoded nodes on the path of a key and
  \<open>VerifyProof\<close> walks them from a root hash. A value that \<open>VerifyProof\<close> accepts against the root of
  a trie is the value the trie holds, whatever the proof contains, and the proof \<open>GetProof\<close> builds
  for a key whose leaf it reaches is accepted.
\<close>

section \<open>Definitions\<close>

text \<open>\<open>encodeNode\<close> of \<open>src/trie/trie.go\<close>: a node with its children as hashes.\<close>

fun encodeNode :: "(bytes \<Rightarrow> bytes) \<Rightarrow> noder \<Rightarrow> bytes" where
  "encodeNode sha (LeafNode n k v) = encodeLeaf k v"
| "encodeNode sha (ExtensionNode n k next) = encodeExtension k (fst (nodeHash sha None next))"
| "encodeNode sha (BranchNode n cs) = encodeBranch (map (\<lambda>c. fst (nodeHash sha None c)) cs)"
| "encodeNode sha _ = []"

text \<open>The nodes the first loop of \<open>GetProof\<close> collects.\<close>

primrec proofPath :: "node_loader \<Rightarrow> nat \<Rightarrow> noder \<Rightarrow> bytes \<Rightarrow> trie_error + noder list" where
  "proofPath load 0 = (\<lambda>tn key. Inl OutOfFuel)"
| "proofPath load (Suc fuel) = (\<lambda>tn key.
     if key = [] \<or> tn = NilNode then Inr []
     else case tn of
       ExtensionNode n nkey next \<Rightarrow>
         if length key < length nkey \<or> nkey \<noteq> take (length nkey) key then Inr [tn]
         else map_sum id ((#) tn) (proofPath load fuel next (drop (length nkey) key))
     | BranchNode n cs \<Rightarrow>
         if unat (hd key) < length cs
         then map_sum id ((#) tn) (proofPath load fuel (cs ! unat (hd key)) (tl key))
         else Inl IndexPanic
     | HashNode h \<Rightarrow>
         (case load h of Inl e \<Rightarrow> Inl e | Inr n \<Rightarrow> proofPath load fuel n key)
     | LeafNode n nkey nvalue \<Rightarrow>
         if length nkey \<le> length key \<and> nkey = take (length nkey) key then Inr [tn] else Inr []
     | NilNode \<Rightarrow> Inr [])"

type_synonym proof_map = "bytes \<rightharpoonup> bytes"

definition proofOf :: "(bytes \<Rightarrow> bytes) \<Rightarrow> noder list \<Rightarrow> proof_map" where
  "proofOf sha nodes = fold (\<lambda>n p. p(fst (nodeHash sha None n) \<mapsto> encodeNode sha n)) nodes Map.empty"

text \<open>
  Hashing the collected nodes caches their hashes: when the root is held in memory and was
  collected, that hashes the whole trie. Nodes loaded on the way are not kept.
\<close>

definition GetProof :: "(bytes \<Rightarrow> bytes) \<Rightarrow> trie \<Rightarrow> bytes \<Rightarrow> trie \<times> proof_map \<times> trie_error option" where
  "GetProof sha t key =
     (let k = keybytesToHex key
      in case proofPath (t_load t) (key_fuel k) (t_root t) k of
           Inl e \<Rightarrow> (t, Map.empty, Some e)
         | Inr nodes \<Rightarrow>
             (case t_root t of
                HashNode _ \<Rightarrow> t
              | root \<Rightarrow> if nodes = [] then t else t\<lparr>t_root := fst (snd (nodeHash sha None root))\<rparr>,
              proofOf sha nodes, None))"

text \<open>\<open>get\<close> of \<open>proof.go\<close>: follows the key inside a decoded node, up to a hash, a leaf or nothing.\<close>

function proof_get :: "noder \<Rightarrow> bytes \<Rightarrow> trie_error + bytes \<times> noder" where
  "proof_get tn key =
     (if length key = 0 then Inr ([], NilNode)
      else case tn of
        ExtensionNode n nkey next \<Rightarrow>
          if length key < length nkey \<or> nkey \<noteq> take (length nkey) key then Inr ([], NilNode)
          else proof_get next (drop (length nkey) key)
      | BranchNode n cs \<Rightarrow>
          if unat (hd key) < length cs then proof_get (cs ! unat (hd key)) (tl key) else Inl IndexPanic
      | HashNode h \<Rightarrow> Inr (key, tn)
      | NilNode \<Rightarrow> Inr (key, NilNode)
      | LeafNode n nkey nvalue \<Rightarrow>
          if length key < length nkey \<or> nkey \<noteq> take (length nkey) key then Inr ([], NilNode)
          else Inr ([], tn))"
  by pat_completeness auto
termination
proof (relation "measure (size \<circ> fst)")
  fix tn :: noder and key :: bytes and n cs
  assume "tn = BranchNode n cs" "unat (hd key) < length cs"
  then show "((cs ! unat (hd key), tl key), tn, key) \<in> measure (size \<circ> fst)"
    using size_list_estimation' [OF nth_mem, of "unat (hd key)" cs _ size] by (simp add: less_Suc_eq_le)
qed auto

declare proof_get.simps [simp del]

datatype proof_error =
    ProofNodeMissing nat | BadProofNode nat trie_error | ProofHashMismatch nat
  | ProofPanic | ProofOutOfFuel

fun setDirty :: "noder \<Rightarrow> noder" where
  "setDirty (LeafNode n k v) = LeafNode (dirty n) k v"
| "setDirty (ExtensionNode n k next) = ExtensionNode (dirty n) k next"
| "setDirty (BranchNode n cs) = BranchNode (dirty n) cs"
| "setDirty n = n"

primrec verifyLoop ::
  "(bytes \<Rightarrow> bytes) \<Rightarrow> proof_map \<Rightarrow> nat \<Rightarrow> nat \<Rightarrow> bytes \<Rightarrow> bytes \<Rightarrow> proof_error + bytes option" where
  "verifyLoop sha proof 0 = (\<lambda>i wantHash key. Inl ProofOutOfFuel)"
| "verifyLoop sha proof (Suc fuel) = (\<lambda>i wantHash key.
     case proof wantHash of
       None \<Rightarrow> Inl (ProofNodeMissing i)
     | Some encoded \<Rightarrow>
         (case decodeNode wantHash encoded of
            Inl e \<Rightarrow> Inl (BadProofNode i e)
          | Inr n \<Rightarrow>
              (let (h, n', _) = nodeHash sha None (setDirty n)
               in if wantHash \<noteq> h then Inl (ProofHashMismatch i)
                  else case proof_get n' key of
                    Inl _ \<Rightarrow> Inl ProofPanic
                  | Inr (keyrest, cld) \<Rightarrow>
                      (case cld of
                         HashNode hn \<Rightarrow>
                           verifyLoop sha proof fuel (Suc i)
                             (take HashLength hn @ drop (length hn) wantHash) keyrest
                       | LeafNode _ _ v \<Rightarrow> Inr (Some v)
                       | _ \<Rightarrow> Inr None))))"

definition VerifyProof ::
  "(bytes \<Rightarrow> bytes) \<Rightarrow> nat \<Rightarrow> bytes \<Rightarrow> bytes \<Rightarrow> proof_map \<Rightarrow> proof_error + bytes option" where
  "VerifyProof sha fuel rootHash key proof = verifyLoop sha proof fuel 0 rootHash (keybytesToHex key)"

section \<open>Decoded nodes\<close>

lemma rlp_Split_length:
  "rlp_Split b = Inr (k, v, r) \<Longrightarrow> length v \<le> length b \<and> length r \<le> length b"
  by (auto simp: rlp_Split_def split: sum.splits)

lemma rlp_SplitString_length:
  "rlp_SplitString b = Inr (v, r) \<Longrightarrow> length v \<le> length b \<and> length r \<le> length b"
  by (auto simp: rlp_SplitString_def dest: rlp_Split_length split: sum.splits if_splits)

lemma rlp_SplitList_length:
  "rlp_SplitList b = Inr (v, r) \<Longrightarrow> length v \<le> length b \<and> length r \<le> length b"
  by (auto simp: rlp_SplitList_def dest: rlp_Split_length split: sum.splits if_splits)

definition is_stub :: "noder \<Rightarrow> bool" where
  "is_stub c \<longleftrightarrow> hash_or_nil (node_Hash c) \<and> c = stub (node_Hash c)"

lemma decodeChildren_stub:
  "decodeChildren i b = Inr cs \<Longrightarrow> length cs = i \<and> list_all is_stub cs"
  by (induction i arbitrary: b cs)
    (auto simp: is_stub_def hash_or_nil_def stub_def Let_def HashLength_def split: sum.splits prod.splits if_splits)

text \<open>The forms a decoded node can have.\<close>

lemma decodeNode_cases:
  assumes "decodeNode h v = Inr n" "length v < lim"
  obtains k w where "n = LeafNode (newPersistedNode h) k w" "length k < lim" "length w < lim"
  | k w where "n = ExtensionNode (newPersistedNode h) k (HashNode w)" "length k < lim" "length w < lim"
  | cs where "n = BranchNode (newPersistedNode h) cs" "length cs = 17" "list_all is_stub cs"
proof -
  obtain vals r c where vals: "rlp_SplitList v = Inr (vals, r)" "rlp_CountValues vals = Inr c"
    using assms(1) by (auto simp: decodeNode_def split: if_splits sum.splits)
  then have l: "length vals < lim" using rlp_SplitList_length assms(2) by fastforce
  consider "decodeBranchNode h vals = Inr n" | "decodeLeafNode h vals = Inr n"
    | "decodeExtensionNode h vals = Inr n"
    using assms(1) vals by (auto simp: decodeNode_def split: if_splits)
  then show ?thesis
  proof cases
    case 1
    then obtain elems cs where "decodeChildren 17 elems = Inr cs" "n = BranchNode (newPersistedNode h) cs"
      by (auto simp: decodeBranchNode_def numBranchChildren_def split: sum.splits if_splits)
    then show ?thesis using that(3) decodeChildren_stub by blast
  next
    case 2
    then show ?thesis using that(1) l
      by (fastforce simp: decodeLeafNode_def dest: rlp_SplitString_length split: sum.splits)
  next
    case 3
    then show ?thesis using that(2) l
      by (fastforce simp: decodeExtensionNode_def dest: rlp_SplitString_length split: sum.splits)
  qed
qed

lemma stubs_id: "list_all is_stub cs \<Longrightarrow> map (\<lambda>c. stub (node_Hash c)) cs = cs"
  by (induction cs) (auto simp: is_stub_def)

lemma decode_reencode:
  assumes "decodeNode h v = Inr n" "length v < lim"
  shows "decodeNode h (node_enc n) = Inr n" "loadable n"
proof -
  have "decodeNode h (node_enc n) = Inr n \<and> loadable n"
    using assms
  proof (cases rule: decodeNode_cases)
    case (3 cs)
    then have "list_all hash_or_nil (map node_Hash cs)" by (auto simp: list_all_iff is_stub_def)
    then show ?thesis using 3 decodeNode_encodeBranch [of "map node_Hash cs" h] stubs_id [OF 3(3)]
      by (simp add: comp_def)
  qed (simp_all add: decodeNode_encodeLeaf decodeNode_encodeExtension)
  then show "decodeNode h (node_enc n) = Inr n" "loadable n" by auto
qed

lemma stub_nodeHash: "is_stub c \<Longrightarrow> nodeHash sha b c = (node_Hash c, c, [])"
  by (metis is_stub_def stub_def nodeHash.simps(1,2) node_Hash.simps(1,2))

lemma nodeHash_decoded:
  assumes "decodeNode h v = Inr n" "length v < lim" "length h = HashLength"
    and sha: "\<And>x. length (sha x) = HashLength"
  shows "fst (nodeHash sha None (setDirty n)) = sha (node_enc n)"
  using assms(1,2)
proof (cases rule: decodeNode_cases)
  case (3 cs)
  have "map (\<lambda>c. fst (nodeHash sha None c)) cs = map node_Hash cs"
    using 3(3) by (auto simp: list_all_iff stub_nodeHash)
  then show ?thesis using 3 assms(3) sha
    by (simp add: hashKnown_def finishHash_def newPersistedNode_def SetStatus_def SetHash_ok hash_or_nil_def
        comp_def cong: map_cong)
qed (use assms(3) sha in \<open>simp_all add: hashKnown_def finishHash_def newPersistedNode_def SetStatus_def
       SetHash_ok hash_or_nil_def\<close>)

section \<open>Soundness\<close>

lemma proof_get_sound:
  assumes "rep load t n m"
  shows "node_ok sha db pfx n \<Longrightarrow> tailkey t key \<Longrightarrow> proof_get n key = Inr (rest, c) \<Longrightarrow>
    (case c of
       HashNode h \<Rightarrow> length h = HashLength \<and> tailkey False rest
         \<and> (\<exists>m'. rep load False (HashNode h) m' \<and> m key = m' rest)
     | LeafNode _ _ v \<Rightarrow> m key = Some v
     | _ \<Rightarrow> True)"
  using assms
proof (induction n arbitrary: key m t)
  case (HashNode h)
  then show ?case
    by (subst (asm) proof_get.simps) (auto simp: tailkey_def split: if_splits)
next
  case (LeafNode hd k v)
  then have "tailkey t k" "m = [k \<mapsto> v]" by (auto elim: rep_LeafE)
  moreover have "k = key" if "length k \<le> length key" "k = take (length k) key"
    using that \<open>tailkey t k\<close> LeafNode.prems(2) tailkey_prefix_eq take_is_prefix by metis
  ultimately show ?case using LeafNode.prems(3)
    by (subst (asm) proof_get.simps) (auto split: if_splits)
next
  case (ExtensionNode hd k "next")
  from ExtensionNode.prems(4) obtain m' where m': "rep load False next m'" "m = mprefix k m'" "nibbles k" "\<not> t"
    by (auto elim: rep_ExtE)
  show ?case
  proof (cases "key = [] \<or> length key < length k \<or> k \<noteq> take (length k) key")
    case True
    then show ?thesis using ExtensionNode.prems(3)
      by (subst (asm) proof_get.simps) (auto split: if_splits)
  next
    case False
    then obtain y where y: "key = k @ y" by (metis append_take_drop_id)
    have "tailkey False y"
      using ExtensionNode.prems(2) m' y by (simp add: tailkey_def hexkey_append)
    moreover have "proof_get next y = Inr (rest, c)"
      using ExtensionNode.prems(3) False y by (subst (asm) proof_get.simps) (auto split: if_splits)
    moreover have "m key = m' y" using m'(2) y by (simp add: mprefix_def)
    ultimately show ?thesis using ExtensionNode.IH [where key = y and t = False and m = m'] ExtensionNode.prems(1) m'(1)
      by (auto split: noder.splits)
  qed
next
  case (BranchNode hd cs)
  from BranchNode.prems(4) obtain ms where ms: "m = mbranch ms" "length cs = 17" "\<not> t"
    "\<And>i. i < 17 \<Longrightarrow> rep load (i = 16) (cs ! i) (ms i)" by (auto elim: rep_BranchE)
  show ?case
  proof (cases key)
    case Nil
    then show ?thesis using BranchNode.prems(3) by (subst (asm) proof_get.simps) auto
  next
    case (Cons x ks)
    then have x: "unat x < 17" "tailkey (unat x = 16) ks"
      using BranchNode.prems(2) ms(3) by (auto simp: tailkey_def [of False] hexkey_Cons_iff)
    have "proof_get (cs ! unat x) ks = Inr (rest, c)"
      using BranchNode.prems(3) Cons x ms(2) by (subst (asm) proof_get.simps) (auto split: if_splits)
    moreover have "node_ok sha db pfx (cs ! unat x)"
      using BranchNode.prems(1) list_all_nth [of "node_ok sha db pfx" cs] x(1) by simp
    moreover have "m key = ms (unat x) ks" using ms(1) Cons x by (simp add: mbranch_def)
    ultimately show ?thesis
      using BranchNode.IH [of "cs ! unat x", where key = ks and t = "unat x = 16" and m = "ms (unat x)"] ms(2,4) x
      by (auto split: noder.splits)
  qed
next
  case NilNode
  then show ?case by (subst (asm) proof_get.simps) (auto split: if_splits)
qed

text \<open>
  The encodings that must not collide for a proof to be binding: those of the trie's stored nodes
  and the re-encodings of the nodes the proof decodes to.
\<close>

definition proof_free :: "(bytes \<Rightarrow> bytes) \<Rightarrow> trie_db \<Rightarrow> bytes \<Rightarrow> proof_map \<Rightarrow> bool" where
  "proof_free sha db pfx proof \<longleftrightarrow>
     inj_on sha ({v. \<exists>h. length h = HashLength \<and> db (pfx @ h) = Some v}
       \<union> {node_enc n | h v n. proof h = Some v \<and> decodeNode h v = Inr n})
     \<and> (\<forall>v \<in> ran proof. length v < lim)"

lemma node_ok_setDirty: "node_ok sha db pfx n \<Longrightarrow> node_ok sha db pfx (setDirty n)"
  by (cases n) (auto simp: list_all_iff intro: hdr_ok_dirty)

lemma rep_setDirty: "rep load t n m \<Longrightarrow> rep load t (setDirty n) m"
  by (induction rule: rep.induct) (auto simp del: fun_upd_apply intro: rep.intros)

lemma proof_node_eq:
  assumes db: "db_ok sha db pfx" and pf: "proof_free sha db pfx proof"
    and sha: "\<And>x. length (sha x) = HashLength"
    and h: "length h = HashLength" "loadNode db pfx h = Inr n0"
    and p: "proof h = Some v" "decodeNode h v = Inr n" "fst (nodeHash sha None (setDirty n)) = h"
  shows "n = n0"
proof -
  obtain e where e: "db (pfx @ h) = Some e" "decodeNode h e = Inr n0"
    using h(2) by (auto simp: loadNode_def split: option.splits if_splits)
  have "sha e = h" using db h(1) e(1) unfolding db_ok_def by blast
  have l: "length v < lim" using pf p(1) by (auto simp: proof_free_def ran_def)
  have "sha (node_enc n) = sha e"
    using nodeHash_decoded [where sha = sha, OF p(2) l h(1) sha] p(3) \<open>sha e = h\<close> by simp
  then have "node_enc n = e"
    using pf e(1) h(1) p(1,2) unfolding proof_free_def by (auto dest!: inj_onD)
  then show ?thesis using decode_reencode(1) [OF p(2) l] e(2) by simp
qed

lemma verifyLoop_sound:
  assumes db: "db_ok sha db pfx" and pf: "proof_free sha db pfx proof"
    and sha: "\<And>x. length (sha x) = HashLength"
  shows "verifyLoop sha proof f i h key = Inr (Some v) \<Longrightarrow> length h = HashLength \<Longrightarrow>
    tailkey False key \<Longrightarrow> rep (loadNode db pfx) False (HashNode h) m \<Longrightarrow> m key = Some v"
proof (induction f arbitrary: i h key m)
  case (Suc f)
  let ?load = "loadNode db pfx"
  obtain n0 where n0: "?load h = Inr n0" "rep ?load False n0 m" using Suc.prems(4) by (auto elim: rep_HashE)
  obtain e n rest c where e: "proof h = Some e" "decodeNode h e = Inr n"
    "fst (nodeHash sha None (setDirty n)) = h"
    and g: "proof_get (hashed sha None (setDirty n)) key = Inr (rest, c)"
    and res: "(case c of HashNode hn \<Rightarrow> verifyLoop sha proof f (Suc i) (take HashLength hn @ drop (length hn) h) rest
                | LeafNode _ _ v \<Rightarrow> Inr (Some v) | _ \<Rightarrow> Inr None) = Inr (Some v)"
    using Suc.prems(1) by (auto simp: Let_def split: option.splits sum.splits prod.splits if_splits)
  have n: "n = n0" by (rule proof_node_eq [OF db pf sha Suc.prems(2) n0(1) e])
  have "node_ok sha db pfx (hashed sha None (setDirty n))"
    using hashed_ok [where sha = sha, OF sha] node_ok_setDirty loadNode_ok [OF db Suc.prems(2) n0(1)] n by blast
  moreover have "rep ?load False (hashed sha None (setDirty n)) m"
    using rep_hashed rep_setDirty n0(2) n by blast
  ultimately have "case c of
       HashNode h \<Rightarrow> length h = HashLength \<and> tailkey False rest
         \<and> (\<exists>m'. rep ?load False (HashNode h) m' \<and> m key = m' rest)
     | LeafNode _ _ v \<Rightarrow> m key = Some v
     | _ \<Rightarrow> True"
    using proof_get_sound [OF _ _ Suc.prems(3) g] by blast
  then show ?case using res Suc.IH Suc.prems(2) by (auto split: noder.splits)
qed simp

section \<open>Completeness\<close>

lemma nodeHash_merkle:
  "node_ok sha db pfx n \<Longrightarrow> (\<And>x. length (sha x) = HashLength) \<Longrightarrow> fst (nodeHash sha None n) = merkle sha n"
  by (simp add: nodeHash_fst hashed_merkle)

lemma children_merkle:
  "list_all (node_ok sha db pfx) cs \<Longrightarrow> (\<And>x. length (sha x) = HashLength) \<Longrightarrow>
     map (\<lambda>c. fst (nodeHash sha None c)) cs = map (merkle sha) cs"
  by (auto simp: list_all_iff intro: nodeHash_merkle)

lemma encodeNode_enc:
  "loadable n \<Longrightarrow> node_ok sha db pfx n \<Longrightarrow> (\<And>x. length (sha x) = HashLength) \<Longrightarrow>
     sha (encodeNode sha n) = merkle sha n"
  by (cases n) (auto simp: nodeHash_merkle children_merkle simp del: map_eq_conv)

lemma merkle_hash_or_nil:
  assumes "node_ok sha db pfx n" "\<And>x. length (sha x) = HashLength"
  shows "hash_or_nil (merkle sha n)" "n \<noteq> NilNode \<Longrightarrow> length (merkle sha n) = HashLength"
  using assms by (cases n; simp add: hash_or_nil_def)+

text \<open>What a proof node decodes to, once its hash has been checked.\<close>

fun proof_body :: "(bytes \<Rightarrow> bytes) \<Rightarrow> noder \<Rightarrow> node_hdr \<Rightarrow> noder" where
  "proof_body sha (LeafNode n k v) w = LeafNode w k v"
| "proof_body sha (ExtensionNode n k next) w = ExtensionNode w k (HashNode (merkle sha next))"
| "proof_body sha (BranchNode n cs) w = BranchNode w (map (\<lambda>c. stub (merkle sha c)) cs)"
| "proof_body sha n w = n"

lemma decode_proof_node:
  assumes sha: "\<And>x. length (sha x) = HashLength" and n: "loadable n" "node_ok sha db pfx n" "sized n"
  shows "decodeNode h (encodeNode sha n) = Inr (proof_body sha n (newPersistedNode h))"
proof (cases n)
  case (BranchNode hd cs)
  have eq: "map (\<lambda>c. fst (nodeHash sha None c)) cs = map (merkle sha) cs"
    using n(2) BranchNode sha by (intro children_merkle) auto
  have "list_all hash_or_nil (map (merkle sha) cs)"
    using n(2) BranchNode sha merkle_hash_or_nil(1) by (auto simp: list_all_iff)
  then show ?thesis
    using BranchNode n(2) decodeNode_encodeBranch [of "map (merkle sha) cs" h]
    by (simp add: comp_def eq del: map_eq_conv)
next
  case (ExtensionNode hd k "next")
  then have "length (merkle sha next) = HashLength" "fst (nodeHash sha None next) = merkle sha next"
    using n(2) merkle_hash_or_nil(2) nodeHash_merkle sha by auto
  then show ?thesis using ExtensionNode n by (simp add: decodeNode_encodeExtension [OF _ lim_HashLength])
qed (use n in \<open>simp_all add: decodeNode_encodeLeaf\<close>)

lemma proof_body_hashed:
  assumes sha: "\<And>x. length (sha x) = HashLength" and n: "loadable n" "node_ok sha db pfx n"
  shows "\<exists>hd. hashed sha None (setDirty (proof_body sha n (newPersistedNode h))) = proof_body sha n hd"
proof (cases n)
  case (BranchNode hd cs)
  have "is_stub (stub (merkle sha c))" if "c \<in> set cs" for c
    using that n(2) BranchNode sha merkle_hash_or_nil(1) by (auto simp: is_stub_def list_all_iff)
  then have "map (\<lambda>c. fst (snd (nodeHash sha None (stub (merkle sha c))))) cs = map (\<lambda>c. stub (merkle sha c)) cs"
    by (auto simp: stub_nodeHash)
  then show ?thesis using BranchNode by (auto simp: comp_def hashKnown_def split: prod.splits)
qed (use n in \<open>auto split: prod.splits\<close>)

lemma verifyLoop_step:
  assumes sha: "\<And>x. length (sha x) = HashLength" and n: "loadable n" "node_ok sha db pfx n" "sized n"
    and p: "pm (merkle sha n) = Some (encodeNode sha n)"
  obtains hd where "verifyLoop sha pm (Suc f) i (merkle sha n) key =
     (case proof_get (proof_body sha n hd) key of
        Inl _ \<Rightarrow> Inl ProofPanic
      | Inr (keyrest, cld) \<Rightarrow>
          (case cld of
             HashNode hn \<Rightarrow>
               verifyLoop sha pm f (Suc i) (take HashLength hn @ drop (length hn) (merkle sha n)) keyrest
           | LeafNode _ _ v \<Rightarrow> Inr (Some v)
           | _ \<Rightarrow> Inr None))"
proof -
  let ?b = "setDirty (proof_body sha n (newPersistedNode (merkle sha n)))"
  obtain hd where hd: "hashed sha None ?b = proof_body sha n hd"
    using proof_body_hashed [where sha = sha, OF sha n(1,2)] by blast
  have len: "length (merkle sha n) = HashLength" using merkle_hash_or_nil(2) n(1,2) sha by fastforce
  have "fst (nodeHash sha None ?b) = merkle sha n"
  proof (cases n)
    case (BranchNode h cs)
    have "is_stub (stub (merkle sha c))" if "c \<in> set cs" for c
      using that n(2) BranchNode sha merkle_hash_or_nil(1) by (auto simp: is_stub_def list_all_iff)
    then have "map (\<lambda>c. fst (nodeHash sha None (stub (merkle sha c)))) cs = map (merkle sha) cs"
      by (auto simp: stub_nodeHash)
    then show ?thesis using BranchNode len sha
      by (simp add: hashKnown_def finishHash_def newPersistedNode_def SetStatus_def SetHash_ok
          hash_or_nil_def comp_def cong: map_cong)
  qed (use n(1) len sha in \<open>simp_all add: hashKnown_def finishHash_def newPersistedNode_def SetStatus_def
       SetHash_ok hash_or_nil_def\<close>)
  with hd obtain u where u: "nodeHash sha None ?b = (merkle sha n, proof_body sha n hd, u)"
    by (metis prod.collapse)
  show ?thesis
    using that [of hd] p decode_proof_node [where sha = sha, OF sha n] by (simp add: u)
qed

lemma proof_get_HashNode: "x \<noteq> [] \<Longrightarrow> proof_get (HashNode h) x = Inr (x, HashNode h)"
  by (subst proof_get.simps) auto

text \<open>One round of the loop: down to a child, or to the leaf.\<close>

lemma verify_descend:
  assumes sha: "\<And>x. length (sha x) = HashLength" and n: "loadable n" "node_ok sha db pfx n" "sized n"
    and p: "pm (merkle sha n) = Some (encodeNode sha n)"
    and g: "\<And>w. proof_get (proof_body sha n w) key = Inr (ks, HashNode (merkle sha c))"
    and c: "node_ok sha db pfx c" "c \<noteq> NilNode"
  shows "verifyLoop sha pm (Suc f) i (merkle sha n) key = verifyLoop sha pm f (Suc i) (merkle sha c) ks"
proof -
  have "n \<noteq> NilNode" using n(1) by auto
  then have l: "length (merkle sha c) = HashLength" "length (merkle sha n) = HashLength"
    using merkle_hash_or_nil(2) c n(2) sha by blast+
  show ?thesis
    by (rule verifyLoop_step [of sha n _ _ pm f i key, OF sha n p])
      (simp add: g l del: verifyLoop.simps)
qed

lemma verify_leaf:
  assumes sha: "\<And>x. length (sha x) = HashLength" and n: "node_ok sha db pfx (LeafNode h k v)"
      "sized (LeafNode h k v)"
    and p: "pm (merkle sha (LeafNode h k v)) = Some (encodeNode sha (LeafNode h k v))"
    and k: "key \<noteq> []" "prefix k key"
  shows "verifyLoop sha pm (Suc f) i (merkle sha (LeafNode h k v)) key = Inr (Some v)"
proof -
  have g: "proof_get (LeafNode w k v) key = Inr ([], LeafNode w k v)" for w
    using k by (subst proof_get.simps) (auto simp: prefix_def)
  show ?thesis
    by (rule verifyLoop_step [of sha "LeafNode h k v" _ _ pm f i key, OF sha _ n p])
      (simp_all add: g del: verifyLoop.simps merkle.simps)
qed

text \<open>The path of a key that reaches a leaf, one node at a time.\<close>

lemma proofPath_leaf_cases:
  assumes "proofPath load (Suc f) n key = Inr nodes" "nodes \<noteq> []" "last nodes = LeafNode h k v"
  obtains (leaf) "n = LeafNode h k v" "nodes = [n]" "prefix k key" "key \<noteq> []"
  | (hash) l x where "n = HashNode l" "load l = Inr x" "proofPath load f x key = Inr nodes"
  | (ext) w k' c ns ks where "n = ExtensionNode w k' c" "nodes = n # ns" "key = k' @ ks" "key \<noteq> []"
      "proofPath load f c ks = Inr ns" "ns \<noteq> []"
  | (branch) w cs ns x ks where "n = BranchNode w cs" "nodes = n # ns" "key = x # ks"
      "unat x < length cs" "proofPath load f (cs ! unat x) ks = Inr ns" "ns \<noteq> []"
proof (cases n)
  case (ExtensionNode w k' c)
  have "key \<noteq> [] \<and> \<not> (length key < length k' \<or> k' \<noteq> take (length k') key)"
    using assms ExtensionNode by (auto split: if_splits)
  moreover from this obtain ks where "key = k' @ ks" by (metis append_take_drop_id)
  ultimately show ?thesis using assms ExtensionNode ext
    by (cases "proofPath load f c ks") (auto split: if_splits)
next
  case (BranchNode w cs)
  have "key \<noteq> []" using assms BranchNode by (auto split: if_splits)
  then obtain x ks where "key = x # ks" by (cases key) auto
  with assms BranchNode branch show ?thesis
    by (cases "proofPath load f (cs ! unat x) ks") (auto split: if_splits)
qed (use assms leaf hash in \<open>auto simp: prefix_take_iff split: if_splits sum.splits\<close>)

lemma proofPath_nonempty: "proofPath load f c ks = Inr ns \<Longrightarrow> ns \<noteq> [] \<Longrightarrow> ks \<noteq> [] \<and> c \<noteq> NilNode"
  by (cases f) auto

lemma proofPath_complete:
  assumes sha: "\<And>x. length (sha x) = HashLength" and db: "db_ok sha db pfx"
  shows "proofPath (loadNode db pfx) f n key = Inr nodes \<Longrightarrow> node_ok sha db pfx n \<Longrightarrow> sized n \<Longrightarrow>
    nodes \<noteq> [] \<Longrightarrow> last nodes = LeafNode h k v \<Longrightarrow>
    (\<And>x. x \<in> set nodes \<Longrightarrow> proof (merkle sha x) = Some (encodeNode sha x)) \<Longrightarrow>
    length nodes \<le> g \<Longrightarrow> verifyLoop sha proof g i (merkle sha n) key = Inr (Some v)"
proof (induction f arbitrary: n key nodes g i)
  case (Suc f)
  note prems = Suc.prems
  obtain g' where g: "g = Suc g'" using prems(4,7) by (cases g) auto
  show ?case
    using prems(1,4,5)
  proof (cases rule: proofPath_leaf_cases)
    case leaf
    have "proof (merkle sha n) = Some (encodeNode sha n)" using prems(6) leaf(2) by simp
    then show ?thesis unfolding g leaf(1)
      using verify_leaf [where sha = sha, OF sha _ _ _ leaf(4,3)] prems(2,3) by (simp only: leaf(1))
  next
    case (hash l x)
    have l: "length l = HashLength" using prems(2) hash(1) by simp
    note x = loadNode_ok [OF db l hash(2)] loadNode_sized [OF db l hash(2)] loadNode_hdr [OF hash(2)]
    have "merkle sha x = l" using clean_merkle [OF x(1)] x(3) by simp
    then show ?thesis using Suc.IH [OF hash(3) x(1,2) prems(4,5,6,7)] hash(1) by simp
  next
    case (ext w k' c ns ks)
    have c: "node_ok sha db pfx c" "sized c" using prems(2,3) ext(1) by auto
    have p: "proof (merkle sha n) = Some (encodeNode sha n)" using prems(6) ext(2) by simp
    have get: "proof_get (proof_body sha n u) key = Inr (ks, HashNode (merkle sha c))" for u
      using ext(1,3,4) proofPath_nonempty [OF ext(5,6)]
      by (subst proof_get.simps) (auto simp: proof_get_HashNode)
    have "verifyLoop sha proof (Suc g') i (merkle sha n) key = verifyLoop sha proof g' (Suc i) (merkle sha c) ks"
      by (rule verify_descend [where sha = sha and pm = "proof" and n = n, OF sha _ prems(2,3) p get c(1)])
        (use ext(1) proofPath_nonempty [OF ext(5,6)] in simp_all)
    then show ?thesis using Suc.IH [OF ext(5) c ext(6), of g' "Suc i"] prems(5,6,7) ext(2,6) g by simp
  next
    case (branch w cs ns x ks)
    let ?c = "cs ! unat x"
    have c: "node_ok sha db pfx ?c" "sized ?c"
      using prems(2,3) branch(1,4) list_all_nth [of "node_ok sha db pfx" cs] list_all_nth [of sized cs]
      by simp_all
    have ne: "?c \<noteq> NilNode" "ks \<noteq> []" using proofPath_nonempty [OF branch(5,6)] by auto
    then have "stub (merkle sha ?c) = HashNode (merkle sha ?c)"
      using merkle_hash_or_nil(2) [where sha = sha, OF c(1) sha] by (auto simp: stub_def)
    then have get: "proof_get (proof_body sha n u) key = Inr (ks, HashNode (merkle sha ?c))" for u
      using branch(1,3,4) ne by (subst proof_get.simps) (auto simp: proof_get_HashNode)
    have p: "proof (merkle sha n) = Some (encodeNode sha n)" using prems(6) branch(2) by simp
    have "verifyLoop sha proof (Suc g') i (merkle sha n) key = verifyLoop sha proof g' (Suc i) (merkle sha ?c) ks"
      by (rule verify_descend [where sha = sha and pm = "proof" and n = n, OF sha _ prems(2,3) p get c(1)]) (use branch(1) ne in simp_all)
    then show ?thesis using Suc.IH [OF branch(5) c branch(6), of g' "Suc i"] prems(5,6,7) branch(2,6) g by simp
  qed
qed simp

definition reaches :: "noder list \<Rightarrow> bytes \<Rightarrow> bool" where
  "reaches nodes v \<longleftrightarrow> (\<exists>h k. nodes \<noteq> [] \<and> last nodes = LeafNode h k v)"

context node_store
begin

text \<open>Collecting the path never fails on a well-formed trie, and a leaf it ends in has the value.\<close>

lemma proofPath_rep:
  "rep load t n m \<Longrightarrow> tailkey t key \<Longrightarrow> enough n key fuel \<Longrightarrow>
     \<exists>nodes. proofPath load fuel n key = Inr nodes \<and> (\<forall>v. reaches nodes v \<longrightarrow> m key = Some v)"
proof (induction arbitrary: key fuel rule: rep.induct)
  case (rep_leaf t k n v)
  then obtain f where f: "fuel = Suc f" by (auto dest: enough_Suc)
  have "k = key" if "length k \<le> length key" "k = take (length k) key"
    using that rep_leaf.hyps rep_leaf.prems(1) tailkey_prefix_eq take_is_prefix by metis
  then show ?case using f by (auto simp: reaches_def)
next
  case (rep_ext k "next" m n)
  obtain f where f: "fuel = Suc f" "2 * length key \<le> f" using rep_ext.prems(2) by (auto dest: enough_Suc)
  have key: "key \<noteq> []" using rep_ext.prems(1) by (auto simp: tailkey_def)
  show ?case
  proof (cases "prefix k key")
    case True
    then obtain y where y: "key = k @ y" by (auto simp: prefix_def)
    have "tailkey False y"
      using rep_ext.prems(1) rep_ext.hyps(2) y by (simp add: tailkey_def hexkey_append)
    moreover have "enough next y f" using f(2) y rep_ext.hyps(1) by (intro enough_next [of key]) auto
    ultimately obtain ns where "proofPath load f next y = Inr ns" "\<forall>v. reaches ns v \<longrightarrow> m y = Some v"
      using rep_ext.IH by blast
    then show ?thesis using f(1) y key by (auto simp: reaches_def mprefix_def split: if_splits)
  next
    case False
    then show ?thesis using f(1) key by (auto simp: reaches_def prefix_take_iff)
  qed
next
  case (rep_branch cs ms n)
  obtain f where f: "fuel = Suc f" "2 * length key \<le> f" using rep_branch.prems(2) by (auto dest: enough_Suc)
  obtain k ks where x: "key = k # ks" using rep_branch.prems(1) by (cases key) (auto simp: tailkey_def)
  then have k: "unat k < 17" "tailkey (unat k = 16) ks"
    using rep_branch.prems(1) by (auto simp: tailkey_def [of False] hexkey_Cons_iff)
  have "enough (cs ! unat k) ks f" using f(2) x by (intro enough_next [of key]) auto
  then obtain ns where "proofPath load f (cs ! unat k) ks = Inr ns"
    "\<forall>v. reaches ns v \<longrightarrow> ms (unat k) ks = Some v"
    using rep_branch.IH [OF k(1) k(2)] by blast
  then show ?case using f(1) x k(1) rep_branch.hyps(1)
    by (auto simp: reaches_def mbranch_def split: if_splits)
next
  case (rep_hash h n t m)
  then obtain f where f: "fuel = Suc f" by (auto dest: enough_Suc)
  have "enough n key f" using enough_loaded [OF rep_hash.hyps(1)] rep_hash.prems(2) f by simp
  then show ?case using rep_hash.IH [OF rep_hash.prems(1)] rep_hash.hyps(1) f by (auto simp: reaches_def)
qed (auto simp: reaches_def dest!: enough_Suc)

end

text \<open>Every node of the path is consistent, so the proof maps its hash to its encoding.\<close>

lemma proofPath_ok:
  assumes db: "db_ok sha db pfx"
  shows "proofPath (loadNode db pfx) f n key = Inr nodes \<Longrightarrow> node_ok sha db pfx n \<Longrightarrow>
    \<forall>x \<in> set nodes. loadable x \<and> node_ok sha db pfx x"
proof (induction f arbitrary: n key nodes)
  case (Suc f)
  show ?case
  proof (cases n)
    case (HashNode h)
    then show ?thesis using Suc.prems Suc.IH loadNode_ok [OF db] by (fastforce split: if_splits sum.splits)
  next
    case (ExtensionNode w k "next")
    then show ?thesis using Suc.prems Suc.IH [of "next"]
      by (cases "proofPath (loadNode db pfx) f next (drop (length k) key)") (auto split: if_splits)
  next
    case (BranchNode w cs)
    let ?c = "cs ! unat (hd key)"
    have "node_ok sha db pfx ?c" if "unat (hd key) < length cs"
      using Suc.prems(2) BranchNode list_all_nth [of "node_ok sha db pfx" cs] that by simp
    then show ?thesis using Suc.prems BranchNode Suc.IH [of ?c "tl key"]
      by (cases "proofPath (loadNode db pfx) f ?c (tl key)") (auto split: if_splits)
  qed (use Suc.prems in \<open>auto split: if_splits\<close>)
qed simp

lemma proofOf_entry:
  assumes inj: "inj_on sha (encodeNode sha ` set nodes)" and sha: "\<And>x. length (sha x) = HashLength"
    and ok: "\<forall>x \<in> set nodes. loadable x \<and> node_ok sha db pfx x" and x: "x \<in> set nodes"
  shows "proofOf sha nodes (merkle sha x) = Some (encodeNode sha x)"
  using assms
proof (induction nodes rule: rev_induct)
  case (snoc n ns)
  have h: "fst (nodeHash sha None y) = merkle sha y" "sha (encodeNode sha y) = merkle sha y"
    if "y \<in> set (ns @ [n])" for y
    using snoc.prems(3) that nodeHash_merkle encodeNode_enc sha by blast+
  show ?case
  proof (cases "merkle sha x = merkle sha n")
    case True
    then have "encodeNode sha x = encodeNode sha n"
      using inj_onD [OF snoc.prems(1), of "encodeNode sha x" "encodeNode sha n"] snoc.prems(4)
        h(2) [of x] h(2) [of n] by auto
    then show ?thesis using True h [of n] by (simp add: proofOf_def)
  next
    case False
    then have "x \<in> set ns" using snoc.prems(4) by auto
    moreover have "inj_on sha (encodeNode sha ` set ns)"
      using snoc.prems(1) by (rule inj_on_subset) auto
    ultimately have "proofOf sha ns (merkle sha x) = Some (encodeNode sha x)"
      using snoc.IH snoc.prems(2,3) by simp
    then show ?thesis using False h [of n] by (simp add: proofOf_def)
  qed
qed simp

section \<open>A key that is a prefix of another key\<close>

lemma verify_stop:
  assumes sha: "\<And>x. length (sha x) = HashLength" and n: "node_ok sha db pfx (BranchNode h cs)" "sized (BranchNode h cs)"
    and p: "pm (merkle sha (BranchNode h cs)) = Some (encodeNode sha (BranchNode h cs))" and k: "unat k < length cs"
  shows "verifyLoop sha pm (Suc f) i (merkle sha (BranchNode h cs)) [k] = Inr None"
proof -
  have g: "proof_get (proof_body sha (BranchNode h cs) w) [k] = Inr ([], NilNode)" for w
    using k by (subst proof_get.simps) (simp, subst proof_get.simps, simp)
  show ?thesis
    by (rule verifyLoop_step [of sha "BranchNode h cs" _ _ pm f i "[k]", OF sha _ n p])
      (simp_all add: g del: verifyLoop.simps merkle.simps proof_body.simps)
qed

text \<open>
  The path of a key that ends where another key goes on: it ends in the branch whose last child holds the value, which is
  not reached.
\<close>

lemma proofPath_stops:
  assumes sha: "\<And>x. length (sha x) = HashLength" and db: "db_ok sha db pfx"
  shows "proofPath (loadNode db pfx) f n (p @ [16]) = Inr nodes \<Longrightarrow> rep (loadNode db pfx) False n m \<Longrightarrow>
    nibbles p \<Longrightarrow> m (p @ [16]) \<noteq> None \<Longrightarrow> m (p @ y # ys) \<noteq> None \<Longrightarrow> y \<noteq> 16 \<Longrightarrow> node_ok sha db pfx n \<Longrightarrow> sized n \<Longrightarrow>
    (\<And>x. x \<in> set nodes \<Longrightarrow> pm (merkle sha x) = Some (encodeNode sha x)) \<Longrightarrow>
    length nodes \<le> g \<Longrightarrow> nodes \<noteq> [] \<and> verifyLoop sha pm g i (merkle sha n) (p @ [16]) = Inr None"
proof (induction f arbitrary: n p m nodes g i)
  case (Suc f)
  note prems = Suc.prems
  show ?case
  proof (cases n)
    case NilNode
    then show ?thesis using prems(2,4) by simp
  next
    case (LeafNode h k v)
    then have "m = [k \<mapsto> v]" using prems(2) by (simp add: rep_Leaf_iff)
    then show ?thesis using prems(4,5,6) by (auto split: if_splits)
  next
    case (HashNode l)
    then obtain x where x: "loadNode db pfx l = Inr x" "rep (loadNode db pfx) False x m" using prems(2) by (auto simp: rep_Hash_iff)
    have l: "length l = HashLength" using prems(7) HashNode by simp
    note ok = loadNode_ok [OF db l x(1)] loadNode_sized [OF db l x(1)] loadNode_hdr [OF x(1)]
    have "merkle sha x = l" using clean_merkle [OF ok(1)] ok(3) by simp
    moreover have "proofPath (loadNode db pfx) f x (p @ [16]) = Inr nodes" using prems(1) HashNode x(1) by simp
    ultimately show ?thesis using Suc.IH [OF _ x(2) prems(3-6) ok(1,2) prems(9,10)] HashNode by simp
  next
    case (ExtensionNode h k c)
    obtain m2 where m2: "k \<noteq> []" "nibbles k" "m = mprefix k m2" "rep (loadNode db pfx) False c m2"
      using prems(2) ExtensionNode by (auto simp: rep_Ext_iff)
    have "prefix k (p @ [16])" using prems(4) m2(3) by (auto simp: mprefix_def split: if_splits)
    moreover have "k \<noteq> p @ [16]" using m2(2) by (auto simp: nibbles_def)
    ultimately have "prefix k p" by (simp add: prefix_snoc)
    then obtain q where q: "p = k @ q" by (auto simp: prefix_def)
    have keys: "m2 (q @ [16]) \<noteq> None" "m2 (q @ y # ys) \<noteq> None" "nibbles q"
      using prems(3-5) m2(3) q by (auto simp: nibbles_def)
    obtain ns where ns: "proofPath (loadNode db pfx) f c (q @ [16]) = Inr ns" "nodes = n # ns"
      using prems(1) ExtensionNode q by (cases "proofPath (loadNode db pfx) f c (q @ [16])") auto
    have c: "node_ok sha db pfx c" "sized c" using prems(7,8) ExtensionNode by auto
    have ne: "c \<noteq> NilNode" using m2(4) keys(1) by auto
    obtain g' where g: "g = Suc g'" using prems(10) ns(2) by (cases g) auto
    have get: "proof_get (proof_body sha n u) (p @ [16]) = Inr (q @ [16], HashNode (merkle sha c))" for u
      using ExtensionNode q by (subst proof_get.simps) (auto simp: proof_get_HashNode)
    have pn: "pm (merkle sha n) = Some (encodeNode sha n)" using prems(9) ns(2) by simp
    have "verifyLoop sha pm (Suc g') i (merkle sha n) (p @ [16]) = verifyLoop sha pm g' (Suc i) (merkle sha c) (q @ [16])"
      by (rule verify_descend [where sha = sha and pm = pm and n = n, OF sha _ prems(7,8) pn get c(1)]) (use ExtensionNode ne in simp_all)
    then show ?thesis
      using Suc.IH [OF ns(1) m2(4) keys(3,1,2) prems(6) c, of g' "Suc i"] prems(9,10) ns(2) g by simp
  next
    case (BranchNode h cs)
    obtain ms where ms: "length cs = 17" "\<And>j. j < 17 \<Longrightarrow> rep (loadNode db pfx) (j = 16) (cs ! j) (ms j)" "m = mbranch ms"
      using prems(2) BranchNode by (auto elim: rep_BranchE)
    show ?thesis
    proof (cases p)
      case Nil
      have "\<exists>ns. nodes = n # ns" using prems(1) BranchNode Nil ms(1)
        by (cases "proofPath (loadNode db pfx) f (cs ! 16) []") auto
      then obtain ns where ns: "nodes = n # ns" by blast
      obtain g' where g: "g = Suc g'" using prems(10) ns by (cases g) auto
      have "pm (merkle sha n) = Some (encodeNode sha n)" using prems(9) ns by simp
      then show ?thesis
        using verify_stop [where sha = sha and h = h and cs = cs and k = 16 and f = g' and i = i and pm = pm and db = db and pfx = pfx]
          sha prems(7,8) BranchNode ms(1) ns g Nil by simp
    next
      case (Cons z q)
      let ?c = "cs ! unat z"
      have z: "unat z < 16" "nibbles q" using prems(3) Cons by (auto simp: nibbles_def)
      then have z17: "unat z < 17" by simp
      have r: "rep (loadNode db pfx) False ?c (ms (unat z))" using ms(2) [OF z17] z(1) by simp
      have keys: "ms (unat z) (q @ [16]) \<noteq> None" "ms (unat z) (q @ y # ys) \<noteq> None"
        using prems(4,5) ms(3) Cons z17 by simp_all
      obtain ns where ns: "proofPath (loadNode db pfx) f ?c (q @ [16]) = Inr ns" "nodes = n # ns"
        using prems(1) BranchNode Cons ms(1) z17 by (cases "proofPath (loadNode db pfx) f ?c (q @ [16])") auto
      have c: "node_ok sha db pfx ?c" "sized ?c"
        using prems(7,8) BranchNode z17 ms(1) list_all_nth [of "node_ok sha db pfx" cs] list_all_nth [of sized cs] by simp_all
      have ne: "?c \<noteq> NilNode" using r keys(1) by auto
      then have "stub (merkle sha ?c) = HashNode (merkle sha ?c)"
        using merkle_hash_or_nil(2) [where sha = sha, OF c(1) sha] by (auto simp: stub_def)
      then have get: "proof_get (proof_body sha n u) (p @ [16]) = Inr (q @ [16], HashNode (merkle sha ?c))" for u
        using BranchNode Cons z17 ms(1) by (subst proof_get.simps) (auto simp: proof_get_HashNode)
      obtain g' where g: "g = Suc g'" using prems(10) ns(2) by (cases g) auto
      have pn: "pm (merkle sha n) = Some (encodeNode sha n)" using prems(9) ns(2) by simp
      have "verifyLoop sha pm (Suc g') i (merkle sha n) (p @ [16]) = verifyLoop sha pm g' (Suc i) (merkle sha ?c) (q @ [16])"
        by (rule verify_descend [where sha = sha and pm = pm and n = n, OF sha _ prems(7,8) pn get c(1)]) (use BranchNode ne in simp_all)
      then show ?thesis
        using Suc.IH [OF ns(1) r z(2) keys prems(6) c, of g' "Suc i"] prems(9,10) ns(2) g by simp
    qed
  qed
qed simp

section \<open>Proofs against the root of a trie\<close>

lemma committed_root:
  assumes sha: "\<And>x. length (sha x) = HashLength"
    and t: "trie_inv sha t" "holds t M" "sized (t_root t)" "t_root t \<noteq> NilNode"
    and c: "trie_Commit sha t = (t', r, ps)" and cf: "collision_free sha (t_db t) (t_dbprefix t) ps"
  obtains m where "M = m \<circ> keybytesToHex" "length r = HashLength"
    "rep (loadNode (apply_puts (t_db t) ps) (t_dbprefix t)) False (HashNode r) m"
    "db_ok sha (apply_puts (t_db t) ps) (t_dbprefix t)"
proof -
  let ?pfx = "t_dbprefix t"
  obtain m where m: "rep (loadNode (t_db t) ?pfx) False (t_root t) m" "M = m \<circ> keybytesToHex"
    using t(2) by (auto simp: holds_def t_load_def)
  have n: "node_ok sha (t_db t) ?pfx (t_root t)" "loadable (t_root t)" "db_ok sha (t_db t) ?pfx"
    using t(1,4) by (auto simp: trie_inv_def)
  have ps: "ps = puts sha (Some ?pfx) (t_root t)"
    and r: "r = BytesToHash (node_Hash (hashed sha (Some ?pfx) (t_root t)))"
    using c trie_Commit_eq [OF t(4), of sha] by simp_all
  note db = db_ok_puts [OF sha n(3,1) t(3) ps refl cf]
  have pin: "puts_in (puts sha (Some ?pfx) (t_root t)) (apply_puts (t_db t) ps)" using db(2) ps by simp
  note root = commit_root [OF sha n(1) t(3) n(2) m(1) db(1) pin]
  show ?thesis using that m(2) root(2,4) db(3) r by (simp add: BytesToHash_id)
qed

lemma verify_committed:
  assumes sha: "\<And>x. length (sha x) = HashLength" "\<And>x. sha x \<noteq> EmptyHash"
    and t: "trie_inv sha t" "holds t M" "sized (t_root t)"
    and c: "trie_Commit sha t = (t', r, ps)" "collision_free sha (t_db t) (t_dbprefix t) ps"
    and pf: "proof_free sha (apply_puts (t_db t) ps) (t_dbprefix t) pm"
    and v: "VerifyProof sha fuel r key pm = Inr (Some v)"
  shows "M key = Some v"
proof (cases "t_root t = NilNode")
  case False
  from committed_root [where sha = sha, OF sha(1) t False c] obtain m where m:
    "M = m \<circ> keybytesToHex" "length r = HashLength"
    "rep (loadNode (apply_puts (t_db t) ps) (t_dbprefix t)) False (HashNode r) m"
    "db_ok sha (apply_puts (t_db t) ps) (t_dbprefix t)" by blast
  have "m (keybytesToHex key) = Some v"
    using verifyLoop_sound [where sha = sha, OF m(4) pf sha(1) v [unfolded VerifyProof_def] m(2) tailkey_hex m(3)] .
  then show ?thesis using m(1) by simp
next
  case True
  then have r: "r = EmptyHash" using c(1) by (simp add: trie_Commit_def)
  obtain e n where e: "pm r = Some e" "decodeNode r e = Inr n" "fst (nodeHash sha None (setDirty n)) = r"
    using v by (cases fuel)
      (auto simp: VerifyProof_def Let_def split: option.splits sum.splits prod.splits if_splits)
  have "length e < lim" using pf e(1) by (auto simp: proof_free_def ran_def)
  then have "sha (node_enc n) = r"
    using nodeHash_decoded [where sha = sha, OF e(2) _ _ sha(1)] e(3) r by simp
  then show ?thesis using sha(2) r by blast
qed

lemma own_proof:
  assumes sha: "\<And>x. length (sha x) = HashLength"
    and t: "trie_inv sha t" "holds t M" "sized (t_root t)"
    and nodes: "proofPath (t_load t) (key_fuel (keybytesToHex key)) (t_root t) (keybytesToHex key) = Inr nodes"
    and inj: "inj_on sha (encodeNode sha ` set nodes)" and v: "reaches nodes v" "length nodes \<le> fuel"
  shows "VerifyProof sha fuel (snd (trie_Hash sha t)) key (fst (snd (GetProof sha t key))) = Inr (Some v)"
    "snd (snd (GetProof sha t key)) = None" "M key = Some v"
proof -
  obtain m where m: "rep (t_load t) False (t_root t) m" "M = m \<circ> keybytesToHex"
    using t(2) by (auto simp: holds_def)
  show "M key = Some v"
    using trie_nodes.proofPath_rep [OF m(1) tailkey_hex enough_key_fuel, of key] nodes v(1) m(2) by auto
  have ne: "t_root t \<noteq> NilNode" using proofPath_nonempty [OF nodes] v(1) by (auto simp: reaches_def)
  have n: "db_ok sha (t_db t) (t_dbprefix t)" "node_ok sha (t_db t) (t_dbprefix t) (t_root t)"
    using t(1) by (auto simp: trie_inv_def)
  have path: "proofPath (loadNode (t_db t) (t_dbprefix t)) (key_fuel (keybytesToHex key)) (t_root t) (keybytesToHex key) = Inr nodes"
    using nodes by (simp add: t_load_def)
  have P: "fst (snd (GetProof sha t key)) = proofOf sha nodes"
    and "snd (snd (GetProof sha t key)) = None"
    using nodes by (simp_all add: GetProof_def Let_def split: noder.splits)
  then show "snd (snd (GetProof sha t key)) = None" by simp
  have entry: "proofOf sha nodes (merkle sha x) = Some (encodeNode sha x)" if "x \<in> set nodes" for x
    using proofOf_entry [where sha = sha, OF inj sha proofPath_ok [OF n(1) path n(2)] that] .
  have r: "snd (trie_Hash sha t) = merkle sha (t_root t)"
    using root_merkle(1) [where sha = sha, OF sha t(1)] ne merkle_hash_or_nil(2) [where sha = sha, OF n(2) sha ne]
    by (simp add: BytesToHash_id)
  obtain h k where "nodes \<noteq> []" "last nodes = LeafNode h k v" using v(1) by (auto simp: reaches_def)
  then show "VerifyProof sha fuel (snd (trie_Hash sha t)) key (fst (snd (GetProof sha t key))) = Inr (Some v)"
    unfolding VerifyProof_def P r
    using proofPath_complete [where sha = sha, OF sha n(1) path n(2) t(3) _ _ entry v(2)] by blast
qed

section \<open>Properties\<close>

text \<open>
  C6: Merkle proofs are sound. Whatever nodes the proof contains, and for any bound on the rounds,
  a value \<open>VerifyProof\<close> returns for a key against the root hash of a committed trie is the value
  the trie holds for the key, provided the encodings involved do not collide.
\<close>

theorem VerifyProof_sound:
  assumes "\<And>x. length (sha x) = HashLength" and "\<And>x. sha x \<noteq> EmptyHash"
    and "evolves sha t M" and "sized (t_root t)"
    and "trie_Commit sha t = (t', r, ps)" and "collision_free sha (t_db t) (t_dbprefix t) ps"
    and "proof_free sha (apply_puts (t_db t) ps) (t_dbprefix t) pm"
    and "VerifyProof sha fuel r key pm = Inr (Some v)"
  shows "M key = Some v"
proof -
  have t: "holds t M" "trie_inv sha t" using evolves_ok assms(1,3) by blast+
  show ?thesis
    by (rule verify_committed [where sha = sha, OF assms(1,2) t(2,1) assms(4-8)])
qed

lemma proofOf_map_of:
  "proofOf sha nodes = map_of (rev (map (\<lambda>n. (fst (nodeHash sha None n), encodeNode sha n)) nodes))"
  by (induction nodes rule: rev_induct) (auto simp: proofOf_def fun_eq_iff)

definition reencodings :: "(bytes \<times> bytes) list \<Rightarrow> bytes list" where
  "reencodings kvs = concat (map (\<lambda>(h, v). case decodeNode h v of Inl _ \<Rightarrow> [] | Inr n \<Rightarrow> [node_enc n]) kvs)"

lemma reencodings_mem: "(h, v) \<in> set kvs \<Longrightarrow> decodeNode h v = Inr n \<Longrightarrow> node_enc n \<in> set (reencodings kvs)"
  by (force simp: reencodings_def)

lemma proof_free_list:
  assumes "distinct (map sha (remdups (map snd ps @ reencodings kvs)))"
    and "list_all (\<lambda>(h, v). length v < 1000) kvs"
  shows "proof_free sha (apply_puts Map.empty ps) pfx (map_of kvs)"
proof -
  have "{v. \<exists>h. length h = HashLength \<and> apply_puts Map.empty ps (pfx @ h) = Some v}
      \<union> {node_enc n | h v n. map_of kvs h = Some v \<and> decodeNode h v = Inr n}
      \<subseteq> snd ` set ps \<union> set (reencodings kvs)"
  proof (intro Un_mono subsetI)
    fix v assume "v \<in> {v. \<exists>h. length h = HashLength \<and> apply_puts Map.empty ps (pfx @ h) = Some v}"
    then show "v \<in> snd ` set ps" by (force simp: apply_puts_eq dest: map_of_SomeD)
  next
    fix e assume "e \<in> {node_enc n | h v n. map_of kvs h = Some v \<and> decodeNode h v = Inr n}"
    then show "e \<in> set (reencodings kvs)" by (auto intro: reencodings_mem dest: map_of_SomeD)
  qed
  moreover have "inj_on sha (snd ` set ps \<union> set (reencodings kvs))" using assms(1) by (simp add: distinct_map)
  moreover have "\<forall>v \<in> ran (map_of kvs). length v < lim"
    using assms(2) by (fastforce simp: ran_def list_all_iff lim_def dest: map_of_SomeD)
  ultimately show ?thesis unfolding proof_free_def using inj_on_subset by (intro conjI)
qed

definition sample_nodes :: "noder list" where
  "sample_nodes = (case proofPath (t_load sample_trie) 20 (t_root sample_trie) (keybytesToHex [0x13]) of
     Inl _ \<Rightarrow> [] | Inr ns \<Rightarrow> ns)"

definition sample_proof :: "(bytes \<times> bytes) list" where
  "sample_proof = rev (map (\<lambda>n. (fst (nodeHash sample_hash None n), encodeNode sample_hash n)) sample_nodes)"

theorem VerifyProof_sound_witness:
  "[[0x12 :: byte] \<mapsto> [7 :: byte], [0x12, 0x34] \<mapsto> [8], [0x13] \<mapsto> [9]] [0x13] = Some [9]"
proof -
  let ?c = "trie_Commit sample_hash sample_trie"
  have "?c = (fst ?c, fst (snd ?c), snd (snd ?c))" by simp
  moreover have "collision_free sample_hash (t_db sample_trie) (t_dbprefix sample_trie) (snd (snd ?c))"
    unfolding sample_trie_db collision_free_empty by code_simp
  moreover have "proof_free sample_hash (apply_puts (t_db sample_trie) (snd (snd ?c)))
      (t_dbprefix sample_trie) (map_of sample_proof)"
    unfolding sample_trie_db by (rule proof_free_list; code_simp)
  moreover have "VerifyProof sample_hash 5 (fst (snd ?c)) [0x13] (map_of sample_proof) = Inr (Some [9])"
    by code_simp
  ultimately show ?thesis
    by (rule VerifyProof_sound [OF length_sample_hash sample_hash_EmptyHash sample_trie_evolves
          sample_trie_sized])
qed

text \<open>
  C7: Merkle proofs are complete for the keys whose leaf \<open>GetProof\<close> reaches: \<open>GetProof\<close> returns no
  error, and \<open>VerifyProof\<close> accepts its proof against the root hash of the trie within as many
  rounds as nodes were collected, with the value the trie holds for the key.
\<close>

theorem GetProof_verifies:
  assumes "\<And>x. length (sha x) = HashLength" and "evolves sha t M" and "sized (t_root t)"
    and "proofPath (t_load t) (key_fuel (keybytesToHex key)) (t_root t) (keybytesToHex key) = Inr nodes"
    and "inj_on sha (encodeNode sha ` set nodes)" and "reaches nodes v"
  shows "snd (snd (GetProof sha t key)) = None \<and> M key = Some v
    \<and> VerifyProof sha (length nodes) (snd (trie_Hash sha t)) key (fst (snd (GetProof sha t key))) = Inr (M key)"
proof -
  have t: "holds t M" "trie_inv sha t" using evolves_ok assms(1,2) by blast+
  show ?thesis using own_proof [where sha = sha, OF assms(1) t(2,1) assms(3-6) order_refl] by simp
qed

theorem GetProof_verifies_witness:
  "VerifyProof sample_hash (length sample_nodes) (snd (trie_Hash sample_hash sample_trie)) [0x13]
     (fst (snd (GetProof sample_hash sample_trie [0x13]))) = Inr (Some [9])"
proof -
  have "proofPath (t_load sample_trie) (key_fuel (keybytesToHex [0x13])) (t_root sample_trie) (keybytesToHex [0x13])
      = Inr sample_nodes" by code_simp
  moreover have "distinct (map sample_hash (remdups (map (encodeNode sample_hash) sample_nodes)))" by code_simp
  then have "inj_on sample_hash (encodeNode sample_hash ` set sample_nodes)" by (simp add: distinct_map)
  moreover have "sample_nodes \<noteq> [] \<and> (case last sample_nodes of LeafNode _ _ v \<Rightarrow> v = [9] | _ \<Rightarrow> False)"
    by code_simp
  then have "reaches sample_nodes [9]" by (auto simp: reaches_def split: noder.splits)
  ultimately show ?thesis
    using GetProof_verifies [OF length_sample_hash sample_trie_evolves sample_trie_sized, of "[0x13]" sample_nodes "[9]"]
    by simp
qed

text \<open>
  C8: what the proofs cannot show. When a reached trie holds a key and also a longer key that starts with it, the value
  of the shorter key is in the last child of a branch, where \<open>GetProof\<close> and \<open>get\<close> stop for want of key. So
  \<open>GetProof\<close> returns no error, and \<open>VerifyProof\<close> accepts its proof against the root hash as showing that the key
  is absent, although the trie holds it (no collision among the collected nodes).
\<close>

theorem proof_gaps:
  assumes "\<And>x. length (sha x) = HashLength" and "evolves sha t M" and "sized (t_root t)"
    and "M key = Some v" and "M (key @ b # bs) = Some w"
    and "proofPath (t_load t) (key_fuel (keybytesToHex key)) (t_root t) (keybytesToHex key) = Inr nodes"
    and "inj_on sha (encodeNode sha ` set nodes)" and "length nodes \<le> fuel"
  shows "snd (snd (GetProof sha t key)) = None
    \<and> VerifyProof sha fuel (snd (trie_Hash sha t)) key (fst (snd (GetProof sha t key))) = Inr None"
proof -
  have t: "holds t M" "trie_inv sha t" using evolves_ok [where sha = sha, OF assms(1,2)] by auto
  obtain m where m: "rep (t_load t) False (t_root t) m" "M = m \<circ> keybytesToHex" using t(1) by (auto simp: holds_def)
  have n: "db_ok sha (t_db t) (t_dbprefix t)" "node_ok sha (t_db t) (t_dbprefix t) (t_root t)"
    using t(2) by (auto simp: trie_inv_def)
  let ?p = "butlast (keybytesToHex key)"
  have hex: "keybytesToHex key = ?p @ [16]" by (rule keybytesToHex_butlast)
  obtain y ys where y: "keybytesToHex (key @ b # bs) = ?p @ y # ys" "y \<noteq> 16"
  proof -
    have "unat (b div 16) < 16" by (rule byte_div_16_less)
    then have "b div 16 \<noteq> 16" by auto
    then show thesis using that [of "b div 16" "b mod 16 # keybytesToHex bs"] by (simp add: keybytesToHex_append)
  qed
  have path: "proofPath (loadNode (t_db t) (t_dbprefix t)) (key_fuel (keybytesToHex key)) (t_root t) (?p @ [16]) = Inr nodes"
    using assms(6) hex by (simp add: t_load_def)
  have P: "fst (snd (GetProof sha t key)) = proofOf sha nodes" "snd (snd (GetProof sha t key)) = None"
    using assms(6) by (simp_all add: GetProof_def Let_def split: noder.splits)
  have entry: "proofOf sha nodes (merkle sha x) = Some (encodeNode sha x)" if "x \<in> set nodes" for x
    using proofOf_entry [where sha = sha, OF assms(7,1) proofPath_ok [OF n(1) path n(2)] that] .
  have ne: "t_root t \<noteq> NilNode" using m assms(4) by auto
  have r: "snd (trie_Hash sha t) = merkle sha (t_root t)"
    using root_merkle(1) [where sha = sha, OF assms(1) t(2)] ne merkle_hash_or_nil(2) [where sha = sha, OF n(2) assms(1) ne]
    by (simp add: BytesToHash_id)
  have ms: "m (?p @ [16]) \<noteq> None" "m (?p @ y # ys) \<noteq> None" using assms(4,5) m(2) hex y(1) by (simp_all add: hex [symmetric])
  have "verifyLoop sha (proofOf sha nodes) fuel 0 (merkle sha (t_root t)) (?p @ [16]) = Inr None"
    using proofPath_stops [where sha = sha and pm = "proofOf sha nodes" and m = m and p = ?p and y = y and ys = ys and g = fuel and i = 0,
        OF assms(1) n(1) path m(1) [unfolded t_load_def] nibbles_keybytesToHex ms y(2) n(2) assms(3) entry assms(8)] by blast
  then show ?thesis using P by (simp add: VerifyProof_def r hex [symmetric])
qed

theorem proof_gaps_witness:
  "snd (trie_Get sample_trie [0x12]) = (Some [7], None)
   \<and> VerifyProof sample_hash 20 (snd (trie_Hash sample_hash sample_trie)) [0x12]
       (fst (snd (GetProof sample_hash sample_trie [0x12]))) = Inr None"
proof -
  have "\<not> isl (proofPath (t_load sample_trie) (key_fuel (keybytesToHex [0x12])) (t_root sample_trie) (keybytesToHex [0x12]))
    \<and> (case proofPath (t_load sample_trie) (key_fuel (keybytesToHex [0x12])) (t_root sample_trie) (keybytesToHex [0x12]) of
        Inl e \<Rightarrow> False | Inr nodes \<Rightarrow> length nodes \<le> 20 \<and> distinct (map sample_hash (remdups (map (encodeNode sample_hash) nodes))))"
    by code_simp
  then obtain nodes where n: "proofPath (t_load sample_trie) (key_fuel (keybytesToHex [0x12])) (t_root sample_trie) (keybytesToHex [0x12]) = Inr nodes"
    "length nodes \<le> 20" "distinct (map sample_hash (remdups (map (encodeNode sample_hash) nodes)))"
    by (auto split: sum.splits)
  then have "inj_on sample_hash (encodeNode sample_hash ` set nodes)" by (simp add: distinct_map)
  moreover have "snd (trie_Get sample_trie [0x12]) = (Some [7], None)" by code_simp
  ultimately show ?thesis
    using proof_gaps [OF length_sample_hash sample_trie_evolves sample_trie_sized, where key = "[0x12]" and b = "0x34" and bs = "[]" and fuel = 20] n
    by simp
qed

end
