(* ===== verification/State.thy ===== *)
theory State
  imports Trie_Proof
begin

text \<open>
  The account state, \<open>src/core/state\<close>: \<open>stateobject.go\<close> (one account with its code and storage
  caches), \<open>journal.go\<close> (the undo log) and \<open>statedb.go\<close> (the state database over a trie). The
  operations take the methods of the Go interface \<open>Trie\<close> as a record and the hash function as
  arguments. A pointer to a state object is an entry of the object map of the database, and a write
  through it is an update of that entry.
\<close>

section \<open>The trie interface\<close>

record 't trie_ops =
  tr_Get :: "'t \<Rightarrow> bytes \<Rightarrow> 't \<times> bytes option \<times> trie_error option"
  tr_Put :: "'t \<Rightarrow> bytes \<Rightarrow> bytes \<Rightarrow> 't \<times> trie_error option"
  tr_DeletePrefix :: "'t \<Rightarrow> bytes \<Rightarrow> 't \<times> bool \<times> trie_error option"
  tr_Hash :: "'t \<Rightarrow> 't \<times> bytes"
  tr_Commit :: "'t \<Rightarrow> 't \<times> bytes \<times> (bytes \<times> bytes) list"

definition mpt_ops :: "(bytes \<Rightarrow> bytes) \<Rightarrow> trie trie_ops" where
  "mpt_ops sha = \<lparr>tr_Get = trie_Get, tr_Put = trie_Put, tr_DeletePrefix = trie_DeletePrefix,
     tr_Hash = trie_Hash sha, tr_Commit = trie_Commit sha\<rparr>"

section \<open>Accounts and their encoding\<close>

type_synonym address = bytes
type_synonym hash = bytes
type_synonym uint64 = "64 word"

record account =
  acc_Nonce :: uint64
  acc_Amount :: int
  acc_CodeHash :: bytes
  acc_TxCount :: uint64

datatype state_error = TrieErr trie_error | DecodeErr | StatePanic

text \<open>\<open>big.Int.Bytes\<close>: the big-endian bytes without leading zeros.\<close>

fun big_bytes :: "nat \<Rightarrow> bytes" where
  "big_bytes n = (if n = 0 then [] else big_bytes (n div 256) @ [word_of_nat (n mod 256)])"

declare big_bytes.simps [simp del]

text \<open>\<open>SerializePanic\<close> of an account; a negative amount cannot be encoded and panics.\<close>

definition serializeAccount :: "account \<Rightarrow> bytes option" where
  "serializeAccount a =
     (if acc_Amount a < 0 then None
      else Some (rlp_Encode (RlpList [RlpUint (unat (acc_Nonce a)), RlpBytes (big_bytes (nat (acc_Amount a))),
             RlpBytes (acc_CodeHash a), RlpUint (unat (acc_TxCount a))])))"

text \<open>
  The decoder for the struct: an unsigned integer has at most eight bytes and no leading zero, a
  \<open>big.Int\<close> no leading zero. Errors are not told apart, the caller only records that there is one.
\<close>

definition decodeUint :: "bytes \<Rightarrow> (nat \<times> bytes) option" where
  "decodeUint b =
     (case rlp_Split b of
        Inr (KList, c, r) \<Rightarrow> None
      | Inr (k, c, r) \<Rightarrow> if 8 < length c \<or> c \<noteq> [] \<and> hd c = 0 then None else Some (be_val c, r)
      | Inl e \<Rightarrow> None)"

definition decodeBytes :: "bytes \<Rightarrow> (bytes \<times> bytes) option" where
  "decodeBytes b = (case rlp_SplitString b of Inl e \<Rightarrow> None | Inr (c, r) \<Rightarrow> Some (c, r))"

definition decodeBigInt :: "bytes \<Rightarrow> (nat \<times> bytes) option" where
  "decodeBigInt b =
     (case decodeBytes b of
        None \<Rightarrow> None
      | Some (c, r) \<Rightarrow> if c \<noteq> [] \<and> hd c = 0 then None else Some (be_val c, r))"

definition deserializeAccount :: "bytes \<Rightarrow> account option" where
  "deserializeAccount b =
     (case rlp_SplitList b of
        Inr (content, []) \<Rightarrow>
          (case decodeUint content of None \<Rightarrow> None | Some (nonce, b1) \<Rightarrow>
          (case decodeBigInt b1 of None \<Rightarrow> None | Some (amount, b2) \<Rightarrow>
          (case decodeBytes b2 of None \<Rightarrow> None | Some (codehash, b3) \<Rightarrow>
          (case decodeUint b3 of
             Some (count, []) \<Rightarrow>
               Some \<lparr>acc_Nonce = word_of_nat nonce, acc_Amount = int amount, acc_CodeHash = codehash,
                     acc_TxCount = word_of_nat count\<rparr>
           | _ \<Rightarrow> None))))
      | _ \<Rightarrow> None)"

definition newAccount :: account where
  "newAccount = \<lparr>acc_Nonce = 0, acc_Amount = 0, acc_CodeHash = [], acc_TxCount = 0\<rparr>"

text \<open>The transaction count is not copied.\<close>

definition account_clone :: "account \<Rightarrow> account" where
  "account_clone a = \<lparr>acc_Nonce = acc_Nonce a, acc_Amount = acc_Amount a, acc_CodeHash = acc_CodeHash a,
     acc_TxCount = 0\<rparr>"

section \<open>State objects\<close>

text \<open>\<open>so_code\<close> is \<open>None\<close> for a nil slice.\<close>

record stateObject =
  so_address :: address
  so_addrHash :: hash
  so_account :: account
  so_dirtyAccount :: bool
  so_code :: "bytes option"
  so_dirtyCode :: bool
  so_cachedStorage :: "hash \<rightharpoonup> bytes"
  so_dirtyStorage :: "hash \<rightharpoonup> bytes"
  so_suicided :: bool
  so_deleted :: bool

definition HashBytes :: "(bytes \<Rightarrow> bytes) \<Rightarrow> bytes \<Rightarrow> hash" where
  "HashBytes sha data = BytesToHash (sha data)"

text \<open>\<open>MustHash\<close> of an address or a hash: both are byte arrays.\<close>

definition MustHash :: "(bytes \<Rightarrow> bytes) \<Rightarrow> bytes \<Rightarrow> hash" where
  "MustHash sha v = HashBytes sha (rlp_Encode (RlpBytes v))"

definition newStateObject :: "(bytes \<Rightarrow> bytes) \<Rightarrow> address \<Rightarrow> stateObject" where
  "newStateObject sha addr =
     \<lparr>so_address = addr, so_addrHash = MustHash sha addr, so_account = newAccount, so_dirtyAccount = True,
      so_code = None, so_dirtyCode = False, so_cachedStorage = Map.empty, so_dirtyStorage = Map.empty,
      so_suicided = False, so_deleted = False\<rparr>"

definition so_clone :: "stateObject \<Rightarrow> stateObject" where
  "so_clone s = s\<lparr>so_account := account_clone (so_account s)\<rparr>"

definition so_setNonce :: "uint64 \<Rightarrow> stateObject \<Rightarrow> stateObject" where
  "so_setNonce nonce s = s\<lparr>so_account := (so_account s)\<lparr>acc_Nonce := nonce\<rparr>, so_dirtyAccount := True\<rparr>"

definition so_setTxCount :: "uint64 \<Rightarrow> stateObject \<Rightarrow> stateObject" where
  "so_setTxCount count s = s\<lparr>so_account := (so_account s)\<lparr>acc_TxCount := count\<rparr>, so_dirtyAccount := True\<rparr>"

definition so_setAmount :: "int \<Rightarrow> stateObject \<Rightarrow> stateObject" where
  "so_setAmount amount s =
     (if 0 \<le> amount
      then s\<lparr>so_account := (so_account s)\<lparr>acc_Amount := amount\<rparr>, so_dirtyAccount := True\<rparr> else s)"

definition so_addAmount :: "int \<Rightarrow> stateObject \<Rightarrow> stateObject" where
  "so_addAmount amount s = so_setAmount (acc_Amount (so_account s) + amount) s"

definition so_subAmount :: "int \<Rightarrow> stateObject \<Rightarrow> stateObject" where
  "so_subAmount amount s = so_setAmount (acc_Amount (so_account s) - amount) s"

text \<open>The type tags are the characters 0, 1 and 2.\<close>

definition dataTypeAccount :: byte where "dataTypeAccount = 48"
definition dataTypeCode :: byte where "dataTypeCode = 49"
definition dataTypeStorage :: byte where "dataTypeStorage = 50"

definition dataKey :: "hash \<Rightarrow> byte \<Rightarrow> bytes \<Rightarrow> bytes" where
  "dataKey addrHash dataType pre = addrHash @ dataType # pre"

definition storageKey :: "(bytes \<Rightarrow> bytes) \<Rightarrow> hash \<Rightarrow> hash \<Rightarrow> bytes" where
  "storageKey sha addrHash k = dataKey addrHash dataTypeStorage (MustHash sha k)"

definition loadAccount ::
  "'t trie_ops \<Rightarrow> stateObject \<Rightarrow> 't \<Rightarrow> 't \<times> (state_error + stateObject option)" where
  "loadAccount T s t =
     (case tr_Get T t (dataKey (so_addrHash s) dataTypeAccount []) of
        (t', value, err) \<Rightarrow>
          (t', case err of
                 Some e \<Rightarrow> Inl (TrieErr e)
               | None \<Rightarrow>
                   (case value of
                      None \<Rightarrow> Inr None
                    | Some v \<Rightarrow>
                        (case deserializeAccount v of
                           None \<Rightarrow> Inl DecodeErr
                         | Some a \<Rightarrow> Inr (Some (s\<lparr>so_account := a\<rparr>))))))"

text \<open>Results: the trie, the object with the code cached, the code (nil as \<open>None\<close>) or an error.\<close>

definition loadCode ::
  "'t trie_ops \<Rightarrow> stateObject \<Rightarrow> 't \<Rightarrow> 't \<times> stateObject \<times> (state_error + bytes option)" where
  "loadCode T s t =
     (case so_code s of
        Some c \<Rightarrow> (t, s, Inr (Some c))
      | None \<Rightarrow>
          if length (acc_CodeHash (so_account s)) = 0 then (t, s, Inr None)
          else (case tr_Get T t (dataKey (so_addrHash s) dataTypeCode []) of
                  (t', code, err) \<Rightarrow>
                    (case err of
                       Some e \<Rightarrow> (t', s, Inl (TrieErr e))
                     | None \<Rightarrow>
                         (case code of
                            None \<Rightarrow> (t', s, Inr None)
                          | Some c \<Rightarrow> (t', s\<lparr>so_code := Some c\<rparr>, Inr (Some c))))))"

definition so_setCode :: "(bytes \<Rightarrow> bytes) \<Rightarrow> bytes option \<Rightarrow> stateObject \<Rightarrow> stateObject" where
  "so_setCode sha code s =
     s\<lparr>so_code := code, so_dirtyCode := True,
       so_account := (so_account s)\<lparr>acc_CodeHash :=
          (case code of None \<Rightarrow> [] | Some c \<Rightarrow> if length c = 0 then [] else HashBytes sha c)\<rparr>,
       so_dirtyAccount := True\<rparr>"

definition so_empty :: "stateObject \<Rightarrow> bool" where
  "so_empty s \<longleftrightarrow> acc_Nonce (so_account s) = 0 \<and> acc_Amount (so_account s) = 0
     \<and> length (acc_CodeHash (so_account s)) = 0"

definition so_setState :: "hash \<Rightarrow> bytes \<Rightarrow> stateObject \<Rightarrow> stateObject" where
  "so_setState key value s = s\<lparr>so_dirtyStorage := (so_dirtyStorage s)(key \<mapsto> value)\<rparr>"

definition so_getState ::
  "'t trie_ops \<Rightarrow> (bytes \<Rightarrow> bytes) \<Rightarrow> stateObject \<Rightarrow> 't \<Rightarrow> hash \<Rightarrow> bool \<Rightarrow>
     't \<times> stateObject \<times> (state_error + bytes)" where
  "so_getState T sha s t key committed =
     (case (if committed then None else so_dirtyStorage s key) of
        Some v \<Rightarrow> (t, s, Inr v)
      | None \<Rightarrow>
          (case so_cachedStorage s key of
             Some v \<Rightarrow> (t, s, Inr v)
           | None \<Rightarrow>
               (case tr_Get T t (storageKey sha (so_addrHash s) key) of
                  (t', value, err) \<Rightarrow>
                    (case err of
                       Some e \<Rightarrow> (t', s, Inl (TrieErr e))
                     | None \<Rightarrow>
                         (case value of
                            None \<Rightarrow> (t', s, Inr [])
                          | Some v \<Rightarrow>
                              (t', s\<lparr>so_cachedStorage := (so_cachedStorage s)(key \<mapsto> v)\<rparr>, Inr v))))))"

text \<open>
  \<open>flush\<close> in four parts, in the order of the code. The loop over the dirty storage runs in the
  order \<open>ks\<close>, which stands for the order the runtime picks for the map.
\<close>

primrec flushStorage ::
  "'t trie_ops \<Rightarrow> (bytes \<Rightarrow> bytes) \<Rightarrow> hash list \<Rightarrow> stateObject \<Rightarrow> 't \<Rightarrow> 't \<times> stateObject \<times> state_error option" where
  "flushStorage T sha [] s t = (t, s\<lparr>so_dirtyStorage := Map.empty\<rparr>, None)"
| "flushStorage T sha (k # ks) s t =
     (case so_dirtyStorage s k of
        None \<Rightarrow> flushStorage T sha ks s t
      | Some v \<Rightarrow>
          if so_cachedStorage s k = Some v then flushStorage T sha ks s t
          else (let s' = s\<lparr>so_cachedStorage := (so_cachedStorage s)(k \<mapsto> v)\<rparr>
                in case tr_Put T t (storageKey sha (so_addrHash s) k) v of
                     (t', Some e) \<Rightarrow> (t', s', Some (TrieErr e))
                   | (t', None) \<Rightarrow> flushStorage T sha ks s' t'))"

definition flushCode :: "'t trie_ops \<Rightarrow> stateObject \<Rightarrow> 't \<Rightarrow> 't \<times> stateObject \<times> state_error option" where
  "flushCode T s t =
     (if so_dirtyCode s
      then (case tr_Put T t (dataKey (so_addrHash s) dataTypeCode [])
                   (case so_code s of None \<Rightarrow> [] | Some c \<Rightarrow> c) of
              (t', Some e) \<Rightarrow> (t', s, Some (TrieErr e))
            | (t', None) \<Rightarrow> (t', s\<lparr>so_dirtyCode := False\<rparr>, None))
      else (t, s, None))"

definition flushAccount :: "'t trie_ops \<Rightarrow> stateObject \<Rightarrow> 't \<Rightarrow> 't \<times> stateObject \<times> state_error option" where
  "flushAccount T s t =
     (if so_dirtyAccount s
      then (case serializeAccount (so_account s) of
              None \<Rightarrow> (t, s, Some StatePanic)
            | Some v \<Rightarrow>
                (case tr_Put T t (dataKey (so_addrHash s) dataTypeAccount []) v of
                   (t', Some e) \<Rightarrow> (t', s, Some (TrieErr e))
                 | (t', None) \<Rightarrow> (t', s\<lparr>so_dirtyAccount := False\<rparr>, None)))
      else (t, s, None))"

definition flushSuicide :: "'t trie_ops \<Rightarrow> stateObject \<Rightarrow> 't \<Rightarrow> 't \<times> stateObject \<times> state_error option" where
  "flushSuicide T s t =
     (if so_suicided s \<and> \<not> so_deleted s
      then (case tr_DeletePrefix T t (so_addrHash s) of
              (t', _, Some e) \<Rightarrow> (t', s, Some (TrieErr e))
            | (t', _, None) \<Rightarrow> (t', s\<lparr>so_deleted := True\<rparr>, None))
      else (t, s, None))"

definition so_flush ::
  "'t trie_ops \<Rightarrow> (bytes \<Rightarrow> bytes) \<Rightarrow> hash list \<Rightarrow> stateObject \<Rightarrow> 't \<Rightarrow> 't \<times> stateObject \<times> state_error option" where
  "so_flush T sha ks s t =
     (case flushStorage T sha ks s t of
        (t1, s1, Some e) \<Rightarrow> (t1, s1, Some e)
      | (t1, s1, None) \<Rightarrow>
          (case flushCode T s1 t1 of
             (t2, s2, Some e) \<Rightarrow> (t2, s2, Some e)
           | (t2, s2, None) \<Rightarrow>
               (case flushAccount T s2 t2 of
                  (t3, s3, Some e) \<Rightarrow> (t3, s3, Some e)
                | (t3, s3, None) \<Rightarrow> flushSuicide T s3 t3)))"

section \<open>The journal\<close>

datatype journalEntry =
    RefundChange uint64
  | StorageChange address hash bytes
  | BalanceChange address int
  | CodeChange address "bytes option"
  | NonceChange address uint64
  | SuicideChange address bool int
  | CreateObjectChange address

fun entry_dirtyAccount :: "journalEntry \<Rightarrow> address option" where
  "entry_dirtyAccount (RefundChange _) = None"
| "entry_dirtyAccount (StorageChange a _ _) = Some a"
| "entry_dirtyAccount (BalanceChange a _) = Some a"
| "entry_dirtyAccount (CodeChange a _) = Some a"
| "entry_dirtyAccount (NonceChange a _) = Some a"
| "entry_dirtyAccount (SuicideChange a _ _) = Some a"
| "entry_dirtyAccount (CreateObjectChange a) = Some a"

record journal =
  jr_entries :: "journalEntry list"
  jr_dirties :: "address \<rightharpoonup> nat"

definition newJournal :: journal where
  "newJournal = \<lparr>jr_entries = [], jr_dirties = Map.empty\<rparr>"

definition journal_append :: "journalEntry \<Rightarrow> journal \<Rightarrow> journal" where
  "journal_append e j =
     (let j' = j\<lparr>jr_entries := jr_entries j @ [e]\<rparr>
      in case entry_dirtyAccount e of
           None \<Rightarrow> j'
         | Some a \<Rightarrow> j'\<lparr>jr_dirties := (jr_dirties j)(a \<mapsto>
                         (case jr_dirties j a of None \<Rightarrow> 1 | Some n \<Rightarrow> Suc n))\<rparr>)"

definition journal_snapshot :: "journal \<Rightarrow> nat" where
  "journal_snapshot j = length (jr_entries j)"

text \<open>The bookkeeping of one undone entry: the counter drops and an entry at zero disappears.\<close>

definition undirty :: "journalEntry \<Rightarrow> (address \<rightharpoonup> nat) \<Rightarrow> (address \<rightharpoonup> nat)" where
  "undirty e d =
     (case entry_dirtyAccount e of
        None \<Rightarrow> d
      | Some a \<Rightarrow>
          (case d a of
             None \<Rightarrow> d(a \<mapsto> 2 ^ 64 - 1)
           | Some n \<Rightarrow> if n = 1 then d(a := None) else d(a \<mapsto> (if n = 0 then 2 ^ 64 - 1 else n - 1))))"

section \<open>The state database\<close>

record log_entry =
  lg_Address :: address
  lg_Topics :: "hash list"
  lg_Data :: bytes
  lg_BlockNumber :: uint64
  lg_TxIndex :: uint64

record 't statedb =
  sd_trie :: 't
  sd_objects :: "address \<rightharpoonup> stateObject"
  sd_dbErr :: "state_error option"
  sd_refund :: uint64
  sd_curTxIndex :: uint64
  sd_curLogs :: "log_entry list"
  sd_journal :: journal

definition NewStatedbWithTrie :: "'t \<Rightarrow> 't statedb" where
  "NewStatedbWithTrie t =
     \<lparr>sd_trie = t, sd_objects = Map.empty, sd_dbErr = None, sd_refund = 0, sd_curTxIndex = 0,
      sd_curLogs = [], sd_journal = newJournal\<rparr>"

definition TrieDbPrefix :: bytes where
  "TrieDbPrefix = [83]"

definition NewStatedb :: "hash \<Rightarrow> trie_db \<Rightarrow> trie_error + trie statedb" where
  "NewStatedb root db =
     (case NewTrie root TrieDbPrefix db of Inl e \<Rightarrow> Inl e | Inr t \<Rightarrow> Inr (NewStatedbWithTrie t))"

definition NewEmptyStatedb :: "trie_db \<Rightarrow> trie statedb" where
  "NewEmptyStatedb db = NewStatedbWithTrie (NewEmptyTrie TrieDbPrefix db)"

definition setError :: "state_error \<Rightarrow> 't statedb \<Rightarrow> 't statedb" where
  "setError e s = (if sd_dbErr s = None then s\<lparr>sd_dbErr := Some e\<rparr> else s)"

definition putObject :: "address \<Rightarrow> stateObject \<Rightarrow> 't statedb \<Rightarrow> 't statedb" where
  "putObject addr o1 s = s\<lparr>sd_objects := (sd_objects s)(addr \<mapsto> o1)\<rparr>"

definition record_change :: "journalEntry \<Rightarrow> 't statedb \<Rightarrow> 't statedb" where
  "record_change e s = s\<lparr>sd_journal := journal_append e (sd_journal s)\<rparr>"

definition getStateObject ::
  "'t trie_ops \<Rightarrow> (bytes \<Rightarrow> bytes) \<Rightarrow> address \<Rightarrow> 't statedb \<Rightarrow> 't statedb \<times> stateObject option" where
  "getStateObject T sha addr s =
     (case sd_objects s addr of
        Some o1 \<Rightarrow> (s, if \<not> so_deleted o1 then Some o1 else None)
      | None \<Rightarrow>
          (case loadAccount T (newStateObject sha addr) (sd_trie s) of
             (t', r) \<Rightarrow>
               (let s' = s\<lparr>sd_trie := t'\<rparr>
                in case r of
                     Inl e \<Rightarrow> (setError e s', None)
                   | Inr None \<Rightarrow> (s', None)
                   | Inr (Some o1) \<Rightarrow> (putObject addr o1 s', Some o1))))"

definition GetBalance :: "'t trie_ops \<Rightarrow> (bytes \<Rightarrow> bytes) \<Rightarrow> address \<Rightarrow> 't statedb \<Rightarrow> 't statedb \<times> int" where
  "GetBalance T sha addr s =
     (case getStateObject T sha addr s of
        (s', Some o1) \<Rightarrow> (s', acc_Amount (so_account o1))
      | (s', None) \<Rightarrow> (s', 0))"

definition SetBalance :: "'t trie_ops \<Rightarrow> (bytes \<Rightarrow> bytes) \<Rightarrow> address \<Rightarrow> int \<Rightarrow> 't statedb \<Rightarrow> 't statedb" where
  "SetBalance T sha addr balance s =
     (case getStateObject T sha addr s of
        (s', Some o1) \<Rightarrow>
          putObject addr (so_setAmount balance o1)
            (record_change (BalanceChange addr (acc_Amount (so_account o1))) s')
      | (s', None) \<Rightarrow> s')"

definition AddBalance :: "'t trie_ops \<Rightarrow> (bytes \<Rightarrow> bytes) \<Rightarrow> address \<Rightarrow> int \<Rightarrow> 't statedb \<Rightarrow> 't statedb" where
  "AddBalance T sha addr amount s =
     (case getStateObject T sha addr s of
        (s', Some o1) \<Rightarrow>
          putObject addr (so_addAmount amount o1)
            (record_change (BalanceChange addr (acc_Amount (so_account o1))) s')
      | (s', None) \<Rightarrow> s')"

definition SubBalance :: "'t trie_ops \<Rightarrow> (bytes \<Rightarrow> bytes) \<Rightarrow> address \<Rightarrow> int \<Rightarrow> 't statedb \<Rightarrow> 't statedb" where
  "SubBalance T sha addr amount s =
     (case getStateObject T sha addr s of
        (s', Some o1) \<Rightarrow>
          putObject addr (so_subAmount amount o1)
            (record_change (BalanceChange addr (acc_Amount (so_account o1))) s')
      | (s', None) \<Rightarrow> s')"

definition GetNonce :: "'t trie_ops \<Rightarrow> (bytes \<Rightarrow> bytes) \<Rightarrow> address \<Rightarrow> 't statedb \<Rightarrow> 't statedb \<times> uint64" where
  "GetNonce T sha addr s =
     (case getStateObject T sha addr s of
        (s', Some o1) \<Rightarrow> (s', acc_Nonce (so_account o1))
      | (s', None) \<Rightarrow> (s', 0))"

definition SetNonce :: "'t trie_ops \<Rightarrow> (bytes \<Rightarrow> bytes) \<Rightarrow> address \<Rightarrow> uint64 \<Rightarrow> 't statedb \<Rightarrow> 't statedb" where
  "SetNonce T sha addr nonce s =
     (case getStateObject T sha addr s of
        (s', Some o1) \<Rightarrow>
          putObject addr (so_setNonce nonce o1)
            (record_change (NonceChange addr (acc_Nonce (so_account o1))) s')
      | (s', None) \<Rightarrow> s')"

text \<open>Only the nonce is journaled.\<close>

definition SetNonce2 ::
  "'t trie_ops \<Rightarrow> (bytes \<Rightarrow> bytes) \<Rightarrow> address \<Rightarrow> uint64 \<Rightarrow> uint64 \<Rightarrow> 't statedb \<Rightarrow> 't statedb" where
  "SetNonce2 T sha addr nonce count s =
     (case getStateObject T sha addr s of
        (s', Some o1) \<Rightarrow>
          putObject addr (so_setTxCount count (so_setNonce nonce o1))
            (record_change (NonceChange addr (acc_Nonce (so_account o1))) s')
      | (s', None) \<Rightarrow> s')"

definition GetTxCount :: "'t trie_ops \<Rightarrow> (bytes \<Rightarrow> bytes) \<Rightarrow> address \<Rightarrow> 't statedb \<Rightarrow> 't statedb \<times> uint64" where
  "GetTxCount T sha addr s =
     (case getStateObject T sha addr s of
        (s', Some o1) \<Rightarrow> (s', acc_TxCount (so_account o1))
      | (s', None) \<Rightarrow> (s', 0))"

definition getData ::
  "'t trie_ops \<Rightarrow> (bytes \<Rightarrow> bytes) \<Rightarrow> address \<Rightarrow> hash \<Rightarrow> bool \<Rightarrow> 't statedb \<Rightarrow> 't statedb \<times> bytes" where
  "getData T sha addr key committed s =
     (case getStateObject T sha addr s of
        (s', None) \<Rightarrow> (s', [])
      | (s', Some o1) \<Rightarrow>
          (case so_getState T sha o1 (sd_trie s') key committed of
             (t', o2, r) \<Rightarrow>
               (let s'' = putObject addr o2 (s'\<lparr>sd_trie := t'\<rparr>)
                in case r of Inl e \<Rightarrow> (setError e s'', []) | Inr v \<Rightarrow> (s'', v))))"

definition GetData :: "'t trie_ops \<Rightarrow> (bytes \<Rightarrow> bytes) \<Rightarrow> address \<Rightarrow> hash \<Rightarrow> 't statedb \<Rightarrow> 't statedb \<times> bytes" where
  "GetData T sha addr key s = getData T sha addr key False s"

definition GetCommittedData ::
  "'t trie_ops \<Rightarrow> (bytes \<Rightarrow> bytes) \<Rightarrow> address \<Rightarrow> hash \<Rightarrow> 't statedb \<Rightarrow> 't statedb \<times> bytes" where
  "GetCommittedData T sha addr key s = getData T sha addr key True s"

definition SetData ::
  "'t trie_ops \<Rightarrow> (bytes \<Rightarrow> bytes) \<Rightarrow> address \<Rightarrow> hash \<Rightarrow> bytes \<Rightarrow> 't statedb \<Rightarrow> 't statedb" where
  "SetData T sha addr key value s =
     (case getStateObject T sha addr s of
        (s', None) \<Rightarrow> s'
      | (s', Some o1) \<Rightarrow>
          (case so_getState T sha o1 (sd_trie s') key False of
             (t', o2, r) \<Rightarrow>
               (let s'' = putObject addr o2 (s'\<lparr>sd_trie := t'\<rparr>)
                in case r of
                     Inl e \<Rightarrow> setError e s''
                   | Inr prevValue \<Rightarrow>
                       if prevValue = value then s''
                       else putObject addr (so_setState key value o2)
                              (record_change (StorageChange addr key prevValue) s''))))"

text \<open>The loop of \<open>Hash\<close> and \<open>Commit\<close>; \<open>ord\<close> gives the order of the storage map of each account.\<close>

primrec flushAll ::
  "'t trie_ops \<Rightarrow> (bytes \<Rightarrow> bytes) \<Rightarrow> (address \<Rightarrow> hash list) \<Rightarrow> address list \<Rightarrow> 't statedb \<Rightarrow>
     't statedb \<times> state_error option" where
  "flushAll T sha ord [] s = (s, None)"
| "flushAll T sha ord (a # as) s =
     (case sd_objects s a of
        None \<Rightarrow> flushAll T sha ord as s
      | Some o1 \<Rightarrow>
          (case so_flush T sha (ord a) o1 (sd_trie s) of
             (t', o2, err) \<Rightarrow>
               (let s' = putObject a o2 (s\<lparr>sd_trie := t'\<rparr>)
                in case err of Some e \<Rightarrow> (s', Some e) | None \<Rightarrow> flushAll T sha ord as s')))"

definition clearJournalAndRefund :: "'t statedb \<Rightarrow> 't statedb" where
  "clearJournalAndRefund s = s\<lparr>sd_refund := 0, sd_journal := \<lparr>jr_entries = [], jr_dirties = Map.empty\<rparr>\<rparr>"

text \<open>\<open>as\<close> is the order of the addresses of \<open>dirties\<close>.\<close>

definition Statedb_Hash ::
  "'t trie_ops \<Rightarrow> (bytes \<Rightarrow> bytes) \<Rightarrow> (address \<Rightarrow> hash list) \<Rightarrow> address list \<Rightarrow> 't statedb \<Rightarrow>
     't statedb \<times> (state_error + hash)" where
  "Statedb_Hash T sha ord as s =
     (case sd_dbErr s of
        Some e \<Rightarrow> (s, Inl e)
      | None \<Rightarrow>
          (case flushAll T sha ord as s of
             (s', Some e) \<Rightarrow> (s', Inl e)
           | (s', None) \<Rightarrow>
               (let s'' = clearJournalAndRefund s'
                in case tr_Hash T (sd_trie s'') of (t', h) \<Rightarrow> (s''\<lparr>sd_trie := t'\<rparr>, Inr h))))"

text \<open>\<open>as\<close> is the order of the addresses of \<open>stateObjects\<close>. The batch is the list of its writes.\<close>

definition Statedb_Commit ::
  "'t trie_ops \<Rightarrow> (bytes \<Rightarrow> bytes) \<Rightarrow> (address \<Rightarrow> hash list) \<Rightarrow> address list \<Rightarrow> 't statedb \<Rightarrow>
     't statedb \<times> (state_error + hash \<times> (bytes \<times> bytes) list)" where
  "Statedb_Commit T sha ord as s =
     (case sd_dbErr s of
        Some e \<Rightarrow> (s, Inl e)
      | None \<Rightarrow>
          (case flushAll T sha ord as s of
             (s', Some e) \<Rightarrow> (s', Inl e)
           | (s', None) \<Rightarrow>
               (case tr_Commit T (sd_trie s') of (t', h, ps) \<Rightarrow> (s'\<lparr>sd_trie := t'\<rparr>, Inr (h, ps)))))"

definition Snapshot :: "'t statedb \<Rightarrow> nat" where
  "Snapshot s = journal_snapshot (sd_journal s)"

definition Prepare :: "uint64 \<Rightarrow> 't statedb \<Rightarrow> 't statedb \<times> nat" where
  "Prepare txIndex s =
     (let s' = clearJournalAndRefund (s\<lparr>sd_curTxIndex := txIndex, sd_curLogs := []\<rparr>)
      in (s', Snapshot s'))"

definition CreateAccount :: "'t trie_ops \<Rightarrow> (bytes \<Rightarrow> bytes) \<Rightarrow> address \<Rightarrow> 't statedb \<Rightarrow> 't statedb" where
  "CreateAccount T sha addr s =
     (case getStateObject T sha addr s of
        (s', Some o1) \<Rightarrow> s'
      | (s', None) \<Rightarrow>
          putObject addr (newStateObject sha addr) (record_change (CreateObjectChange addr) s'))"

definition GetCodeHash :: "'t trie_ops \<Rightarrow> (bytes \<Rightarrow> bytes) \<Rightarrow> address \<Rightarrow> 't statedb \<Rightarrow> 't statedb \<times> hash" where
  "GetCodeHash T sha addr s =
     (case getStateObject T sha addr s of
        (s', Some o1) \<Rightarrow> (s', BytesToHash (acc_CodeHash (so_account o1)))
      | (s', None) \<Rightarrow> (s', EmptyHash))"

definition GetCode :: "'t trie_ops \<Rightarrow> (bytes \<Rightarrow> bytes) \<Rightarrow> address \<Rightarrow> 't statedb \<Rightarrow> 't statedb \<times> bytes option" where
  "GetCode T sha addr s =
     (case getStateObject T sha addr s of
        (s', None) \<Rightarrow> (s', None)
      | (s', Some o1) \<Rightarrow>
          (case loadCode T o1 (sd_trie s') of
             (t', o2, r) \<Rightarrow>
               (let s'' = putObject addr o2 (s'\<lparr>sd_trie := t'\<rparr>)
                in case r of Inl e \<Rightarrow> (setError e s'', None) | Inr c \<Rightarrow> (s'', c))))"

definition SetCode ::
  "'t trie_ops \<Rightarrow> (bytes \<Rightarrow> bytes) \<Rightarrow> address \<Rightarrow> bytes option \<Rightarrow> 't statedb \<Rightarrow> 't statedb" where
  "SetCode T sha addr code s =
     (case getStateObject T sha addr s of
        (s', None) \<Rightarrow> s'
      | (s', Some o1) \<Rightarrow>
          (case loadCode T o1 (sd_trie s') of
             (t', o2, r) \<Rightarrow>
               (let s'' = putObject addr o2 (s'\<lparr>sd_trie := t'\<rparr>)
                in case r of
                     Inl e \<Rightarrow> setError e s''
                   | Inr prevCode \<Rightarrow>
                       putObject addr (so_setCode sha code o2)
                         (record_change (CodeChange addr prevCode) s''))))"

definition GetCodeSize :: "'t trie_ops \<Rightarrow> (bytes \<Rightarrow> bytes) \<Rightarrow> address \<Rightarrow> 't statedb \<Rightarrow> 't statedb \<times> nat" where
  "GetCodeSize T sha addr s =
     (case GetCode T sha addr s of (s', c) \<Rightarrow> (s', case c of None \<Rightarrow> 0 | Some b \<Rightarrow> length b))"

definition Exist :: "'t trie_ops \<Rightarrow> (bytes \<Rightarrow> bytes) \<Rightarrow> address \<Rightarrow> 't statedb \<Rightarrow> 't statedb \<times> bool" where
  "Exist T sha addr s = (case getStateObject T sha addr s of (s', r) \<Rightarrow> (s', r \<noteq> None))"

definition Empty :: "'t trie_ops \<Rightarrow> (bytes \<Rightarrow> bytes) \<Rightarrow> address \<Rightarrow> 't statedb \<Rightarrow> 't statedb \<times> bool" where
  "Empty T sha addr s =
     (case getStateObject T sha addr s of
        (s', r) \<Rightarrow> (s', case r of None \<Rightarrow> True | Some o1 \<Rightarrow> so_empty o1))"

definition Suicide :: "'t trie_ops \<Rightarrow> (bytes \<Rightarrow> bytes) \<Rightarrow> address \<Rightarrow> 't statedb \<Rightarrow> 't statedb \<times> bool" where
  "Suicide T sha addr s =
     (case getStateObject T sha addr s of
        (s', None) \<Rightarrow> (s', False)
      | (s', Some o1) \<Rightarrow>
          (putObject addr ((so_setAmount 0 o1)\<lparr>so_suicided := True\<rparr>)
             (record_change (SuicideChange addr (so_suicided o1) (acc_Amount (so_account o1))) s'), True))"

definition HasSuicided :: "'t trie_ops \<Rightarrow> (bytes \<Rightarrow> bytes) \<Rightarrow> address \<Rightarrow> 't statedb \<Rightarrow> 't statedb \<times> bool" where
  "HasSuicided T sha addr s =
     (case getStateObject T sha addr s of
        (s', r) \<Rightarrow> (s', case r of None \<Rightarrow> False | Some o1 \<Rightarrow> so_suicided o1))"

text \<open>
  \<open>revert\<close> of one entry; a nil state object is a nil dereference, except for \<open>suicideChange\<close>. The
  amount is assigned, not set, so no sign test applies.
\<close>

definition with_object ::
  "'t trie_ops \<Rightarrow> (bytes \<Rightarrow> bytes) \<Rightarrow> address \<Rightarrow> (stateObject \<Rightarrow> stateObject) \<Rightarrow> 't statedb \<Rightarrow>
     state_error + 't statedb" where
  "with_object T sha addr f s =
     (case getStateObject T sha addr s of
        (s', None) \<Rightarrow> Inl StatePanic
      | (s', Some o1) \<Rightarrow> Inr (putObject addr (f o1) s'))"

fun entry_revert ::
  "'t trie_ops \<Rightarrow> (bytes \<Rightarrow> bytes) \<Rightarrow> journalEntry \<Rightarrow> 't statedb \<Rightarrow> state_error + 't statedb" where
  "entry_revert T sha (RefundChange prev) s = Inr (s\<lparr>sd_refund := prev\<rparr>)"
| "entry_revert T sha (StorageChange a key prev) s = with_object T sha a (so_setState key prev) s"
| "entry_revert T sha (BalanceChange a prev) s =
     with_object T sha a (\<lambda>o1. o1\<lparr>so_account := (so_account o1)\<lparr>acc_Amount := prev\<rparr>\<rparr>) s"
| "entry_revert T sha (CodeChange a prev) s = with_object T sha a (so_setCode sha prev) s"
| "entry_revert T sha (NonceChange a prev) s =
     with_object T sha a (\<lambda>o1. o1\<lparr>so_account := (so_account o1)\<lparr>acc_Nonce := prev\<rparr>\<rparr>) s"
| "entry_revert T sha (SuicideChange a prevSuicided prevBalance) s =
     (case getStateObject T sha a s of
        (s', None) \<Rightarrow> Inr s'
      | (s', Some o1) \<Rightarrow>
          Inr (putObject a (o1\<lparr>so_suicided := prevSuicided,
                 so_account := (so_account o1)\<lparr>acc_Amount := prevBalance\<rparr>\<rparr>) s'))"
| "entry_revert T sha (CreateObjectChange a) s = Inr (s\<lparr>sd_objects := (sd_objects s)(a := None)\<rparr>)"

text \<open>
  The loop of \<open>journal.revert\<close>, from the last entry down. The slice expression at the end panics
  when the snapshot is beyond the journal.
\<close>

primrec revert_loop ::
  "'t trie_ops \<Rightarrow> (bytes \<Rightarrow> bytes) \<Rightarrow> journalEntry list \<Rightarrow> 't statedb \<Rightarrow> state_error + 't statedb" where
  "revert_loop T sha [] s = Inr s"
| "revert_loop T sha (e # es) s =
     (case entry_revert T sha e s of
        Inl x \<Rightarrow> Inl x
      | Inr s' \<Rightarrow>
          revert_loop T sha es
            (s'\<lparr>sd_journal := (sd_journal s')\<lparr>jr_dirties := undirty e (jr_dirties (sd_journal s'))\<rparr>\<rparr>))"

definition RevertToSnapshot ::
  "'t trie_ops \<Rightarrow> (bytes \<Rightarrow> bytes) \<Rightarrow> nat \<Rightarrow> 't statedb \<Rightarrow> state_error + 't statedb" where
  "RevertToSnapshot T sha revid s =
     (if length (jr_entries (sd_journal s)) < revid then Inl StatePanic
      else case revert_loop T sha (rev (drop revid (jr_entries (sd_journal s)))) s of
             Inl x \<Rightarrow> Inl x
           | Inr s' \<Rightarrow>
               Inr (s'\<lparr>sd_journal := (sd_journal s')\<lparr>jr_entries := take revid (jr_entries (sd_journal s'))\<rparr>\<rparr>))"

definition AddLog :: "log_entry \<Rightarrow> 't statedb \<Rightarrow> 't statedb" where
  "AddLog lg s = s\<lparr>sd_curLogs := sd_curLogs s @ [lg\<lparr>lg_TxIndex := sd_curTxIndex s\<rparr>]\<rparr>"

definition AddRefund :: "uint64 \<Rightarrow> 't statedb \<Rightarrow> 't statedb" where
  "AddRefund gas s = (record_change (RefundChange (sd_refund s)) s)\<lparr>sd_refund := sd_refund s + gas\<rparr>"

definition SubRefund :: "uint64 \<Rightarrow> 't statedb \<Rightarrow> 't statedb \<times> state_error option" where
  "SubRefund gas s =
     (let s' = record_change (RefundChange (sd_refund s)) s
      in if sd_refund s < gas then (s', Some StatePanic)
         else (s'\<lparr>sd_refund := sd_refund s - gas\<rparr>, None))"

definition GetRefund :: "'t statedb \<Rightarrow> uint64" where
  "GetRefund s = sd_refund s"

end
