(* ===== verification/State_View.thy ===== *)
theory State_View
  imports State
begin

text \<open>
  What a state database shows: for each address the balance, nonce, code, storage and suicide mark
  that the getters return, as a function of the entries of the trie and the cached objects. The
  contract of the trie the database works on is a locale, interpreted by the Merkle Patricia trie.
  Every operation is related to this view: getters return it, and setters change it at one address.
\<close>

section \<open>The contract of the trie\<close>

locale trie_contract =
  fixes T :: "'t trie_ops" and models :: "'t \<Rightarrow> (bytes \<rightharpoonup> bytes) \<Rightarrow> bool"
  assumes get_law: "models t M \<Longrightarrow> \<exists>t'. tr_Get T t k = (t', M k, None) \<and> models t' M"
    and put_law: "models t M \<Longrightarrow> \<exists>t'. tr_Put T t k v = (t', None) \<and> models t' (M(k \<mapsto> v))"
    and delete_law: "models t M \<Longrightarrow> p \<noteq> [] \<Longrightarrow>
      \<exists>t' b. tr_DeletePrefix T t p = (t', b, None) \<and> models t' (\<lambda>k. if prefix p k then None else M k)"

definition mpt_models :: "(bytes \<Rightarrow> bytes) \<Rightarrow> trie_db \<Rightarrow> bytes \<Rightarrow> trie \<Rightarrow> (bytes \<rightharpoonup> bytes) \<Rightarrow> bool" where
  "mpt_models sha db pfx t M \<longleftrightarrow> holds t M \<and> trie_inv sha t \<and> t_db t = db \<and> t_dbprefix t = pfx"

interpretation mpt: trie_contract "mpt_ops sha" "mpt_models sha db pfx" for sha db pfx
proof
  fix t M k v and p :: bytes
  assume m: "mpt_models sha db pfx t M"
  then have h: "holds t M" and i: "trie_inv sha t" by (auto simp: mpt_models_def)
  show "\<exists>t'. tr_Get (mpt_ops sha) t k = (t', M k, None) \<and> mpt_models sha db pfx t' M"
    using trie_Get_holds [OF h, of k] trie_Get_inv [OF i] m by (fastforce simp: mpt_ops_def mpt_models_def)
  show "\<exists>t'. tr_Put (mpt_ops sha) t k v = (t', None) \<and> mpt_models sha db pfx t' (M(k \<mapsto> v))"
    using trie_Put_holds [OF h, of k v] trie_Put_inv [OF i] m
    by (fastforce simp: mpt_ops_def mpt_models_def simp del: fun_upd_apply)
  assume "p \<noteq> []"
  then show "\<exists>t' b. tr_DeletePrefix (mpt_ops sha) t p = (t', b, None)
      \<and> mpt_models sha db pfx t' (\<lambda>k. if prefix p k then None else M k)"
    using trie_DeletePrefix_holds [OF h, of p] trie_DeletePrefix_inv [OF i] m
    by (fastforce simp: mpt_ops_def mpt_models_def)
qed

section \<open>Views\<close>

text \<open>The transaction count is left out: it is not journaled.\<close>

record view =
  vw_nonce :: uint64
  vw_amount :: int
  vw_codehash :: bytes
  vw_code :: bytes
  vw_storage :: "hash \<Rightarrow> bytes"
  vw_suicided :: bool

definition opt_bytes :: "bytes option \<Rightarrow> bytes" where
  "opt_bytes r = (case r of None \<Rightarrow> [] | Some b \<Rightarrow> b)"

definition obj_code :: "(bytes \<rightharpoonup> bytes) \<Rightarrow> stateObject \<Rightarrow> bytes" where
  "obj_code M o1 =
     (case so_code o1 of
        Some c \<Rightarrow> c
      | None \<Rightarrow> if acc_CodeHash (so_account o1) = [] then []
                else opt_bytes (M (dataKey (so_addrHash o1) dataTypeCode [])))"

definition obj_storage :: "(bytes \<Rightarrow> bytes) \<Rightarrow> (bytes \<rightharpoonup> bytes) \<Rightarrow> stateObject \<Rightarrow> hash \<Rightarrow> bytes" where
  "obj_storage sha M o1 k =
     (case so_dirtyStorage o1 k of
        Some v \<Rightarrow> v
      | None \<Rightarrow>
          (case so_cachedStorage o1 k of
             Some v \<Rightarrow> v
           | None \<Rightarrow> opt_bytes (M (storageKey sha (so_addrHash o1) k))))"

definition obj_view :: "(bytes \<Rightarrow> bytes) \<Rightarrow> (bytes \<rightharpoonup> bytes) \<Rightarrow> stateObject \<Rightarrow> view" where
  "obj_view sha M o1 =
     \<lparr>vw_nonce = acc_Nonce (so_account o1), vw_amount = acc_Amount (so_account o1),
      vw_codehash = acc_CodeHash (so_account o1), vw_code = obj_code M o1,
      vw_storage = obj_storage sha M o1, vw_suicided = so_suicided o1\<rparr>"

lemma obj_code_cong:
  "so_code o2 = so_code o1 \<Longrightarrow> acc_CodeHash (so_account o2) = acc_CodeHash (so_account o1) \<Longrightarrow>
     so_addrHash o2 = so_addrHash o1 \<Longrightarrow> obj_code M o2 = obj_code M o1"
  by (simp add: obj_code_def split: option.splits)

lemma obj_storage_cong:
  "so_dirtyStorage o2 = so_dirtyStorage o1 \<Longrightarrow> so_cachedStorage o2 = so_cachedStorage o1 \<Longrightarrow>
     so_addrHash o2 = so_addrHash o1 \<Longrightarrow> obj_storage sha M o2 = obj_storage sha M o1"
  by (simp add: obj_storage_def fun_eq_iff split: option.splits)

text \<open>The object a trie holds for an address, and the object the database works on.\<close>

definition trie_object :: "(bytes \<Rightarrow> bytes) \<Rightarrow> (bytes \<rightharpoonup> bytes) \<Rightarrow> address \<Rightarrow> stateObject option" where
  "trie_object sha M a =
     (case M (dataKey (MustHash sha a) dataTypeAccount []) of
        None \<Rightarrow> None
      | Some v \<Rightarrow> map_option (\<lambda>acc. (newStateObject sha a)\<lparr>so_account := acc\<rparr>) (deserializeAccount v))"

definition find_object ::
  "(bytes \<Rightarrow> bytes) \<Rightarrow> (bytes \<rightharpoonup> bytes) \<Rightarrow> (address \<rightharpoonup> stateObject) \<Rightarrow> address \<Rightarrow> stateObject option" where
  "find_object sha M objs a =
     (case objs a of
        Some o1 \<Rightarrow> if so_deleted o1 then None else Some o1
      | None \<Rightarrow> trie_object sha M a)"

definition sview ::
  "(bytes \<Rightarrow> bytes) \<Rightarrow> (bytes \<rightharpoonup> bytes) \<Rightarrow> (address \<rightharpoonup> stateObject) \<Rightarrow> address \<rightharpoonup> view" where
  "sview sha M objs a = map_option (obj_view sha M) (find_object sha M objs a)"

section \<open>Well-formed states\<close>

definition code_ok :: "(bytes \<Rightarrow> bytes) \<Rightarrow> (bytes \<rightharpoonup> bytes) \<Rightarrow> stateObject \<Rightarrow> bool" where
  "code_ok sha M o1 \<longleftrightarrow>
     acc_CodeHash (so_account o1) = (if obj_code M o1 = [] then [] else HashBytes sha (obj_code M o1))"

definition object_ok :: "(bytes \<Rightarrow> bytes) \<Rightarrow> (bytes \<rightharpoonup> bytes) \<Rightarrow> address \<Rightarrow> stateObject \<Rightarrow> bool" where
  "object_ok sha M a o1 \<longleftrightarrow>
     so_addrHash o1 = MustHash sha a \<and> code_ok sha M o1 \<and> 0 \<le> acc_Amount (so_account o1)
     \<and> (so_deleted o1 \<longrightarrow> trie_object sha M a = None)"

definition state_ok :: "(bytes \<Rightarrow> bytes) \<Rightarrow> (bytes \<rightharpoonup> bytes) \<Rightarrow> (address \<rightharpoonup> stateObject) \<Rightarrow> bool" where
  "state_ok sha M objs \<longleftrightarrow>
     (\<forall>a o1. objs a = Some o1 \<longrightarrow> object_ok sha M a o1)
     \<and> (\<forall>a o1. trie_object sha M a = Some o1 \<longrightarrow> object_ok sha M a o1)"

lemma trie_object_fields:
  "trie_object sha M a = Some o1 \<Longrightarrow> \<not> so_deleted o1 \<and> \<not> so_suicided o1 \<and> so_code o1 = None
     \<and> so_dirtyStorage o1 = Map.empty \<and> so_cachedStorage o1 = Map.empty \<and> so_addrHash o1 = MustHash sha a"
  by (auto simp: trie_object_def newStateObject_def split: option.splits)

lemma state_ok_find:
  "state_ok sha M objs \<Longrightarrow> find_object sha M objs a = Some o1 \<Longrightarrow> object_ok sha M a o1 \<and> \<not> so_deleted o1"
  using trie_object_fields by (fastforce simp: state_ok_def find_object_def split: option.splits if_splits)

lemma state_ok_upd:
  "state_ok sha M objs \<Longrightarrow> object_ok sha M a o1 \<Longrightarrow> state_ok sha M (objs(a \<mapsto> o1))"
  by (auto simp: state_ok_def)

lemma state_ok_remove: "state_ok sha M objs \<Longrightarrow> state_ok sha M (objs(a := None))"
  by (auto simp: state_ok_def)

lemma find_object_upd [simp]:
  "find_object sha M (objs(a \<mapsto> o1)) b =
     (if b = a then (if so_deleted o1 then None else Some o1) else find_object sha M objs b)"
  by (simp add: find_object_def)

lemma sview_upd:
  "\<not> so_deleted o1 \<Longrightarrow> sview sha M (objs(a \<mapsto> o1)) = (sview sha M objs)(a \<mapsto> obj_view sha M o1)"
  by (simp add: sview_def fun_eq_iff)

lemma sview_remove:
  "sview sha M (objs(a := None)) = (sview sha M objs)(a := map_option (obj_view sha M) (trie_object sha M a))"
  by (simp add: sview_def find_object_def fun_eq_iff)

text \<open>Caching what the trie holds changes no view.\<close>

lemma sview_load:
  "find_object sha M objs a = Some o1 \<Longrightarrow> obj_view sha M o2 = obj_view sha M o1 \<Longrightarrow> \<not> so_deleted o2 \<Longrightarrow>
     sview sha M (objs(a \<mapsto> o2)) = sview sha M objs"
  by (simp add: sview_upd) (simp add: sview_def fun_eq_iff)

lemma statedb_updates [simp]:
  "sd_objects (putObject a o1 s) = (sd_objects s)(a \<mapsto> o1)" "sd_trie (putObject a o1 s) = sd_trie s"
  "sd_journal (putObject a o1 s) = sd_journal s" "sd_refund (putObject a o1 s) = sd_refund s"
  "sd_dbErr (putObject a o1 s) = sd_dbErr s"
  "sd_objects (record_change e s) = sd_objects s" "sd_trie (record_change e s) = sd_trie s"
  "sd_refund (record_change e s) = sd_refund s" "sd_dbErr (record_change e s) = sd_dbErr s"
  "sd_journal (record_change e s) = journal_append e (sd_journal s)"
  "sd_objects (setError x s) = sd_objects s" "sd_trie (setError x s) = sd_trie s"
  "sd_refund (setError x s) = sd_refund s" "sd_journal (setError x s) = sd_journal s"
  by (simp_all add: putObject_def record_change_def setError_def)

lemma journal_append_entries [simp]: "jr_entries (journal_append e j) = jr_entries j @ [e]"
  by (simp add: journal_append_def Let_def split: option.splits)

section \<open>Reading\<close>

text \<open>
  \<open>reads\<close>: a step that may load nodes and cache objects and values but leaves the view, the journal
  and the refund counter alone.
\<close>

definition reads :: "(bytes \<Rightarrow> bytes) \<Rightarrow> (bytes \<rightharpoonup> bytes) \<Rightarrow> 't statedb \<Rightarrow> 't statedb \<Rightarrow> bool" where
  "reads sha M s s' \<longleftrightarrow>
     sview sha M (sd_objects s') = sview sha M (sd_objects s)
     \<and> sd_journal s' = sd_journal s \<and> sd_refund s' = sd_refund s \<and> state_ok sha M (sd_objects s')"

lemma reads_trans: "reads sha M s s' \<Longrightarrow> reads sha M s' s'' \<Longrightarrow> reads sha M s s''"
  by (simp add: reads_def)

context trie_contract
begin

lemma getStateObject_found:
  assumes m: "models (sd_trie s) M" and ok: "state_ok sha M (sd_objects s)"
  obtains s' where "getStateObject T sha a s = (s', find_object sha M (sd_objects s) a)"
    "models (sd_trie s') M" "reads sha M s s'"
    "\<And>o1. find_object sha M (sd_objects s) a = Some o1 \<Longrightarrow> find_object sha M (sd_objects s') a = Some o1"
proof (cases "sd_objects s a")
  case (Some o1)
  then show thesis using that [of s] m ok by (auto simp: getStateObject_def find_object_def reads_def)
next
  case None
  let ?o = "newStateObject sha a" and ?k = "dataKey (MustHash sha a) dataTypeAccount []"
  obtain t' where t': "tr_Get T (sd_trie s) ?k = (t', M ?k, None)" "models t' M" using get_law [OF m] by blast
  have key: "dataKey (so_addrHash ?o) dataTypeAccount [] = ?k" by (simp add: newStateObject_def)
  have nd: "\<not> so_deleted o1" if "trie_object sha M a = Some o1" for o1
    using trie_object_fields [OF that] by simp
  have load: "loadAccount T ?o (sd_trie s) =
     (t', case M ?k of None \<Rightarrow> Inr None | Some v \<Rightarrow>
            (case deserializeAccount v of None \<Rightarrow> Inl DecodeErr | Some acc \<Rightarrow> Inr (Some (?o\<lparr>so_account := acc\<rparr>))))"
    by (simp add: loadAccount_def key t'(1))
  show thesis
  proof (cases "trie_object sha M a")
    case (Some o1)
    then obtain v acc where "M ?k = Some v" "deserializeAccount v = Some acc" "o1 = ?o\<lparr>so_account := acc\<rparr>"
      by (auto simp: trie_object_def split: option.splits)
    then have "getStateObject T sha a s = (putObject a o1 (s\<lparr>sd_trie := t'\<rparr>), Some o1)"
      using None load by (simp add: getStateObject_def Let_def)
    moreover have "find_object sha M (sd_objects s) a = Some o1" using None Some by (simp add: find_object_def)
    moreover have "object_ok sha M a o1" using ok Some by (auto simp: state_ok_def)
    ultimately show thesis
      using that [of "putObject a o1 (s\<lparr>sd_trie := t'\<rparr>)"] t'(2) nd [OF Some] ok
      by (simp add: reads_def state_ok_upd sview_load)
  next
    case none: None
    then have "fst (getStateObject T sha a s) = s\<lparr>sd_trie := t'\<rparr>
        \<or> fst (getStateObject T sha a s) = setError DecodeErr (s\<lparr>sd_trie := t'\<rparr>)"
      "snd (getStateObject T sha a s) = None"
      using None load
      by (auto simp: getStateObject_def Let_def trie_object_def split: option.splits)
    moreover have "find_object sha M (sd_objects s) a = None" using None none by (simp add: find_object_def)
    ultimately show thesis
      using that [of "fst (getStateObject T sha a s)"] t'(2) ok by (auto simp: reads_def prod_eq_iff)
  qed
qed

lemma so_getState_found:
  assumes m: "models t M" and o1: "object_ok sha M a o1" "\<not> so_deleted o1"
  obtains t' o2 where "so_getState T sha o1 t k False = (t', o2, Inr (obj_storage sha M o1 k))"
    "models t' M" "obj_view sha M o2 = obj_view sha M o1" "object_ok sha M a o2" "\<not> so_deleted o2"
proof -
  obtain t' where t': "tr_Get T t (storageKey sha (so_addrHash o1) k) = (t', M (storageKey sha (so_addrHash o1) k), None)"
    "models t' M" using get_law [OF m] by blast
  show thesis
  proof (cases "so_dirtyStorage o1 k = None \<and> so_cachedStorage o1 k = None")
    case True
    show thesis
    proof (cases "M (storageKey sha (so_addrHash o1) k)")
      case None
      then show thesis using that [of t' o1] True t' o1
        by (simp add: so_getState_def obj_storage_def opt_bytes_def)
    next
      case (Some v)
      let ?o2 = "o1\<lparr>so_cachedStorage := (so_cachedStorage o1)(k \<mapsto> v)\<rparr>"
      have "obj_storage sha M ?o2 = obj_storage sha M o1"
        using True Some by (auto simp: obj_storage_def fun_eq_iff opt_bytes_def split: option.splits)
      moreover have "obj_code M ?o2 = obj_code M o1" by (rule obj_code_cong) simp_all
      ultimately show thesis
        using that [of t' ?o2] True Some t' o1
        by (simp add: so_getState_def obj_view_def object_ok_def code_ok_def)
          (simp add: obj_storage_def opt_bytes_def)
    qed
  next
    case False
    then show thesis using that [of t o1] m o1
      by (auto simp: so_getState_def obj_storage_def split: option.splits)
  qed
qed

lemma loadCode_found:
  assumes m: "models t M" and o1: "object_ok sha M a o1" "\<not> so_deleted o1"
  obtains t' o2 c where "loadCode T o1 t = (t', o2, Inr c)" "opt_bytes c = obj_code M o1"
    "models t' M" "obj_view sha M o2 = obj_view sha M o1" "object_ok sha M a o2" "\<not> so_deleted o2"
proof -
  let ?k = "dataKey (so_addrHash o1) dataTypeCode []"
  obtain t' where t': "tr_Get T t ?k = (t', M ?k, None)" "models t' M" using get_law [OF m] by blast
  show thesis
  proof (cases "so_code o1 = None \<and> acc_CodeHash (so_account o1) \<noteq> []")
    case True
    show thesis
    proof (cases "M ?k")
      case None
      then show thesis using that [of t' o1 None] True t' o1
        by (simp add: loadCode_def obj_code_def opt_bytes_def)
    next
      case (Some c)
      let ?o2 = "o1\<lparr>so_code := Some c\<rparr>"
      have c: "obj_code M ?o2 = c" "obj_code M o1 = c"
        using True Some by (simp_all add: obj_code_def opt_bytes_def)
      moreover have "obj_storage sha M ?o2 = obj_storage sha M o1" by (rule obj_storage_cong) simp_all
      ultimately show thesis using that [of t' ?o2 "Some c"] True Some t' o1
        by (simp add: loadCode_def obj_view_def object_ok_def code_ok_def opt_bytes_def)
    qed
  next
    case False
    then show thesis using that [of t o1 "so_code o1"] m o1
      by (auto simp: loadCode_def obj_code_def opt_bytes_def split: option.splits)
  qed
qed

text \<open>The getters return the view.\<close>

lemma reads_put:
  assumes "reads sha M s s'" "find_object sha M (sd_objects s') a = Some o1"
    "obj_view sha M o2 = obj_view sha M o1" "object_ok sha M a o2" "\<not> so_deleted o2"
  shows "reads sha M s (putObject a o2 (s'\<lparr>sd_trie := t'\<rparr>))"
  using assms by (simp add: reads_def state_ok_upd sview_load)

lemma getters:
  fixes a :: address
  assumes m: "models (sd_trie s) M" and ok: "state_ok sha M (sd_objects s)"
  defines "w \<equiv> sview sha M (sd_objects s) a"
  shows "\<exists>s'. GetBalance T sha a s = (s', case w of None \<Rightarrow> 0 | Some x \<Rightarrow> vw_amount x) \<and> models (sd_trie s') M \<and> reads sha M s s'"
    and "\<exists>s'. GetNonce T sha a s = (s', case w of None \<Rightarrow> 0 | Some x \<Rightarrow> vw_nonce x) \<and> models (sd_trie s') M \<and> reads sha M s s'"
    and "\<exists>s'. GetCodeHash T sha a s = (s', case w of None \<Rightarrow> EmptyHash | Some x \<Rightarrow> BytesToHash (vw_codehash x))
      \<and> models (sd_trie s') M \<and> reads sha M s s'"
    and "\<exists>s'. Exist T sha a s = (s', w \<noteq> None) \<and> models (sd_trie s') M \<and> reads sha M s s'"
    and "\<exists>s'. HasSuicided T sha a s = (s', case w of None \<Rightarrow> False | Some x \<Rightarrow> vw_suicided x)
      \<and> models (sd_trie s') M \<and> reads sha M s s'"
    and "\<exists>s'. Empty T sha a s =
        (s', case w of None \<Rightarrow> True | Some x \<Rightarrow> vw_nonce x = 0 \<and> vw_amount x = 0 \<and> vw_codehash x = [])
      \<and> models (sd_trie s') M \<and> reads sha M s s'"
proof -
  obtain s' where s': "getStateObject T sha a s = (s', find_object sha M (sd_objects s) a)"
    "models (sd_trie s') M" "reads sha M s s'"
    using getStateObject_found [OF m ok] by blast
  note defs = w_def GetBalance_def GetNonce_def GetCodeHash_def Exist_def HasSuicided_def Empty_def
    sview_def obj_view_def so_empty_def
  show "\<exists>s'. GetBalance T sha a s = (s', case w of None \<Rightarrow> 0 | Some x \<Rightarrow> vw_amount x) \<and> models (sd_trie s') M \<and> reads sha M s s'"
    and "\<exists>s'. GetNonce T sha a s = (s', case w of None \<Rightarrow> 0 | Some x \<Rightarrow> vw_nonce x) \<and> models (sd_trie s') M \<and> reads sha M s s'"
    and "\<exists>s'. GetCodeHash T sha a s = (s', case w of None \<Rightarrow> EmptyHash | Some x \<Rightarrow> BytesToHash (vw_codehash x))
      \<and> models (sd_trie s') M \<and> reads sha M s s'"
    and "\<exists>s'. Exist T sha a s = (s', w \<noteq> None) \<and> models (sd_trie s') M \<and> reads sha M s s'"
    and "\<exists>s'. HasSuicided T sha a s = (s', case w of None \<Rightarrow> False | Some x \<Rightarrow> vw_suicided x)
      \<and> models (sd_trie s') M \<and> reads sha M s s'"
    and "\<exists>s'. Empty T sha a s =
        (s', case w of None \<Rightarrow> True | Some x \<Rightarrow> vw_nonce x = 0 \<and> vw_amount x = 0 \<and> vw_codehash x = [])
      \<and> models (sd_trie s') M \<and> reads sha M s s'"
    using s' by (simp_all add: defs split: option.splits)
qed

lemma GetTxCount_reads:
  assumes m: "models (sd_trie s) M" and ok: "state_ok sha M (sd_objects s)"
  shows "models (sd_trie (fst (GetTxCount T sha a s))) M \<and> reads sha M s (fst (GetTxCount T sha a s))"
proof -
  obtain s' where "getStateObject T sha a s = (s', find_object sha M (sd_objects s) a)"
    "models (sd_trie s') M" "reads sha M s s'"
    using getStateObject_found [OF m ok] by blast
  then show ?thesis by (simp add: GetTxCount_def split: option.splits)
qed

lemma GetData_view:
  assumes m: "models (sd_trie s) M" and ok: "state_ok sha M (sd_objects s)"
  shows "\<exists>s'. GetData T sha a k s =
      (s', case sview sha M (sd_objects s) a of None \<Rightarrow> [] | Some x \<Rightarrow> vw_storage x k)
    \<and> models (sd_trie s') M \<and> reads sha M s s'"
proof -
  obtain s' where s': "getStateObject T sha a s = (s', find_object sha M (sd_objects s) a)"
    "models (sd_trie s') M" "reads sha M s s'"
    "\<And>o1. find_object sha M (sd_objects s) a = Some o1 \<Longrightarrow> find_object sha M (sd_objects s') a = Some o1"
    using getStateObject_found [OF m ok] by blast
  show ?thesis
  proof (cases "find_object sha M (sd_objects s) a")
    case None
    then show ?thesis using s' by (auto simp: GetData_def getData_def sview_def)
  next
    case (Some o1)
    obtain t' o2 where g: "so_getState T sha o1 (sd_trie s') k False = (t', o2, Inr (obj_storage sha M o1 k))"
      "models t' M" "obj_view sha M o2 = obj_view sha M o1" "object_ok sha M a o2" "\<not> so_deleted o2"
      using so_getState_found [OF s'(2)] state_ok_find [OF ok Some] by blast
    show ?thesis using Some s' g reads_put [OF s'(3,4) g(3-5), OF Some]
      by (auto simp: GetData_def getData_def sview_def Let_def) (simp add: obj_view_def)
  qed
qed

lemma GetCode_view:
  assumes m: "models (sd_trie s) M" and ok: "state_ok sha M (sd_objects s)"
  shows "\<exists>s' c. GetCode T sha a s = (s', c)
    \<and> opt_bytes c = (case sview sha M (sd_objects s) a of None \<Rightarrow> [] | Some x \<Rightarrow> vw_code x)
    \<and> models (sd_trie s') M \<and> reads sha M s s'"
proof -
  obtain s' where s': "getStateObject T sha a s = (s', find_object sha M (sd_objects s) a)"
    "models (sd_trie s') M" "reads sha M s s'"
    "\<And>o1. find_object sha M (sd_objects s) a = Some o1 \<Longrightarrow> find_object sha M (sd_objects s') a = Some o1"
    using getStateObject_found [OF m ok] by blast
  show ?thesis
  proof (cases "find_object sha M (sd_objects s) a")
    case None
    then show ?thesis using s' by (auto simp: GetCode_def sview_def opt_bytes_def)
  next
    case (Some o1)
    obtain t' o2 c where g: "loadCode T o1 (sd_trie s') = (t', o2, Inr c)" "opt_bytes c = obj_code M o1"
      "models t' M" "obj_view sha M o2 = obj_view sha M o1" "object_ok sha M a o2" "\<not> so_deleted o2"
      using loadCode_found [OF s'(2)] state_ok_find [OF ok Some] by blast
    show ?thesis using Some s' g reads_put [OF s'(3,4) g(4-6), OF Some]
      by (auto simp: GetCode_def sview_def Let_def) (simp add: obj_view_def)
  qed
qed

end

end
