(* ===== verification/State_Revert.thy ===== *)
theory State_Revert
  imports State_View
begin

text \<open>
  Snapshots, \<open>src/core/state/journal.go\<close>: the undo log restores what the getters show. An abstract
  undo acts on views alone; reverting an entry refines it, and every operation appends entries whose
  undo leads back to the view before the operation.
\<close>

section \<open>Abstract undo\<close>

type_synonym shown = "(address \<rightharpoonup> view) \<times> uint64"

definition on_view :: "address \<Rightarrow> (view \<Rightarrow> view) \<Rightarrow> shown \<Rightarrow> shown option" where
  "on_view a f V = (case fst V a of None \<Rightarrow> None | Some w \<Rightarrow> Some ((fst V)(a \<mapsto> f w), snd V))"

fun avert :: "(bytes \<Rightarrow> bytes) \<Rightarrow> (bytes \<rightharpoonup> bytes) \<Rightarrow> journalEntry \<Rightarrow> shown \<Rightarrow> shown option" where
  "avert sha M (RefundChange prev) V = Some (fst V, prev)"
| "avert sha M (StorageChange a k prev) V =
     on_view a (\<lambda>w. w\<lparr>vw_storage := (vw_storage w)(k := prev)\<rparr>) V"
| "avert sha M (BalanceChange a prev) V =
     (if 0 \<le> prev then on_view a (\<lambda>w. w\<lparr>vw_amount := prev\<rparr>) V else None)"
| "avert sha M (CodeChange a prev) V =
     on_view a (\<lambda>w. w\<lparr>vw_code := opt_bytes prev,
       vw_codehash := (if opt_bytes prev = [] then [] else HashBytes sha (opt_bytes prev))\<rparr>) V"
| "avert sha M (NonceChange a prev) V = on_view a (\<lambda>w. w\<lparr>vw_nonce := prev\<rparr>) V"
| "avert sha M (SuicideChange a prevSuicided prevBalance) V =
     (if 0 \<le> prevBalance
      then on_view a (\<lambda>w. w\<lparr>vw_suicided := prevSuicided, vw_amount := prevBalance\<rparr>) V else None)"
| "avert sha M (CreateObjectChange a) V =
     Some ((fst V)(a := map_option (obj_view sha M) (trie_object sha M a)), snd V)"

primrec averts :: "(bytes \<Rightarrow> bytes) \<Rightarrow> (bytes \<rightharpoonup> bytes) \<Rightarrow> journalEntry list \<Rightarrow> shown \<Rightarrow> shown option" where
  "averts sha M [] V = Some V"
| "averts sha M (e # es) V = (case avert sha M e V of None \<Rightarrow> None | Some V' \<Rightarrow> averts sha M es V')"

lemma averts_append:
  "averts sha M (es @ fs) V = (case averts sha M es V of None \<Rightarrow> None | Some V' \<Rightarrow> averts sha M fs V')"
  by (induction es arbitrary: V) (auto split: option.splits)

text \<open>The dirty counters of a list of entries.\<close>

definition dirt :: "journalEntry list \<Rightarrow> address \<rightharpoonup> nat" where
  "dirt es a =
     (let n = length (filter (\<lambda>e. entry_dirtyAccount e = Some a) es) in if n = 0 then None else Some n)"

definition journal_ok :: "journal \<Rightarrow> bool" where
  "journal_ok j \<longleftrightarrow> jr_dirties j = dirt (jr_entries j)"

lemma journal_ok_append: "journal_ok j \<Longrightarrow> journal_ok (journal_append e j)"
  by (cases "entry_dirtyAccount e")
    (auto simp: journal_ok_def journal_append_def dirt_def Let_def fun_eq_iff split: option.splits)

lemma undirty_dirt: "undirty e (dirt (es @ [e])) = dirt es"
  by (cases "entry_dirtyAccount e") (auto simp: undirty_def dirt_def Let_def fun_eq_iff)

abbreviation shown_by :: "(bytes \<Rightarrow> bytes) \<Rightarrow> (bytes \<rightharpoonup> bytes) \<Rightarrow> 't statedb \<Rightarrow> shown" where
  "shown_by sha M s \<equiv> (sview sha M (sd_objects s), sd_refund s)"

section \<open>Views of the object setters\<close>

lemma setter_views:
  "obj_view sha M (so_setState k v o1) = (obj_view sha M o1)\<lparr>vw_storage := (vw_storage (obj_view sha M o1))(k := v)\<rparr>"
  "obj_view sha M (o1\<lparr>so_account := (so_account o1)\<lparr>acc_Amount := n\<rparr>\<rparr>) = (obj_view sha M o1)\<lparr>vw_amount := n\<rparr>"
  "obj_view sha M (o1\<lparr>so_account := (so_account o1)\<lparr>acc_Nonce := c\<rparr>\<rparr>) = (obj_view sha M o1)\<lparr>vw_nonce := c\<rparr>"
  "obj_view sha M (so_setNonce c o1) = (obj_view sha M o1)\<lparr>vw_nonce := c\<rparr>"
  "obj_view sha M (so_setTxCount c o1) = obj_view sha M o1"
  "obj_view sha M (so_setAmount n o1) = (obj_view sha M o1)\<lparr>vw_amount := if 0 \<le> n then n else vw_amount (obj_view sha M o1)\<rparr>"
  "obj_view sha M (o1\<lparr>so_suicided := b\<rparr>) = (obj_view sha M o1)\<lparr>vw_suicided := b\<rparr>"
  "obj_view sha M (so_setCode sha p o1) = (obj_view sha M o1)\<lparr>vw_code := opt_bytes p,
     vw_codehash := (if opt_bytes p = [] then [] else HashBytes sha (opt_bytes p))\<rparr>"
  by (auto simp: obj_view_def so_setState_def so_setNonce_def so_setTxCount_def so_setAmount_def so_setCode_def
      obj_storage_def obj_code_def opt_bytes_def fun_eq_iff split: option.splits)

lemma setter_ok:
  assumes "object_ok sha M a o1"
  shows "object_ok sha M a (so_setState k v o1)" "object_ok sha M a (so_setNonce c o1)"
    "object_ok sha M a (so_setTxCount c o1)" "object_ok sha M a (so_setAmount n o1)"
    "object_ok sha M a (so_setCode sha p o1)" "object_ok sha M a (o1\<lparr>so_suicided := b\<rparr>)"
    "0 \<le> n \<Longrightarrow> object_ok sha M a (o1\<lparr>so_account := (so_account o1)\<lparr>acc_Amount := n\<rparr>\<rparr>)"
    "object_ok sha M a (o1\<lparr>so_account := (so_account o1)\<lparr>acc_Nonce := c\<rparr>\<rparr>)"
  using assms
  by (auto simp: object_ok_def code_ok_def so_setState_def so_setNonce_def so_setTxCount_def so_setAmount_def
      so_setCode_def obj_code_def opt_bytes_def split: option.splits)

lemma setter_deleted [simp]:
  "so_deleted (so_setState k v o1) = so_deleted o1" "so_deleted (so_setNonce c o1) = so_deleted o1"
  "so_deleted (so_setTxCount c o1) = so_deleted o1" "so_deleted (so_setAmount n o1) = so_deleted o1"
  "so_deleted (so_setCode sha p o1) = so_deleted o1"
  by (simp_all add: so_setState_def so_setNonce_def so_setTxCount_def so_setAmount_def so_setCode_def)

section \<open>Reverting refines the abstract undo\<close>

context trie_contract
begin

lemma with_object_refines:
  assumes m: "models (sd_trie s) M" and ok: "state_ok sha M (sd_objects s)"
    and v: "on_view a g (shown_by sha M s) = Some V"
    and f: "\<And>o1. object_ok sha M a o1 \<Longrightarrow> object_ok sha M a (f o1) \<and> so_deleted (f o1) = so_deleted o1
      \<and> obj_view sha M (f o1) = g (obj_view sha M o1)"
  shows "\<exists>s'. with_object T sha a f s = Inr s' \<and> shown_by sha M s' = V \<and> models (sd_trie s') M
    \<and> state_ok sha M (sd_objects s') \<and> sd_journal s' = sd_journal s"
proof -
  obtain s' where s': "getStateObject T sha a s = (s', find_object sha M (sd_objects s) a)"
    "models (sd_trie s') M" "reads sha M s s'"
    "\<And>o1. find_object sha M (sd_objects s) a = Some o1 \<Longrightarrow> find_object sha M (sd_objects s') a = Some o1"
    using getStateObject_found [OF m ok] by blast
  obtain o1 where o1: "find_object sha M (sd_objects s) a = Some o1"
    using v by (auto simp: on_view_def sview_def split: option.splits)
  have ok1: "object_ok sha M a o1" "\<not> so_deleted o1" using state_ok_find [OF ok o1] by auto
  have "V = ((sview sha M (sd_objects s))(a \<mapsto> g (obj_view sha M o1)), sd_refund s)"
    using v o1 by (auto simp: on_view_def sview_def)
  then show ?thesis
    using s' o1 ok1 f [OF ok1(1)] by (auto simp: with_object_def reads_def sview_upd state_ok_upd)
qed

lemma entry_revert_refines:
  assumes m: "models (sd_trie s) M" and ok: "state_ok sha M (sd_objects s)"
    and v: "avert sha M e (shown_by sha M s) = Some V"
  shows "\<exists>s'. entry_revert T sha e s = Inr s' \<and> shown_by sha M s' = V \<and> models (sd_trie s') M
    \<and> state_ok sha M (sd_objects s') \<and> sd_journal s' = sd_journal s"
proof (cases e)
  case (SuicideChange a b n)
  let ?f = "\<lambda>o1. o1\<lparr>so_suicided := b, so_account := (so_account o1)\<lparr>acc_Amount := n\<rparr>\<rparr>"
  have n: "0 \<le> n" using v SuicideChange by (auto split: if_splits)
  have f: "object_ok sha M a (?f o1) \<and> so_deleted (?f o1) = so_deleted o1
      \<and> obj_view sha M (?f o1) = (obj_view sha M o1)\<lparr>vw_suicided := b, vw_amount := n\<rparr>"
    if "object_ok sha M a o1" for o1
  proof -
    have "object_ok sha M a (o1\<lparr>so_suicided := b\<rparr>)" by (rule setter_ok(6) [OF that])
    from setter_ok(7) [OF this n] have "object_ok sha M a (?f o1)" by simp
    moreover have "obj_view sha M ((o1\<lparr>so_suicided := b\<rparr>)\<lparr>so_account := (so_account (o1\<lparr>so_suicided := b\<rparr>))\<lparr>acc_Amount := n\<rparr>\<rparr>)
        = (obj_view sha M o1)\<lparr>vw_suicided := b, vw_amount := n\<rparr>"
      by (simp only: setter_views)
    ultimately show ?thesis by simp
  qed
  have "on_view a (\<lambda>w. w\<lparr>vw_suicided := b, vw_amount := n\<rparr>) (shown_by sha M s) = Some V"
    using v SuicideChange n by simp
  from with_object_refines [OF m ok this f] obtain s' where "with_object T sha a ?f s = Inr s'"
    "shown_by sha M s' = V" "models (sd_trie s') M" "state_ok sha M (sd_objects s')" "sd_journal s' = sd_journal s"
    by blast
  then show ?thesis using SuicideChange by (auto simp: with_object_def split: prod.splits option.splits)
next
  case (CreateObjectChange a)
  then show ?thesis using v m ok by (auto simp: sview_remove state_ok_remove)
next
  case (StorageChange a k p)
  show ?thesis unfolding StorageChange entry_revert.simps
    by (rule with_object_refines [OF m ok v [unfolded StorageChange avert.simps]])
      (simp add: setter_ok setter_views)
next
  case (BalanceChange a n)
  then have n: "0 \<le> n" using v by (auto split: if_splits)
  show ?thesis unfolding BalanceChange entry_revert.simps
    by (rule with_object_refines [OF m ok v [unfolded BalanceChange avert.simps if_P [OF n]]])
      (simp add: setter_ok setter_views n)
next
  case (CodeChange a p)
  show ?thesis unfolding CodeChange entry_revert.simps
    by (rule with_object_refines [OF m ok v [unfolded CodeChange avert.simps]])
      (simp add: setter_ok setter_views)
next
  case (NonceChange a c)
  show ?thesis unfolding NonceChange entry_revert.simps
    by (rule with_object_refines [OF m ok v [unfolded NonceChange avert.simps]])
      (simp add: setter_ok setter_views)
qed (use v m ok in auto)

lemma revert_loop_refines:
  "models (sd_trie s) M \<Longrightarrow> state_ok sha M (sd_objects s) \<Longrightarrow> averts sha M es (shown_by sha M s) = Some V \<Longrightarrow>
     jr_dirties (sd_journal s) = dirt (pre @ rev es) \<Longrightarrow>
     \<exists>s'. revert_loop T sha es s = Inr s' \<and> shown_by sha M s' = V \<and> models (sd_trie s') M
       \<and> state_ok sha M (sd_objects s') \<and> jr_entries (sd_journal s') = jr_entries (sd_journal s)
       \<and> jr_dirties (sd_journal s') = dirt pre"
proof (induction es arbitrary: s)
  case (Cons e es)
  from Cons.prems(3) obtain V' where V': "avert sha M e (shown_by sha M s) = Some V'" "averts sha M es V' = Some V"
    by (auto split: option.splits)
  from entry_revert_refines [OF Cons.prems(1,2) V'(1)] obtain s' where s':
    "entry_revert T sha e s = Inr s'" "shown_by sha M s' = V'" "models (sd_trie s') M"
    "state_ok sha M (sd_objects s')" "sd_journal s' = sd_journal s" by blast
  let ?s = "s'\<lparr>sd_journal := (sd_journal s')\<lparr>jr_dirties := undirty e (jr_dirties (sd_journal s'))\<rparr>\<rparr>"
  have "jr_dirties (sd_journal ?s) = dirt (pre @ rev es)"
    using Cons.prems(4) s'(5) undirty_dirt [of e "pre @ rev es"] by simp
  with Cons.IH [of ?s] s' V' show ?case by simp
qed simp

lemma RevertToSnapshot_refines:
  assumes "models (sd_trie s) M" "state_ok sha M (sd_objects s)" "journal_ok (sd_journal s)"
    and "k \<le> length (jr_entries (sd_journal s))"
    and "averts sha M (rev (drop k (jr_entries (sd_journal s)))) (shown_by sha M s) = Some V"
  shows "\<exists>s'. RevertToSnapshot T sha k s = Inr s' \<and> shown_by sha M s' = V \<and> models (sd_trie s') M
    \<and> state_ok sha M (sd_objects s') \<and> journal_ok (sd_journal s')
    \<and> jr_entries (sd_journal s') = take k (jr_entries (sd_journal s))"
  using revert_loop_refines [OF assms(1,2,5), of "take k (jr_entries (sd_journal s))"] assms(3,4)
  by (fastforce simp: journal_ok_def RevertToSnapshot_def)

end

section \<open>Every operation can be undone\<close>

text \<open>The operations of the database as data, readers included since they fill the caches.\<close>

datatype sdb_op =
    OpGetBalance address | OpGetNonce address | OpGetTxCount address | OpGetCodeHash address
  | OpGetCode address | OpGetData address hash | OpExist address | OpEmpty address | OpHasSuicided address
  | OpSetBalance address int | OpAddBalance address int | OpSubBalance address int
  | OpSetNonce address uint64 | OpSetNonce2 address uint64 uint64
  | OpSetData address hash bytes | OpSetCode address "bytes option"
  | OpCreateAccount address | OpSuicide address
  | OpAddRefund uint64 | OpSubRefund uint64 | OpAddLog log_entry

fun sdb_exec :: "'t trie_ops \<Rightarrow> (bytes \<Rightarrow> bytes) \<Rightarrow> sdb_op \<Rightarrow> 't statedb \<Rightarrow> 't statedb" where
  "sdb_exec T sha (OpGetBalance a) s = fst (GetBalance T sha a s)"
| "sdb_exec T sha (OpGetNonce a) s = fst (GetNonce T sha a s)"
| "sdb_exec T sha (OpGetTxCount a) s = fst (GetTxCount T sha a s)"
| "sdb_exec T sha (OpGetCodeHash a) s = fst (GetCodeHash T sha a s)"
| "sdb_exec T sha (OpGetCode a) s = fst (GetCode T sha a s)"
| "sdb_exec T sha (OpGetData a k) s = fst (GetData T sha a k s)"
| "sdb_exec T sha (OpExist a) s = fst (Exist T sha a s)"
| "sdb_exec T sha (OpEmpty a) s = fst (Empty T sha a s)"
| "sdb_exec T sha (OpHasSuicided a) s = fst (HasSuicided T sha a s)"
| "sdb_exec T sha (OpSetBalance a n) s = SetBalance T sha a n s"
| "sdb_exec T sha (OpAddBalance a n) s = AddBalance T sha a n s"
| "sdb_exec T sha (OpSubBalance a n) s = SubBalance T sha a n s"
| "sdb_exec T sha (OpSetNonce a n) s = SetNonce T sha a n s"
| "sdb_exec T sha (OpSetNonce2 a n c) s = SetNonce2 T sha a n c s"
| "sdb_exec T sha (OpSetData a k v) s = SetData T sha a k v s"
| "sdb_exec T sha (OpSetCode a c) s = SetCode T sha a c s"
| "sdb_exec T sha (OpCreateAccount a) s = CreateAccount T sha a s"
| "sdb_exec T sha (OpSuicide a) s = fst (Suicide T sha a s)"
| "sdb_exec T sha (OpAddRefund g) s = AddRefund g s"
| "sdb_exec T sha (OpSubRefund g) s = fst (SubRefund g s)"
| "sdb_exec T sha (OpAddLog l) s = AddLog l s"

definition undoes :: "(bytes \<Rightarrow> bytes) \<Rightarrow> (bytes \<rightharpoonup> bytes) \<Rightarrow> 't statedb \<Rightarrow> 't statedb \<Rightarrow> bool" where
  "undoes sha M s s' \<longleftrightarrow>
     state_ok sha M (sd_objects s') \<and> journal_ok (sd_journal s')
     \<and> (\<exists>es. jr_entries (sd_journal s') = jr_entries (sd_journal s) @ es
          \<and> averts sha M (rev es) (shown_by sha M s') = Some (shown_by sha M s))"

lemma reads_undoes: "reads sha M s s' \<Longrightarrow> journal_ok (sd_journal s) \<Longrightarrow> undoes sha M s s'"
  by (auto simp: reads_def undoes_def)

lemma setter_undoes:
  assumes r: "reads sha M s s'" and j: "journal_ok (sd_journal s)"
    and o1: "sview sha M (sd_objects s) a = Some w"
    and o2: "object_ok sha M a o2" "\<not> so_deleted o2"
    and e: "avert sha M e ((sview sha M (sd_objects s))(a \<mapsto> obj_view sha M o2), sd_refund s)
        = Some ((sview sha M (sd_objects s))(a \<mapsto> w), sd_refund s)"
  shows "undoes sha M s (putObject a o2 (record_change e s'))"
proof -
  have id: "(sview sha M (sd_objects s))(a \<mapsto> w) = sview sha M (sd_objects s)"
    using o1 by (auto simp: fun_eq_iff)
  have "averts sha M (rev [e]) (shown_by sha M (putObject a o2 (record_change e s'))) = Some (shown_by sha M s)"
    using r o2 e id by (simp add: reads_def sview_upd)
  then show ?thesis
    using r j o2 journal_ok_append [OF j, of e] by (auto simp: undoes_def reads_def state_ok_upd)
qed

context trie_contract
begin

text \<open>The shape shared by the setters of one field.\<close>

lemma set_field_undoes:
  assumes m: "models (sd_trie s) M" and ok: "state_ok sha M (sd_objects s)" and j: "journal_ok (sd_journal s)"
    and def: "op = (case getStateObject T sha a s of
        (s', Some o1) \<Rightarrow> putObject a (f o1) (record_change (e o1) s') | (s', None) \<Rightarrow> s')"
    and f: "\<And>o1. object_ok sha M a o1 \<Longrightarrow> object_ok sha M a (f o1) \<and> so_deleted (f o1) = so_deleted o1"
    and e: "\<And>o1 V r. object_ok sha M a o1 \<Longrightarrow>
      avert sha M (e o1) (V(a \<mapsto> obj_view sha M (f o1)), r) = Some (V(a \<mapsto> obj_view sha M o1), r)"
  shows "models (sd_trie op) M \<and> undoes sha M s op"
proof -
  obtain s' where s': "getStateObject T sha a s = (s', find_object sha M (sd_objects s) a)"
    "models (sd_trie s') M" "reads sha M s s'"
    using getStateObject_found [OF m ok] by blast
  show ?thesis
  proof (cases "find_object sha M (sd_objects s) a")
    case None
    then show ?thesis using s' j def by (simp add: reads_undoes)
  next
    case (Some o1)
    have ok1: "object_ok sha M a o1" "\<not> so_deleted o1" using state_ok_find [OF ok Some] by auto
    have "sview sha M (sd_objects s) a = Some (obj_view sha M o1)" using Some by (simp add: sview_def)
    from setter_undoes [OF s'(3) j this _ _ e [OF ok1(1)]] f [OF ok1(1)] ok1(2)
    show ?thesis using s' def Some by simp
  qed
qed

lemma balance_undoes:
  assumes m: "models (sd_trie s) M" "state_ok sha M (sd_objects s)" "journal_ok (sd_journal s)"
  shows "models (sd_trie (SetBalance T sha a n s)) M \<and> undoes sha M s (SetBalance T sha a n s)"
    "models (sd_trie (AddBalance T sha a n s)) M \<and> undoes sha M s (AddBalance T sha a n s)"
    "models (sd_trie (SubBalance T sha a n s)) M \<and> undoes sha M s (SubBalance T sha a n s)"
proof -
  have undo: "avert sha M (BalanceChange a (acc_Amount (so_account o1))) (V(a \<mapsto> obj_view sha M (so_setAmount x o1)), r)
      = Some (V(a \<mapsto> obj_view sha M o1), r)" if "object_ok sha M a o1" for o1 V r x
    using that by (simp add: on_view_def setter_views) (simp add: obj_view_def object_ok_def)
  have ok: "object_ok sha M a (so_setAmount x o1) \<and> so_deleted (so_setAmount x o1) = so_deleted o1"
    if "object_ok sha M a o1" for o1 x using that by (simp add: setter_ok)
  show "models (sd_trie (SetBalance T sha a n s)) M \<and> undoes sha M s (SetBalance T sha a n s)"
    by (rule set_field_undoes [OF m SetBalance_def ok undo])
  show "models (sd_trie (AddBalance T sha a n s)) M \<and> undoes sha M s (AddBalance T sha a n s)"
    by (rule set_field_undoes [OF m AddBalance_def [unfolded so_addAmount_def] ok undo])
  show "models (sd_trie (SubBalance T sha a n s)) M \<and> undoes sha M s (SubBalance T sha a n s)"
    by (rule set_field_undoes [OF m SubBalance_def [unfolded so_subAmount_def] ok undo])
qed

lemma nonce_undoes:
  assumes m: "models (sd_trie s) M" "state_ok sha M (sd_objects s)" "journal_ok (sd_journal s)"
  shows "models (sd_trie (SetNonce T sha a n s)) M \<and> undoes sha M s (SetNonce T sha a n s)"
    "models (sd_trie (SetNonce2 T sha a n c s)) M \<and> undoes sha M s (SetNonce2 T sha a n c s)"
proof -
  show "models (sd_trie (SetNonce T sha a n s)) M \<and> undoes sha M s (SetNonce T sha a n s)"
    by (rule set_field_undoes [OF m SetNonce_def])
      (simp_all add: setter_ok setter_views on_view_def, simp add: obj_view_def)
  show "models (sd_trie (SetNonce2 T sha a n c s)) M \<and> undoes sha M s (SetNonce2 T sha a n c s)"
    by (rule set_field_undoes [OF m SetNonce2_def])
      (simp_all add: setter_ok setter_views on_view_def, simp add: obj_view_def)
qed

lemma suicide_undoes:
  assumes m: "models (sd_trie s) M" "state_ok sha M (sd_objects s)" "journal_ok (sd_journal s)"
  shows "models (sd_trie (fst (Suicide T sha a s))) M \<and> undoes sha M s (fst (Suicide T sha a s))"
proof -
  have "fst (Suicide T sha a s) = (case getStateObject T sha a s of
      (s', Some o1) \<Rightarrow> putObject a ((so_setAmount 0 o1)\<lparr>so_suicided := True\<rparr>)
        (record_change (SuicideChange a (so_suicided o1) (acc_Amount (so_account o1))) s') | (s', None) \<Rightarrow> s')"
    by (simp add: Suicide_def split: prod.splits option.splits)
  then show ?thesis
  proof (rule set_field_undoes [OF m])
    fix o1 V r assume "object_ok sha M a o1"
    then show "avert sha M (SuicideChange a (so_suicided o1) (acc_Amount (so_account o1)))
        (V(a \<mapsto> obj_view sha M ((so_setAmount 0 o1)\<lparr>so_suicided := True\<rparr>)), r) = Some (V(a \<mapsto> obj_view sha M o1), r)"
      by (simp add: on_view_def setter_views) (simp add: obj_view_def object_ok_def)
  qed (simp add: setter_ok)
qed

lemma CreateAccount_undoes:
  assumes m: "models (sd_trie s) M" and ok: "state_ok sha M (sd_objects s)" and j: "journal_ok (sd_journal s)"
  shows "models (sd_trie (CreateAccount T sha a s)) M \<and> undoes sha M s (CreateAccount T sha a s)"
proof -
  obtain s' where s': "getStateObject T sha a s = (s', find_object sha M (sd_objects s) a)"
    "models (sd_trie s') M" "reads sha M s s'"
    using getStateObject_found [OF m ok] by blast
  show ?thesis
  proof (cases "find_object sha M (sd_objects s) a")
    case (Some o1)
    then show ?thesis using s' j by (simp add: CreateAccount_def reads_undoes)
  next
    case None
    let ?e = "CreateObjectChange a" and ?o = "newStateObject sha a"
    have none: "trie_object sha M a = None"
      using None ok by (auto simp: find_object_def state_ok_def object_ok_def split: option.splits if_splits)
    then have o2: "object_ok sha M a ?o" "\<not> so_deleted ?o"
      by (simp_all add: object_ok_def code_ok_def obj_code_def newStateObject_def newAccount_def)
    have id: "(sview sha M (sd_objects s))(a := None) = sview sha M (sd_objects s)"
      using None by (simp add: fun_eq_iff sview_def)
    have "averts sha M (rev [?e]) (shown_by sha M (putObject a ?o (record_change ?e s'))) = Some (shown_by sha M s)"
      using s'(3) o2 none id by (simp add: reads_def sview_upd)
    then have "undoes sha M s (putObject a ?o (record_change ?e s'))"
      using s'(3) o2 journal_ok_append [OF j, of ?e] by (auto simp: undoes_def reads_def state_ok_upd)
    then show ?thesis using None s' by (simp add: CreateAccount_def)
  qed
qed

lemma SetData_undoes:
  assumes m: "models (sd_trie s) M" and ok: "state_ok sha M (sd_objects s)" and j: "journal_ok (sd_journal s)"
  shows "models (sd_trie (SetData T sha a k v s)) M \<and> undoes sha M s (SetData T sha a k v s)"
proof -
  obtain s' where s': "getStateObject T sha a s = (s', find_object sha M (sd_objects s) a)"
    "models (sd_trie s') M" "reads sha M s s'"
    "\<And>o1. find_object sha M (sd_objects s) a = Some o1 \<Longrightarrow> find_object sha M (sd_objects s') a = Some o1"
    using getStateObject_found [OF m ok] by blast
  show ?thesis
  proof (cases "find_object sha M (sd_objects s) a")
    case None
    then show ?thesis using s' j by (simp add: SetData_def reads_undoes)
  next
    case (Some o1)
    let ?p = "obj_storage sha M o1 k"
    obtain t' o2 where g: "so_getState T sha o1 (sd_trie s') k False = (t', o2, Inr ?p)"
      "models t' M" "obj_view sha M o2 = obj_view sha M o1" "object_ok sha M a o2" "\<not> so_deleted o2"
      using so_getState_found [OF s'(2)] state_ok_find [OF ok Some] by blast
    let ?s = "putObject a o2 (s'\<lparr>sd_trie := t'\<rparr>)"
    have r: "reads sha M s ?s" by (rule reads_put [OF s'(3) s'(4) [OF Some] g(3-5)])
    have w: "sview sha M (sd_objects s) a = Some (obj_view sha M o2)" using Some g(3) by (simp add: sview_def)
    have e: "avert sha M (StorageChange a k ?p) (V(a \<mapsto> obj_view sha M (so_setState k v o2)), u)
        = Some (V(a \<mapsto> obj_view sha M o2), u)" for V u
      by (simp add: on_view_def setter_views g(3)) (simp add: obj_view_def)
    have "undoes sha M s (putObject a (so_setState k v o2) (record_change (StorageChange a k ?p) ?s))"
      by (rule setter_undoes [OF r j w _ _ e]) (simp_all add: g setter_ok)
    moreover have "undoes sha M s ?s" by (rule reads_undoes [OF r j])
    ultimately show ?thesis using s' Some g by (simp add: SetData_def Let_def)
  qed
qed

lemma SetCode_undoes:
  assumes m: "models (sd_trie s) M" and ok: "state_ok sha M (sd_objects s)" and j: "journal_ok (sd_journal s)"
  shows "models (sd_trie (SetCode T sha a c s)) M \<and> undoes sha M s (SetCode T sha a c s)"
proof -
  obtain s' where s': "getStateObject T sha a s = (s', find_object sha M (sd_objects s) a)"
    "models (sd_trie s') M" "reads sha M s s'"
    "\<And>o1. find_object sha M (sd_objects s) a = Some o1 \<Longrightarrow> find_object sha M (sd_objects s') a = Some o1"
    using getStateObject_found [OF m ok] by blast
  show ?thesis
  proof (cases "find_object sha M (sd_objects s) a")
    case None
    then show ?thesis using s' j by (simp add: SetCode_def reads_undoes)
  next
    case (Some o1)
    obtain t' o2 p where g: "loadCode T o1 (sd_trie s') = (t', o2, Inr p)" "opt_bytes p = obj_code M o1"
      "models t' M" "obj_view sha M o2 = obj_view sha M o1" "object_ok sha M a o2" "\<not> so_deleted o2"
      using loadCode_found [OF s'(2)] state_ok_find [OF ok Some] by blast
    let ?s = "putObject a o2 (s'\<lparr>sd_trie := t'\<rparr>)"
    have r: "reads sha M s ?s" by (rule reads_put [OF s'(3) s'(4) [OF Some] g(4-6)])
    have w: "sview sha M (sd_objects s) a = Some (obj_view sha M o2)" using Some g(4) by (simp add: sview_def)
    have h: "vw_code (obj_view sha M o2) = opt_bytes p"
      "vw_codehash (obj_view sha M o2) = (if opt_bytes p = [] then [] else HashBytes sha (opt_bytes p))"
      using g(2,4,5) by (simp_all add: obj_view_def object_ok_def code_ok_def)
    have e: "avert sha M (CodeChange a p) (V(a \<mapsto> obj_view sha M (so_setCode sha c o2)), u)
        = Some (V(a \<mapsto> obj_view sha M o2), u)" for V u
    proof -
      have "(obj_view sha M o2)\<lparr>vw_code := opt_bytes p,
          vw_codehash := (if opt_bytes p = [] then [] else HashBytes sha (opt_bytes p))\<rparr> = obj_view sha M o2"
        by (rule view.equality) (simp_all add: h)
      then show ?thesis by (simp add: on_view_def setter_views)
    qed
    have "undoes sha M s (putObject a (so_setCode sha c o2) (record_change (CodeChange a p) ?s))"
      by (rule setter_undoes [OF r j w _ _ e]) (simp_all add: g setter_ok)
    then show ?thesis using s' Some g by (simp add: SetCode_def Let_def)
  qed
qed

lemma refund_undoes:
  assumes "state_ok sha M (sd_objects s)" "journal_ok (sd_journal s)"
  shows "undoes sha M s (AddRefund g s)" "undoes sha M s (fst (SubRefund g s))" "undoes sha M s (AddLog l s)"
  using assms by (simp_all add: undoes_def AddRefund_def SubRefund_def AddLog_def Let_def journal_ok_append)

lemma getter_undoes:
  assumes m: "models (sd_trie s) M" and ok: "state_ok sha M (sd_objects s)" and j: "journal_ok (sd_journal s)"
    and r: "\<exists>s'. p = (s', x) \<and> models (sd_trie s') M \<and> reads sha M s s'"
  shows "models (sd_trie (fst p)) M \<and> undoes sha M s (fst p)"
  using r reads_undoes [OF _ j] by auto

theorem sdb_exec_undoes:
  assumes "models (sd_trie s) M" "state_ok sha M (sd_objects s)" "journal_ok (sd_journal s)"
  shows "models (sd_trie (sdb_exec T sha op s)) M \<and> undoes sha M s (sdb_exec T sha op s)"
proof (cases op)
  case (OpGetTxCount a)
  then show ?thesis using GetTxCount_reads [OF assms(1,2), of a] reads_undoes [OF _ assms(3)] by simp
next
  case (OpGetData a k)
  then show ?thesis using getter_undoes [OF assms GetData_view [OF assms(1,2)]] by simp
next
  case (OpGetCode a)
  then show ?thesis using GetCode_view [OF assms(1,2), of a] reads_undoes [OF _ assms(3)] by auto
next
  case (OpAddRefund g)
  then show ?thesis using refund_undoes [OF assms(2,3)] assms(1) by (simp add: AddRefund_def)
next
  case (OpSubRefund g)
  then show ?thesis using refund_undoes [OF assms(2,3)] assms(1) by (simp add: SubRefund_def Let_def)
next
  case (OpAddLog l)
  then show ?thesis using refund_undoes [OF assms(2,3)] assms(1) by (simp add: AddLog_def)
qed (use balance_undoes [OF assms] nonce_undoes [OF assms] suicide_undoes [OF assms] CreateAccount_undoes [OF assms]
    SetData_undoes [OF assms] SetCode_undoes [OF assms] getters [OF assms(1,2), THEN getter_undoes [OF assms]] in simp_all)

end

section \<open>Executions with nested snapshots\<close>

text \<open>
  \<open>sdb_path T sha k s s'\<close>: from \<open>s\<close> the database reaches \<open>s'\<close> by operations and by reverts to snapshots
  no older than the snapshot \<open>k\<close>.
\<close>

inductive sdb_path :: "'t trie_ops \<Rightarrow> (bytes \<Rightarrow> bytes) \<Rightarrow> nat \<Rightarrow> 't statedb \<Rightarrow> 't statedb \<Rightarrow> bool"
  for T sha k s where
  path_refl: "sdb_path T sha k s s"
| path_op: "sdb_path T sha k s s' \<Longrightarrow> sdb_path T sha k s (sdb_exec T sha op s')"
| path_revert: "sdb_path T sha k s s' \<Longrightarrow> k \<le> i \<Longrightarrow> RevertToSnapshot T sha i s' = Inr s'' \<Longrightarrow>
    sdb_path T sha k s s''"

definition undo_point ::
  "(bytes \<Rightarrow> bytes) \<Rightarrow> (bytes \<rightharpoonup> bytes) \<Rightarrow> 't statedb \<Rightarrow> 't statedb \<Rightarrow> bool" where
  "undo_point sha M s s' \<longleftrightarrow>
     state_ok sha M (sd_objects s') \<and> journal_ok (sd_journal s')
     \<and> take (length (jr_entries (sd_journal s))) (jr_entries (sd_journal s')) = jr_entries (sd_journal s)
     \<and> averts sha M (rev (drop (length (jr_entries (sd_journal s))) (jr_entries (sd_journal s')))) (shown_by sha M s')
         = Some (shown_by sha M s)"

lemma averts_split:
  "k \<le> i \<Longrightarrow> averts sha M (rev (drop k E)) V =
     (case averts sha M (rev (drop i E)) V of None \<Rightarrow> None
      | Some V' \<Rightarrow> averts sha M (rev (drop k (take i E))) V')"
proof -
  assume "k \<le> i"
  then have "drop k E = drop k (take i E) @ drop i E"
    by (metis append_take_drop_id drop_drop drop_take le_add_diff_inverse2)
  then show ?thesis by (simp add: averts_append)
qed

lemma undo_point_refl: "state_ok sha M (sd_objects s) \<Longrightarrow> journal_ok (sd_journal s) \<Longrightarrow> undo_point sha M s s"
  by (simp add: undo_point_def)

lemma undo_point_step:
  assumes "undo_point sha M s s'" "undoes sha M s' s''"
  shows "undo_point sha M s s''"
proof -
  let ?k = "length (jr_entries (sd_journal s))" and ?E = "jr_entries (sd_journal s')"
  obtain es where es: "jr_entries (sd_journal s'') = ?E @ es"
    "averts sha M (rev es) (shown_by sha M s'') = Some (shown_by sha M s')"
    and ok: "state_ok sha M (sd_objects s'')" "journal_ok (sd_journal s'')"
    using assms(2) by (auto simp: undoes_def)
  have t: "take ?k ?E = jr_entries (sd_journal s)" using assms(1) by (simp add: undo_point_def)
  then have k: "?k \<le> length ?E" by (metis length_take min.absorb_iff2 min.commute)
  then show ?thesis using assms(1) es ok t by (simp add: undo_point_def averts_append)
qed

context trie_contract
begin

lemma revert_undo_point:
  assumes m: "models (sd_trie s') M" and u: "undo_point sha M s s'"
    and i: "length (jr_entries (sd_journal s)) \<le> i" and r: "RevertToSnapshot T sha i s' = Inr s''"
  shows "models (sd_trie s'') M \<and> undo_point sha M s s''"
proof -
  let ?k = "length (jr_entries (sd_journal s))" and ?E = "jr_entries (sd_journal s')"
  have u': "state_ok sha M (sd_objects s')" "journal_ok (sd_journal s')" "take ?k ?E = jr_entries (sd_journal s)"
    "averts sha M (rev (drop ?k ?E)) (shown_by sha M s') = Some (shown_by sha M s)"
    using u by (auto simp: undo_point_def)
  have len: "i \<le> length ?E" using r by (auto simp: RevertToSnapshot_def split: if_splits)
  obtain V where V: "averts sha M (rev (drop i ?E)) (shown_by sha M s') = Some V"
    "averts sha M (rev (drop ?k (take i ?E))) V = Some (shown_by sha M s)"
    using u'(4) [unfolded averts_split [OF i, of sha M ?E]] by (auto split: option.splits)
  obtain s1 where "RevertToSnapshot T sha i s' = Inr s1" "shown_by sha M s1 = V" "models (sd_trie s1) M"
    "state_ok sha M (sd_objects s1)" "journal_ok (sd_journal s1)" "jr_entries (sd_journal s1) = take i ?E"
    using RevertToSnapshot_refines [OF m u'(1,2) len V(1)] by blast
  then show ?thesis using r u'(3) V(2) i by (simp add: undo_point_def min_absorb1)
qed

lemma path_undo_point:
  assumes p: "sdb_path T sha (length (jr_entries (sd_journal s))) s s'"
    and m: "models (sd_trie s) M" "state_ok sha M (sd_objects s)" "journal_ok (sd_journal s)"
  shows "models (sd_trie s') M \<and> undo_point sha M s s'"
  using p
proof induction
  case path_refl
  then show ?case using m by (simp add: undo_point_refl)
next
  case (path_op s' op)
  then have "state_ok sha M (sd_objects s')" "journal_ok (sd_journal s')" by (auto simp: undo_point_def)
  then show ?case using path_op sdb_exec_undoes [of s' M sha op] undo_point_step by blast
next
  case (path_revert s' i s'')
  then show ?case using revert_undo_point by blast
qed

theorem revert_restores:
  assumes "sdb_path T sha (Snapshot s) s s'"
    and m: "models (sd_trie s) M" "state_ok sha M (sd_objects s)" "journal_ok (sd_journal s)"
  shows "\<exists>s''. RevertToSnapshot T sha (Snapshot s) s' = Inr s'' \<and> shown_by sha M s'' = shown_by sha M s
    \<and> sd_journal s'' = sd_journal s \<and> models (sd_trie s'') M \<and> state_ok sha M (sd_objects s'')"
proof -
  let ?k = "length (jr_entries (sd_journal s))" and ?E = "jr_entries (sd_journal s')"
  have m': "models (sd_trie s') M" and u: "undo_point sha M s s'"
    using path_undo_point assms by (auto simp: Snapshot_def journal_snapshot_def)
  have t: "take ?k ?E = jr_entries (sd_journal s)" using u by (simp add: undo_point_def)
  then have k: "?k \<le> length ?E" by (metis length_take min.absorb_iff2 min.commute)
  have u': "state_ok sha M (sd_objects s')" "journal_ok (sd_journal s')"
    "averts sha M (rev (drop ?k ?E)) (shown_by sha M s') = Some (shown_by sha M s)"
    using u by (auto simp: undo_point_def)
  obtain s1 where s1: "RevertToSnapshot T sha ?k s' = Inr s1" "shown_by sha M s1 = shown_by sha M s"
    "models (sd_trie s1) M" "state_ok sha M (sd_objects s1)" "journal_ok (sd_journal s1)"
    "jr_entries (sd_journal s1) = take ?k ?E"
    using RevertToSnapshot_refines [OF m' u'(1,2) k u'(3)] by blast
  have "sd_journal s1 = sd_journal s"
    by (rule journal.equality) (use s1 t m(3) in \<open>simp_all add: journal_ok_def\<close>)
  then show ?thesis using s1 by (auto simp: Snapshot_def journal_snapshot_def)
qed

end

section \<open>What the getters report\<close>

definition observe :: "'t trie_ops \<Rightarrow> (bytes \<Rightarrow> bytes) \<Rightarrow> address \<Rightarrow> hash \<Rightarrow> 't statedb \<Rightarrow>
    int \<times> uint64 \<times> bytes \<times> bytes \<times> hash \<times> bool \<times> bool \<times> bool \<times> uint64" where
  "observe T sha a k s =
     (snd (GetBalance T sha a s), snd (GetNonce T sha a s), snd (GetData T sha a k s),
      opt_bytes (snd (GetCode T sha a s)), snd (GetCodeHash T sha a s), snd (Exist T sha a s),
      snd (HasSuicided T sha a s), snd (Empty T sha a s), GetRefund s)"

definition report :: "view option \<Rightarrow> hash \<Rightarrow> uint64 \<Rightarrow>
    int \<times> uint64 \<times> bytes \<times> bytes \<times> hash \<times> bool \<times> bool \<times> bool \<times> uint64" where
  "report w k refund =
     (case w of
        None \<Rightarrow> (0, 0, [], [], EmptyHash, False, False, True, refund)
      | Some x \<Rightarrow> (vw_amount x, vw_nonce x, vw_storage x k, vw_code x, BytesToHash (vw_codehash x), True,
          vw_suicided x, vw_nonce x = 0 \<and> vw_amount x = 0 \<and> vw_codehash x = [], refund))"

context trie_contract
begin

lemma observe_view:
  assumes "models (sd_trie s) M" "state_ok sha M (sd_objects s)"
  shows "observe T sha a k s = report (sview sha M (sd_objects s) a) k (sd_refund s)"
  using getters [OF assms, of a] GetData_view [OF assms, of a k] GetCode_view [OF assms, of a]
  by (auto simp: observe_def report_def GetRefund_def split: option.splits)

corollary revert_observe:
  assumes "sdb_path T sha (Snapshot s) s s'"
    and m: "models (sd_trie s) M" "state_ok sha M (sd_objects s)" "journal_ok (sd_journal s)"
  shows "\<exists>s''. RevertToSnapshot T sha (Snapshot s) s' = Inr s'' \<and> sd_journal s'' = sd_journal s
    \<and> (\<forall>a k. observe T sha a k s'' = observe T sha a k s)"
proof -
  obtain s'' where s'': "RevertToSnapshot T sha (Snapshot s) s' = Inr s''" "shown_by sha M s'' = shown_by sha M s"
    "sd_journal s'' = sd_journal s" "models (sd_trie s'') M" "state_ok sha M (sd_objects s'')"
    using revert_restores [OF assms] by blast
  have "observe T sha a k s'' = observe T sha a k s" for a k
    using s''(2) by (simp add: observe_view [OF s''(4,5)] observe_view [OF m(1,2)])
  then show ?thesis using s''(1,3) by blast
qed

end

end
