(* ===== verification/State_Commit.thy ===== *)
theory State_Commit
  imports State_Revert
begin

text \<open>
  Persistence of the state database: the encoding of accounts, what \<open>flush\<close> writes to the trie, and
  that a database reopened on the root of \<open>Commit\<close> shows the state before it, suicided accounts gone.
\<close>

section \<open>Account encoding\<close>

lemma big_bytes_0 [simp]: "big_bytes 0 = []"
  by (simp add: big_bytes.simps)

lemma be_val_snoc: "be_val (bs @ [b]) = be_val bs * 256 + unat b"
  by (induction bs) (simp_all add: algebra_simps)

lemma be_val_big_bytes [simp]: "be_val (big_bytes n) = n"
proof (induction n rule: big_bytes.induct)
  case (1 n)
  have "unat (word_of_nat (n mod 256) :: byte) = n mod 256"
    by (simp add: unat_of_nat take_bit_eq_mod)
  then show ?case using 1 by (subst big_bytes.simps) (simp add: be_val_snoc)
qed

lemma big_bytes_Nil [simp]: "big_bytes n = [] \<longleftrightarrow> n = 0"
  by (subst big_bytes.simps) simp

lemma hd_big_bytes: "0 < n \<Longrightarrow> hd (big_bytes n) \<noteq> 0"
proof (induction n rule: big_bytes.induct)
  case (1 n)
  show ?case
  proof (cases "n < 256")
    case True
    then have "unat (word_of_nat n :: byte) = n" by (simp add: unat_of_nat take_bit_eq_mod)
    then have "(word_of_nat n :: byte) \<noteq> 0" using 1 by (metis less_irrefl unat_0)
    then show ?thesis using 1 True by (subst big_bytes.simps) simp
  next
    case False
    then have "0 < n div 256" by (simp add: div_greater_zero_iff)
    with 1 show ?thesis by (subst big_bytes.simps) (simp add: hd_append)
  qed
qed

lemma length_big_bytes: "n < 256 ^ k \<Longrightarrow> length (big_bytes n) \<le> k"
proof (induction k arbitrary: n)
  case (Suc k)
  then have "n div 256 < 256 ^ k" by (simp add: div_less_iff_less_mult mult.commute)
  with Suc.IH show ?case by (subst big_bytes.simps) simp
qed simp

text \<open>An unsigned integer is encoded as the string of its big-endian bytes.\<close>

definition uint_bytes :: "nat \<Rightarrow> bytes" where
  "uint_bytes i = (if i = 0 then [] else if i < 128 then [word_of_nat i] else putint i)"

lemma ref_uint_string:
  assumes "i < 2 ^ 64"
  shows "ref_uint i = ref_string (uint_bytes i)"
proof -
  consider "i = 0" | "0 < i" "i < 128" | "128 \<le> i" by linarith
  then show ?thesis
  proof cases
    case 2
    then have "(word_of_nat i :: byte) \<le> 0x7F" by (simp add: word_le_nat_alt unat_of_nat take_bit_eq_mod)
    with 2 show ?thesis by (simp add: ref_uint_def uint_bytes_def ref_string_def)
  next
    case 3
    have p: "1 \<le> length (putint i)" "length (putint i) \<le> 8" using length_putint_bounds [OF assms] by auto
    have "\<not> (length (putint i) = 1 \<and> putint i ! 0 \<le> 0x7F)"
    proof (cases "i < 256")
      case True
      then have "putint i = [word_of_nat i]" by (simp add: putint_def)
      with 3 True show ?thesis by (simp add: word_le_nat_alt unat_of_nat take_bit_eq_mod)
    next
      case False
      have "be_val (putint i) < 256 ^ length (putint i)" by (rule be_val_bound)
      with False assms show ?thesis by (auto simp: be_val_putint)
    qed
    with 3 p show ?thesis by (auto simp: ref_uint_def uint_bytes_def ref_string_def puthead_def)
  qed (simp add: ref_uint_def uint_bytes_def ref_string_def puthead_def)
qed

lemma uint_bytes:
  assumes "i < 2 ^ 64"
  shows "be_val (uint_bytes i) = i" "length (uint_bytes i) \<le> 8" "uint_bytes i \<noteq> [] \<longrightarrow> hd (uint_bytes i) \<noteq> 0"
proof -
  have w: "unat (word_of_nat i :: byte) = i" if "i < 128" using that by (simp add: unat_of_nat take_bit_eq_mod)
  show "be_val (uint_bytes i) = i" using w be_val_putint [OF assms] by (simp add: uint_bytes_def)
  show "length (uint_bytes i) \<le> 8" using length_putint_bounds [OF assms] by (simp add: uint_bytes_def)
  show "uint_bytes i \<noteq> [] \<longrightarrow> hd (uint_bytes i) \<noteq> 0"
    using putint_first [OF assms] w by (auto simp: uint_bytes_def hd_conv_nth)
qed

lemma decodeUint_ref:
  assumes "i < 2 ^ 64"
  shows "decodeUint (ref_uint i @ r) = Some (i, r)"
proof -
  have "length (uint_bytes i) < 2 ^ 64" using uint_bytes(2) [OF assms] by simp
  then show ?thesis
    using uint_bytes [OF assms] by (auto simp: decodeUint_def ref_uint_string [OF assms])
qed

lemma length_ref_string: "length b < 56 \<Longrightarrow> length (ref_string b) \<le> Suc (length b)"
  by (simp add: ref_string_def puthead_def)

text \<open>The bound on amounts keeps every length of the encoding far below \<open>2 ^ 64\<close>.\<close>

definition account_sized :: "account \<Rightarrow> bool" where
  "account_sized acc \<longleftrightarrow> 0 \<le> acc_Amount acc \<and> acc_Amount acc < 256 ^ 50 \<and> length (acc_CodeHash acc) \<le> 32"

lemma account_roundtrip:
  assumes "account_sized acc"
  obtains v where "serializeAccount acc = Some v" "deserializeAccount v = Some acc" "length v < 256"
proof -
  let ?n = "unat (acc_Nonce acc)" and ?c = "unat (acc_TxCount acc)" and ?b = "big_bytes (nat (acc_Amount acc))"
  have n: "?n < 2 ^ 64" "?c < 2 ^ 64" using unsigned_less [of "acc_Nonce acc"] unsigned_less [of "acc_TxCount acc"] by simp_all
  have b: "length ?b \<le> 50" using assms by (intro length_big_bytes) (auto simp: account_sized_def nat_less_iff)
  have h: "length (acc_CodeHash acc) \<le> 32" using assms by (simp add: account_sized_def)
  let ?l = "ref_uint ?n @ ref_string ?b @ ref_string (acc_CodeHash acc) @ ref_uint ?c"
  have "length (ref_uint ?n) \<le> 9" "length (ref_uint ?c) \<le> 9" "length (ref_string ?b) \<le> 51"
    "length (ref_string (acc_CodeHash acc)) \<le> 33"
    using uint_bytes(2) [OF n(1)] uint_bytes(2) [OF n(2)] b h
      length_ref_string [of ?b] length_ref_string [of "acc_CodeHash acc"]
      length_ref_string [of "uint_bytes ?n"] length_ref_string [of "uint_bytes ?c"]
    by (simp_all add: ref_uint_string [OF n(1)] ref_uint_string [OF n(2)])
  then have l: "length ?l \<le> 102" by simp
  then have r: "length (ref_list ?l) < 256"
    by (auto simp: ref_list_def puthead_def putint_def)
  let ?x = "RlpList [RlpUint ?n, RlpBytes ?b, RlpBytes (acc_CodeHash acc), RlpUint ?c]"
  have x: "rlp_ref ?x = ref_list ?l" by simp
  then have v: "serializeAccount acc = Some (ref_list ?l)"
    using assms r rlp_Encode_ref [of ?x] by (simp add: serializeAccount_def account_sized_def)
  have "rlp_SplitList (ref_list ?l) = Inr (?l, [])"
    using rlp_SplitList_ref [of ?l "[]"] l by simp
  moreover have "decodeBigInt (ref_string ?b @ z) = Some (nat (acc_Amount acc), z)" for z
    using b hd_big_bytes by (auto simp: decodeBigInt_def decodeBytes_def)
  moreover have "decodeBytes (ref_string (acc_CodeHash acc) @ z) = Some (acc_CodeHash acc, z)" for z
    using h by (simp add: decodeBytes_def)
  moreover have "decodeUint (ref_uint ?c) = Some (?c, [])" using decodeUint_ref [OF n(2), of "[]"] by simp
  ultimately have "deserializeAccount (ref_list ?l) = Some acc"
    using assms by (simp add: deserializeAccount_def decodeUint_ref [OF n(1)] account_sized_def)
  from v this r show thesis by (rule that)
qed

section \<open>Keys of the trie\<close>

lemma length_MustHash [simp]: "length (MustHash sha v) = HashLength"
  by (simp add: MustHash_def HashBytes_def BytesToHash_def Let_def)

lemma dataKey_inj [simp]:
  "length h = length h' \<Longrightarrow> dataKey h ty p = dataKey h' ty' p' \<longleftrightarrow> h = h' \<and> ty = ty' \<and> p = p'"
  by (auto simp: dataKey_def)

lemma prefix_dataKey: "prefix h (dataKey h ty p)"
  by (simp add: dataKey_def)

lemma prefix_same_length: "prefix h x \<Longrightarrow> prefix h' x \<Longrightarrow> length h = length h' \<Longrightarrow> h = h'"
  by (auto simp: prefix_def)

lemma data_types [simp]:
  "dataTypeAccount \<noteq> dataTypeCode" "dataTypeAccount \<noteq> dataTypeStorage" "dataTypeCode \<noteq> dataTypeStorage"
  "dataTypeCode \<noteq> dataTypeAccount" "dataTypeStorage \<noteq> dataTypeAccount" "dataTypeStorage \<noteq> dataTypeCode"
  by (simp_all add: dataTypeAccount_def dataTypeCode_def dataTypeStorage_def)

section \<open>What a flush writes\<close>

text \<open>
  The caches of an object agree with the trie where they are not marked dirty. Storage keys are
  taken from a set \<open>K\<close> on which the hash function does not collide.
\<close>

definition cached :: "(bytes \<Rightarrow> bytes) \<Rightarrow> hash set \<Rightarrow> hash \<Rightarrow> (hash \<rightharpoonup> bytes) \<Rightarrow> (bytes \<rightharpoonup> bytes) \<Rightarrow> bool" where
  "cached sha K h c M \<longleftrightarrow> (\<forall>k v. c k = Some v \<longrightarrow> k \<in> K \<and> M (storageKey sha h k) = Some v)"

definition cache_ok :: "(bytes \<Rightarrow> bytes) \<Rightarrow> hash set \<Rightarrow> (bytes \<rightharpoonup> bytes) \<Rightarrow> stateObject \<Rightarrow> bool" where
  "cache_ok sha K M o1 \<longleftrightarrow>
     cached sha K (so_addrHash o1) (so_cachedStorage o1) M
     \<and> dom (so_dirtyStorage o1) \<subseteq> K
     \<and> (\<not> so_dirtyCode o1 \<longrightarrow> so_code o1 = None \<or> M (dataKey (so_addrHash o1) dataTypeCode []) = so_code o1)
     \<and> (so_dirtyCode o1 \<longrightarrow> so_code o1 = None \<longrightarrow> acc_CodeHash (so_account o1) = [])
     \<and> (\<not> so_dirtyAccount o1 \<longrightarrow> \<not> so_deleted o1 \<longrightarrow>
          M (dataKey (so_addrHash o1) dataTypeAccount []) = serializeAccount (so_account o1))
     \<and> (so_deleted o1 \<longrightarrow> so_suicided o1 \<and> so_dirtyStorage o1 = Map.empty \<and> \<not> so_dirtyCode o1 \<and> \<not> so_dirtyAccount o1)"

definition put_storage ::
  "(bytes \<Rightarrow> bytes) \<Rightarrow> hash \<Rightarrow> (hash \<rightharpoonup> bytes) \<Rightarrow> hash \<Rightarrow> (bytes \<rightharpoonup> bytes) \<Rightarrow> (bytes \<rightharpoonup> bytes)" where
  "put_storage sha h d k M = (case d k of None \<Rightarrow> M | Some v \<Rightarrow> M(storageKey sha h k \<mapsto> v))"

lemma storageKey_inj:
  "inj_on (MustHash sha) K \<Longrightarrow> k \<in> K \<Longrightarrow> k' \<in> K \<Longrightarrow> storageKey sha h k = storageKey sha h k' \<longleftrightarrow> k = k'"
  by (auto simp: storageKey_def dest: inj_onD)

lemma cached_put:
  "cached sha K h c M \<Longrightarrow> inj_on (MustHash sha) K \<Longrightarrow> k \<in> K \<Longrightarrow>
     cached sha K h (c(k \<mapsto> v)) (M(storageKey sha h k \<mapsto> v))"
  by (auto simp: cached_def storageKey_inj)

lemma cached_same: "cached sha K h c M \<Longrightarrow> c k = Some v \<Longrightarrow> M(storageKey sha h k \<mapsto> v) = M"
  by (auto simp: cached_def fun_eq_iff)

lemma data_storage [simp]:
  "dataKey h dataTypeAccount [] \<noteq> storageKey sha h k" "dataKey h dataTypeCode [] \<noteq> storageKey sha h k"
  "storageKey sha h k \<noteq> dataKey h dataTypeAccount []" "storageKey sha h k \<noteq> dataKey h dataTypeCode []"
  by (simp_all add: storageKey_def)

lemma fold_put_storage:
  "inj_on (MustHash sha) K \<Longrightarrow> set ks \<subseteq> K \<Longrightarrow> k \<in> K \<Longrightarrow>
     fold (put_storage sha h d) ks M (storageKey sha h k) =
       (if k \<in> set ks \<and> d k \<noteq> None then d k else M (storageKey sha h k))"
  by (induction ks arbitrary: M) (auto simp: put_storage_def storageKey_inj split: option.splits)

lemma fold_put_storage_other:
  "(\<And>k. x \<noteq> storageKey sha h k) \<Longrightarrow> fold (put_storage sha h d) ks M x = M x"
  by (induction ks arbitrary: M) (auto simp: put_storage_def split: option.splits)

context trie_contract
begin

lemma flushStorage_writes:
  assumes "models t M" "set ks \<subseteq> K" "inj_on (MustHash sha) K"
    and "cached sha K (so_addrHash o1) (so_cachedStorage o1) M"
  shows "\<exists>t' c. flushStorage T sha ks o1 t = (t', o1\<lparr>so_dirtyStorage := Map.empty, so_cachedStorage := c\<rparr>, None)
    \<and> models t' (fold (put_storage sha (so_addrHash o1) (so_dirtyStorage o1)) ks M)
    \<and> cached sha K (so_addrHash o1) c (fold (put_storage sha (so_addrHash o1) (so_dirtyStorage o1)) ks M)"
  using assms
proof (induction ks arbitrary: o1 t M)
  case Nil
  then show ?case by (auto intro!: exI [of _ "so_cachedStorage o1"])
next
  case (Cons k ks)
  let ?h = "so_addrHash o1"
  have ks: "k \<in> K" "set ks \<subseteq> K" using Cons.prems(2) by auto
  show ?case
  proof (cases "so_dirtyStorage o1 k")
    case None
    then show ?thesis using Cons.IH [OF Cons.prems(1) ks(2) Cons.prems(3,4)] by (simp add: put_storage_def)
  next
    case (Some v)
    show ?thesis
    proof (cases "so_cachedStorage o1 k = Some v")
      case True
      then have "put_storage sha ?h (so_dirtyStorage o1) k M = M"
        using cached_same [OF Cons.prems(4) True] Some by (simp add: put_storage_def)
      then show ?thesis
        using Cons.IH [OF Cons.prems(1) ks(2) Cons.prems(3,4)] Some True by simp
    next
      case False
      let ?o = "o1\<lparr>so_cachedStorage := (so_cachedStorage o1)(k \<mapsto> v)\<rparr>"
      obtain t' where t': "tr_Put T t (storageKey sha ?h k) v = (t', None)"
        "models t' (M(storageKey sha ?h k \<mapsto> v))" using put_law [OF Cons.prems(1)] by blast
      have "cached sha K (so_addrHash ?o) (so_cachedStorage ?o) (M(storageKey sha ?h k \<mapsto> v))"
        using cached_put [OF Cons.prems(4,3) ks(1)] by (simp del: fun_upd_apply)
      from Cons.IH [OF t'(2) ks(2) Cons.prems(3) this] show ?thesis
        using Some False t'(1) by (simp add: put_storage_def Let_def del: fun_upd_apply)
    qed
  qed
qed

end

text \<open>The entries of the trie after a flush of an object.\<close>

definition flushed ::
  "(bytes \<Rightarrow> bytes) \<Rightarrow> hash list \<Rightarrow> stateObject \<Rightarrow> (bytes \<rightharpoonup> bytes) \<Rightarrow> (bytes \<rightharpoonup> bytes)" where
  "flushed sha ks o1 M =
     (let h = so_addrHash o1;
          M1 = fold (put_storage sha h (so_dirtyStorage o1)) ks M;
          M2 = (if so_dirtyCode o1 then M1(dataKey h dataTypeCode [] \<mapsto> opt_bytes (so_code o1)) else M1);
          M3 = (if so_dirtyAccount o1 then M2(dataKey h dataTypeAccount [] := serializeAccount (so_account o1)) else M2)
      in if so_suicided o1 \<and> \<not> so_deleted o1 then (\<lambda>x. if prefix h x then None else M3 x) else M3)"

context trie_contract
begin

lemma so_flush_writes:
  assumes m: "models t M" and ks: "set ks \<subseteq> K" and inj: "inj_on (MustHash sha) K"
    and c: "cached sha K (so_addrHash o1) (so_cachedStorage o1) M"
    and acc: "so_dirtyAccount o1 \<longrightarrow> serializeAccount (so_account o1) \<noteq> None"
    and h: "so_addrHash o1 \<noteq> []"
  shows "\<exists>t' o2. so_flush T sha ks o1 t = (t', o2, None) \<and> models t' (flushed sha ks o1 M)"
proof -
  let ?h = "so_addrHash o1"
  let ?M1 = "fold (put_storage sha ?h (so_dirtyStorage o1)) ks M"
  let ?M2 = "if so_dirtyCode o1 then ?M1(dataKey ?h dataTypeCode [] \<mapsto> opt_bytes (so_code o1)) else ?M1"
  let ?M3 = "if so_dirtyAccount o1 then ?M2(dataKey ?h dataTypeAccount [] := serializeAccount (so_account o1)) else ?M2"
  obtain t1 d where t1: "flushStorage T sha ks o1 t = (t1, o1\<lparr>so_dirtyStorage := Map.empty, so_cachedStorage := d\<rparr>, None)"
    "models t1 ?M1" using flushStorage_writes [OF m ks inj c] by blast
  let ?o1 = "o1\<lparr>so_dirtyStorage := Map.empty, so_cachedStorage := d\<rparr>"
  obtain t2 where t2: "flushCode T ?o1 t1 = (t2, ?o1\<lparr>so_dirtyCode := False\<rparr>, None)" "models t2 ?M2"
    using put_law [OF t1(2), of "dataKey ?h dataTypeCode []" "opt_bytes (so_code o1)"] t1(2)
    by (cases "so_dirtyCode o1") (auto simp: flushCode_def opt_bytes_def)
  let ?o2 = "?o1\<lparr>so_dirtyCode := False\<rparr>"
  obtain t3 where t3: "flushAccount T ?o2 t2 = (t3, ?o2\<lparr>so_dirtyAccount := False\<rparr>, None)" "models t3 ?M3"
  proof (cases "so_dirtyAccount o1")
    case True
    then obtain v where "serializeAccount (so_account o1) = Some v" using acc by auto
    then show thesis
      using True that put_law [OF t2(2), of "dataKey ?h dataTypeAccount []" v]
      by (auto simp: flushAccount_def simp del: fun_upd_apply)
  next
    case False
    then show thesis using that [of t2] t2(2) by (simp add: flushAccount_def)
  qed
  define M3 where "M3 = ?M3"
  have m3: "models t3 M3" using t3(2) by (simp only: M3_def)
  have fl: "flushed sha ks o1 M = (if so_suicided o1 \<and> \<not> so_deleted o1 then (\<lambda>x. if prefix ?h x then None else M3 x) else M3)"
    by (simp only: flushed_def Let_def M3_def)
  have "\<exists>t' o'. flushSuicide T (?o2\<lparr>so_dirtyAccount := False\<rparr>) t3 = (t', o', None) \<and> models t' (flushed sha ks o1 M)"
    using delete_law [OF m3 h] m3 by (cases "so_suicided o1 \<and> \<not> so_deleted o1") (auto simp: flushSuicide_def fl)
  then show ?thesis using t1(1) t2(1) t3(1) by (simp add: so_flush_def)
qed

end

lemma flushed_other:
  assumes "\<not> prefix (so_addrHash o1) x"
  shows "flushed sha ks o1 M x = M x"
proof -
  have "x \<noteq> dataKey (so_addrHash o1) ty p" for ty p using assms prefix_dataKey by blast
  then show ?thesis by (simp add: flushed_def Let_def assms fold_put_storage_other storageKey_def)
qed

lemma flushed_deleted:
  "cache_ok sha K M o1 \<Longrightarrow> so_deleted o1 \<Longrightarrow> flushed sha ks o1 M = M"
  by (induction ks) (auto simp: flushed_def Let_def cache_ok_def put_storage_def)

text \<open>What the trie holds of an object once it is flushed.\<close>

definition persists ::
  "(bytes \<Rightarrow> bytes) \<Rightarrow> hash set \<Rightarrow> address \<Rightarrow> (bytes \<rightharpoonup> bytes) \<Rightarrow> stateObject \<Rightarrow> (bytes \<rightharpoonup> bytes) \<Rightarrow> bool" where
  "persists sha K a M o1 M' \<longleftrightarrow>
     (if so_suicided o1 then trie_object sha M' a = None
      else \<exists>o2. trie_object sha M' a = Some o2 \<and> so_account o2 = so_account o1
        \<and> obj_code M' o2 = obj_code M o1 \<and> (\<forall>k \<in> K. obj_storage sha M' o2 k = obj_storage sha M o1 k))"

lemma code_ok_empty: "code_ok sha M o1 \<Longrightarrow> acc_CodeHash (so_account o1) = [] \<longleftrightarrow> obj_code M o1 = []"
proof -
  have "length (HashBytes sha c) = HashLength" for c by (simp add: HashBytes_def BytesToHash_def Let_def)
  then have "HashBytes sha c \<noteq> []" for c by (metis HashLength_pos(2) list.size(3))
  then show "code_ok sha M o1 \<Longrightarrow> ?thesis" by (simp add: code_ok_def)
qed

lemma flushed_persists:
  assumes ok: "object_ok sha M a o1" and c: "cache_ok sha K M o1" and acc: "\<not> so_deleted o1 \<Longrightarrow> account_sized (so_account o1)"
    and ks: "set ks \<subseteq> K" "dom (so_dirtyStorage o1) \<subseteq> set ks" and inj: "inj_on (MustHash sha) K"
  shows "persists sha K a M o1 (flushed sha ks o1 M)"
proof (cases "so_suicided o1")
  case True
  show ?thesis
  proof (cases "so_deleted o1")
    case d: True
    then show ?thesis using True ok c flushed_deleted [OF c d] by (simp add: persists_def object_ok_def)
  next
    case False
    then have "flushed sha ks o1 M (dataKey (MustHash sha a) dataTypeAccount []) = None"
      using True ok by (simp add: flushed_def Let_def object_ok_def prefix_dataKey)
    then show ?thesis using True by (simp add: persists_def trie_object_def)
  qed
next
  case False
  let ?h = "MustHash sha a" and ?M = "flushed sha ks o1 M"
  have nd: "\<not> so_deleted o1" using c False by (auto simp: cache_ok_def)
  have h: "so_addrHash o1 = ?h" using ok by (simp add: object_ok_def)
  obtain v where v: "serializeAccount (so_account o1) = Some v" "deserializeAccount v = Some (so_account o1)"
    using account_roundtrip [OF acc [OF nd]] by blast
  have "?M (dataKey ?h dataTypeAccount []) = Some v"
    using False v(1) c nd h
    by (simp add: flushed_def Let_def cache_ok_def fold_put_storage_other)
  then have o2: "trie_object sha ?M a = Some ((newStateObject sha a)\<lparr>so_account := so_account o1\<rparr>)"
    using v(2) by (simp add: trie_object_def)
  have mc: "?M (dataKey ?h dataTypeCode []) =
      (if so_dirtyCode o1 then Some (opt_bytes (so_code o1)) else M (dataKey ?h dataTypeCode []))"
    using False h by (simp add: flushed_def Let_def fold_put_storage_other)
  have code: "obj_code ?M ((newStateObject sha a)\<lparr>so_account := so_account o1\<rparr>) = obj_code M o1"
  proof (cases "acc_CodeHash (so_account o1) = []")
    case True
    then show ?thesis using ok code_ok_empty [of sha M o1] by (simp add: obj_code_def newStateObject_def object_ok_def)
  next
    case False
    have "opt_bytes (?M (dataKey ?h dataTypeCode [])) = obj_code M o1"
    proof (cases "so_dirtyCode o1")
      case True
      then obtain d where "so_code o1 = Some d" using c False by (auto simp: cache_ok_def)
      then show ?thesis using mc True by (simp add: obj_code_def opt_bytes_def)
    next
      case nd: False
      then have "so_code o1 = None \<or> M (dataKey ?h dataTypeCode []) = so_code o1"
        using c h by (simp add: cache_ok_def)
      then show ?thesis using mc nd False h by (auto simp: obj_code_def opt_bytes_def split: option.split)
    qed
    then show ?thesis using False by (simp add: obj_code_def newStateObject_def)
  qed
  have "obj_storage sha ?M ((newStateObject sha a)\<lparr>so_account := so_account o1\<rparr>) k = obj_storage sha M o1 k"
    if k: "k \<in> K" for k
  proof -
    have "?M (storageKey sha ?h k) = (if so_dirtyStorage o1 k \<noteq> None then so_dirtyStorage o1 k else M (storageKey sha ?h k))"
      using False h ks(2) by (auto simp: flushed_def Let_def fold_put_storage [OF inj ks(1) k])
    then show ?thesis using c h by (auto simp: obj_storage_def newStateObject_def opt_bytes_def cache_ok_def cached_def
        split: option.splits)
  qed
  with o2 code False show ?thesis by (simp add: persists_def)
qed

section \<open>Flushing all objects\<close>

text \<open>What the trie holds of an account depends on the keys that start with the hash of its address.\<close>

definition agree :: "hash \<Rightarrow> (bytes \<rightharpoonup> bytes) \<Rightarrow> (bytes \<rightharpoonup> bytes) \<Rightarrow> bool" where
  "agree h M M' \<longleftrightarrow> (\<forall>x. prefix h x \<longrightarrow> M' x = M x)"

lemma agree_data:
  assumes "agree h M M'"
  shows "M' (dataKey h ty p) = M (dataKey h ty p)" "M' (storageKey sha h k) = M (storageKey sha h k)"
  using assms prefix_dataKey by (auto simp: agree_def storageKey_def)

lemma agree_object:
  assumes "agree (MustHash sha a) M M'"
  shows "trie_object sha M' a = trie_object sha M a"
    and "so_addrHash o1 = MustHash sha a \<Longrightarrow> obj_code M' o1 = obj_code M o1"
    and "so_addrHash o1 = MustHash sha a \<Longrightarrow> obj_storage sha M' o1 k = obj_storage sha M o1 k"
  using agree_data [OF assms] by (simp_all add: trie_object_def obj_code_def obj_storage_def cong: option.case_cong)

lemma agree_ok:
  assumes g: "agree (MustHash sha a) M M'" and o1: "object_ok sha M a o1"
  shows "object_ok sha M' a o1" "cache_ok sha K M o1 \<Longrightarrow> cache_ok sha K M' o1"
proof -
  have h: "so_addrHash o1 = MustHash sha a" using o1 by (simp add: object_ok_def)
  show "object_ok sha M' a o1" using o1 agree_object [OF g] h by (simp add: object_ok_def code_ok_def)
  show "cache_ok sha K M o1 \<Longrightarrow> cache_ok sha K M' o1"
    using h by (simp add: cache_ok_def cached_def agree_data [OF g])
qed

lemma agree_persists:
  assumes g: "agree (MustHash sha a) M1 M2" and p: "persists sha K a M o1 M1"
  shows "persists sha K a M o1 M2"
proof (cases "so_suicided o1")
  case True
  then show ?thesis using p agree_object(1) [OF g] by (simp add: persists_def)
next
  case False
  then obtain o2 where o2: "trie_object sha M1 a = Some o2" "so_account o2 = so_account o1"
    "obj_code M1 o2 = obj_code M o1" "\<And>k. k \<in> K \<Longrightarrow> obj_storage sha M1 o2 k = obj_storage sha M o1 k"
    using p by (auto simp: persists_def)
  have "so_addrHash o2 = MustHash sha a" using trie_object_fields [OF o2(1)] by simp
  with o2 False show ?thesis using agree_object [OF g] by (simp add: persists_def)
qed

lemma agree_persists_from:
  assumes "agree (MustHash sha a) M M1" "so_addrHash o1 = MustHash sha a" "persists sha K a M1 o1 M2"
  shows "persists sha K a M o1 M2"
proof -
  have "obj_code M1 o1 = obj_code M o1" "obj_storage sha M1 o1 k = obj_storage sha M o1 k" for k
    using agree_object(2,3) [OF assms(1,2)] by auto
  then show ?thesis using assms(3) by (cases "so_suicided o1") (simp_all add: persists_def)
qed

lemma agree_flushed:
  assumes "so_addrHash o1 \<noteq> h" "length h = length (so_addrHash o1)"
  shows "agree h M (flushed sha ks o1 M)"
proof -
  have "\<not> prefix (so_addrHash o1) x" if "prefix h x" for x
    using that assms prefix_same_length [of h x "so_addrHash o1"] by auto
  then show ?thesis by (simp add: agree_def flushed_other)
qed

definition ready ::
  "(bytes \<Rightarrow> bytes) \<Rightarrow> hash set \<Rightarrow> (bytes \<rightharpoonup> bytes) \<Rightarrow> address \<Rightarrow> hash list \<Rightarrow> stateObject \<Rightarrow> bool" where
  "ready sha K M a ks o1 \<longleftrightarrow>
     object_ok sha M a o1 \<and> cache_ok sha K M o1 \<and> (\<not> so_deleted o1 \<longrightarrow> account_sized (so_account o1))
     \<and> set ks \<subseteq> K \<and> dom (so_dirtyStorage o1) \<subseteq> set ks"

context trie_contract
begin

lemma so_flush_ready:
  assumes "models t M" "ready sha K M a ks o1" "inj_on (MustHash sha) K"
  shows "\<exists>t' o2. so_flush T sha ks o1 t = (t', o2, None) \<and> models t' (flushed sha ks o1 M)"
proof (rule so_flush_writes [OF assms(1) _ assms(3)])
  have h: "so_addrHash o1 = MustHash sha a" using assms(2) by (simp add: ready_def object_ok_def)
  show "so_addrHash o1 \<noteq> []" using h length_MustHash [of sha a] by (metis HashLength_pos(2) list.size(3))
  show "set ks \<subseteq> K" "cached sha K (so_addrHash o1) (so_cachedStorage o1) M"
    using assms(2) by (auto simp: ready_def cache_ok_def)
  show "so_dirtyAccount o1 \<longrightarrow> serializeAccount (so_account o1) \<noteq> None"
    using assms(2) by (auto simp: ready_def cache_ok_def account_sized_def serializeAccount_def)
qed

lemma flushAll_persists:
  assumes "models (sd_trie s) M" "distinct as" "inj_on (MustHash sha) (set as)" "inj_on (MustHash sha) K"
    and "\<And>a. a \<in> set as \<Longrightarrow> \<exists>o1. sd_objects s a = Some o1 \<and> ready sha K M a (ord a) o1"
  shows "\<exists>s' M'. flushAll T sha ord as s = (s', None) \<and> models (sd_trie s') M'
    \<and> (\<forall>a \<in> set as. persists sha K a M (the (sd_objects s a)) M')
    \<and> (\<forall>h. length h = HashLength \<and> h \<notin> MustHash sha ` set as \<longrightarrow> agree h M M')"
  using assms(1,2,3,5)
proof (induction as arbitrary: s M)
  case Nil
  then show ?case by (auto simp: agree_def)
next
  case (Cons a as)
  obtain o1 where o1: "sd_objects s a = Some o1" "ready sha K M a (ord a) o1" using Cons.prems(4) [of a] by auto
  let ?M = "flushed sha (ord a) o1 M"
  have h: "so_addrHash o1 = MustHash sha a" using o1(2) by (simp add: ready_def object_ok_def)
  obtain t' o2 where t': "so_flush T sha (ord a) o1 (sd_trie s) = (t', o2, None)" "models t' ?M"
    using so_flush_ready [OF Cons.prems(1) o1(2) assms(4)] by blast
  let ?s = "putObject a o2 (s\<lparr>sd_trie := t'\<rparr>)"
  have other: "agree g M ?M" if "length g = HashLength" "g \<noteq> MustHash sha a" for g
    by (rule agree_flushed) (use that h in auto)
  have ne: "MustHash sha b \<noteq> MustHash sha a" if "b \<in> set as" for b
    using that Cons.prems(2,3) by (metis distinct.simps(2) inj_on_insert image_eqI insert_Diff_if list.set(2) Diff_insert0 Diff_empty)
  have rd: "\<exists>o1. sd_objects ?s b = Some o1 \<and> ready sha K ?M b (ord b) o1" if b: "b \<in> set as" for b
  proof -
    have "b \<noteq> a" using b Cons.prems(2) by auto
    moreover obtain ob where "sd_objects s b = Some ob" "ready sha K M b (ord b) ob" using Cons.prems(4) [of b] b by auto
    ultimately show ?thesis using agree_ok [OF other [OF length_MustHash ne [OF b]]] by (auto simp: ready_def)
  qed
  obtain s' M' where IH: "flushAll T sha ord as ?s = (s', None)" "models (sd_trie s') M'"
    "\<And>b. b \<in> set as \<Longrightarrow> persists sha K b ?M (the (sd_objects ?s b)) M'"
    "\<And>g. length g = HashLength \<Longrightarrow> g \<notin> MustHash sha ` set as \<Longrightarrow> agree g ?M M'"
    using Cons.IH [of ?s ?M] t'(2) Cons.prems(2,3) rd by auto
  have "persists sha K a M o1 ?M" using o1(2) flushed_persists assms(4) by (auto simp: ready_def)
  then have "persists sha K a M o1 M'"
    using agree_persists [OF IH(4) [OF length_MustHash]] ne by force
  moreover have "persists sha K b M (the (sd_objects s b)) M'" if b: "b \<in> set as" for b
  proof -
    have ba: "b \<noteq> a" using b Cons.prems(2) by auto
    obtain ob where "sd_objects s b = Some ob" "so_addrHash ob = MustHash sha b"
      using Cons.prems(4) [of b] b by (auto simp: ready_def object_ok_def)
    then show ?thesis using agree_persists_from [OF other [OF length_MustHash ne [OF b]]] IH(3) [OF b] ba by simp
  qed
  moreover have "agree g M M'" if "length g = HashLength" "g \<notin> MustHash sha ` set (a # as)" for g
    using other [of g] IH(4) [of g] that by (simp add: agree_def)
  ultimately have "models (sd_trie s') M' \<and> (\<forall>b \<in> set (a # as). persists sha K b M (the (sd_objects s b)) M')
      \<and> (\<forall>g. length g = HashLength \<and> g \<notin> MustHash sha ` set (a # as) \<longrightarrow> agree g M M')"
    using o1(1) IH(2) by simp
  moreover have "flushAll T sha ord (a # as) s = (s', None)" using o1(1) t'(1) IH(1) by (simp add: Let_def)
  ultimately show ?case by blast
qed

end

section \<open>Caches along an execution\<close>

text \<open>
  From an opened database on, until a flush: every object is marked dirty, none is deleted, and its
  caches agree with the trie.
\<close>

definition fresh_obj :: "(bytes \<Rightarrow> bytes) \<Rightarrow> (bytes \<rightharpoonup> bytes) \<Rightarrow> address \<Rightarrow> stateObject \<Rightarrow> bool" where
  "fresh_obj sha M a o1 \<longleftrightarrow>
     so_addrHash o1 = MustHash sha a \<and> so_dirtyAccount o1 \<and> \<not> so_deleted o1
     \<and> (\<forall>k v. so_cachedStorage o1 k = Some v \<longrightarrow> M (storageKey sha (MustHash sha a) k) = Some v)
     \<and> (\<not> so_dirtyCode o1 \<longrightarrow> so_code o1 = None \<or> M (dataKey (MustHash sha a) dataTypeCode []) = so_code o1)
     \<and> (so_dirtyCode o1 \<longrightarrow> so_code o1 = None \<longrightarrow> acc_CodeHash (so_account o1) = [])"

definition fresh :: "(bytes \<Rightarrow> bytes) \<Rightarrow> (bytes \<rightharpoonup> bytes) \<Rightarrow> 't statedb \<Rightarrow> bool" where
  "fresh sha M s \<longleftrightarrow> (\<forall>a o1. sd_objects s a = Some o1 \<longrightarrow> fresh_obj sha M a o1)"

lemma fresh_putObject: "fresh sha M s \<Longrightarrow> fresh_obj sha M a o1 \<Longrightarrow> fresh sha M (putObject a o1 s)"
  by (simp add: fresh_def)

lemma fresh_simps [simp]:
  "fresh sha M (record_change e s) = fresh sha M s" "fresh sha M (setError x s) = fresh sha M s"
  "fresh sha M (s\<lparr>sd_trie := t\<rparr>) = fresh sha M s" "fresh sha M (s\<lparr>sd_refund := g\<rparr>) = fresh sha M s"
  "fresh sha M (s\<lparr>sd_journal := j\<rparr>) = fresh sha M s" "fresh sha M (s\<lparr>sd_curLogs := l\<rparr>) = fresh sha M s"
  by (simp_all add: fresh_def)

lemma fresh_setters:
  assumes "fresh_obj sha M a o1"
  shows "fresh_obj sha M a (so_setState k v o1)" "fresh_obj sha M a (so_setNonce c o1)"
    "fresh_obj sha M a (so_setTxCount c o1)" "fresh_obj sha M a (so_setAmount n o1)"
    "fresh_obj sha M a (so_setCode sha p o1)" "fresh_obj sha M a (o1\<lparr>so_suicided := b\<rparr>)"
    "fresh_obj sha M a (o1\<lparr>so_account := (so_account o1)\<lparr>acc_Amount := n\<rparr>\<rparr>)"
    "fresh_obj sha M a (o1\<lparr>so_account := (so_account o1)\<lparr>acc_Nonce := c\<rparr>\<rparr>)"
    "fresh_obj sha M a (so_addAmount n o1)" "fresh_obj sha M a (so_subAmount n o1)"
    "fresh_obj sha M a (o1\<lparr>so_suicided := b, so_account := (so_account o1)\<lparr>acc_Amount := n\<rparr>\<rparr>)"
  using assms
  by (simp_all add: fresh_obj_def so_setState_def so_setNonce_def so_setTxCount_def so_setAmount_def so_setCode_def
      so_addAmount_def so_subAmount_def)

lemma fresh_newStateObject: "fresh_obj sha M a ((newStateObject sha a)\<lparr>so_account := acc\<rparr>)" "fresh_obj sha M a (newStateObject sha a)"
  by (simp_all add: fresh_obj_def newStateObject_def)

context trie_contract
begin

lemma getStateObject_fresh:
  assumes m: "models (sd_trie s) M" and f: "fresh sha M s" and g: "getStateObject T sha a s = (s', r)"
  shows "models (sd_trie s') M \<and> fresh sha M s' \<and> (\<forall>o1. r = Some o1 \<longrightarrow> fresh_obj sha M a o1)"
proof (cases "sd_objects s a")
  case (Some o1)
  then show ?thesis using m f g by (auto simp: getStateObject_def fresh_def split: if_splits)
next
  case None
  let ?k = "dataKey (so_addrHash (newStateObject sha a)) dataTypeAccount []"
  obtain t' where t': "tr_Get T (sd_trie s) ?k = (t', M ?k, None)" "models t' M" using get_law [OF m] by blast
  then show ?thesis using None g f
    by (auto simp: getStateObject_def loadAccount_def Let_def fresh_putObject fresh_newStateObject
        split: option.splits)
qed

lemma so_getState_fresh:
  assumes "models t M" "fresh_obj sha M a o1" "so_getState T sha o1 t k c = (t', o2, r)"
  shows "models t' M \<and> fresh_obj sha M a o2"
proof -
  let ?k = "storageKey sha (so_addrHash o1) k"
  obtain t1 where t1: "tr_Get T t ?k = (t1, M ?k, None)" "models t1 M" using get_law [OF assms(1)] by blast
  then show ?thesis using assms
    by (auto simp: so_getState_def fresh_obj_def split: option.splits if_splits)
qed

lemma loadCode_fresh:
  assumes "models t M" "fresh_obj sha M a o1" "loadCode T o1 t = (t', o2, r)"
  shows "models t' M \<and> fresh_obj sha M a o2"
proof -
  let ?k = "dataKey (so_addrHash o1) dataTypeCode []"
  obtain t1 where t1: "tr_Get T t ?k = (t1, M ?k, None)" "models t1 M" using get_law [OF assms(1)] by blast
  then show ?thesis using assms
    by (auto simp: loadCode_def fresh_obj_def split: option.splits if_splits)
qed

text \<open>The shape of the operations: load the object, perhaps a value, and put a changed object.\<close>

lemma sdb_exec_fresh:
  assumes m: "models (sd_trie s) M" and f: "fresh sha M s"
  shows "models (sd_trie (sdb_exec T sha op s)) M \<and> fresh sha M (sdb_exec T sha op s)"
proof -
  have g: "models (sd_trie s') M \<and> fresh sha M s' \<and> (\<forall>o1. r = Some o1 \<longrightarrow> fresh_obj sha M a o1)"
    if "getStateObject T sha a s = (s', r)" for a s' r using getStateObject_fresh [OF m f that] .
  note defs = GetBalance_def GetNonce_def GetTxCount_def GetCodeHash_def Exist_def Empty_def HasSuicided_def
    SetBalance_def AddBalance_def SubBalance_def SetNonce_def SetNonce2_def CreateAccount_def Suicide_def
    AddRefund_def SubRefund_def AddLog_def
  show ?thesis
  proof (cases op)
    case (OpGetCode a)
    then show ?thesis
      by (cases "getStateObject T sha a s") (auto simp: GetCode_def Let_def fresh_putObject
          dest!: g loadCode_fresh [rotated 2] split: option.splits prod.splits sum.splits)
  next
    case (OpGetData a k)
    then show ?thesis
      by (cases "getStateObject T sha a s") (auto simp: GetData_def getData_def Let_def fresh_putObject
          dest!: g so_getState_fresh [rotated 2] split: option.splits prod.splits sum.splits)
  next
    case (OpSetData a k v)
    then show ?thesis
      by (cases "getStateObject T sha a s") (auto simp: SetData_def Let_def fresh_putObject fresh_setters
          dest!: g so_getState_fresh [rotated 2] split: option.splits prod.splits sum.splits)
  next
    case (OpSetCode a c)
    then show ?thesis
      by (cases "getStateObject T sha a s") (auto simp: SetCode_def Let_def fresh_putObject fresh_setters
          dest!: g loadCode_fresh [rotated 2] split: option.splits prod.splits sum.splits)
  qed (use m f in \<open>auto simp: defs Let_def fresh_putObject fresh_setters fresh_newStateObject dest!: g
      split: prod.splits option.splits\<close>)
qed

lemma entry_revert_fresh:
  assumes m: "models (sd_trie s) M" and f: "fresh sha M s" and e: "entry_revert T sha e s = Inr s'"
  shows "models (sd_trie s') M \<and> fresh sha M s'"
proof -
  have g: "models (sd_trie s') M \<and> fresh sha M s' \<and> (\<forall>o1. r = Some o1 \<longrightarrow> fresh_obj sha M a o1)"
    if "getStateObject T sha a s = (s', r)" for a s' r using getStateObject_fresh [OF m f that] .
  show ?thesis
    using e m f by (cases e) (auto simp: with_object_def fresh_putObject fresh_setters dest!: g
        split: prod.splits option.splits, auto simp: fresh_def)
qed

lemma revert_loop_fresh:
  "models (sd_trie s) M \<Longrightarrow> fresh sha M s \<Longrightarrow> revert_loop T sha es s = Inr s' \<Longrightarrow>
     models (sd_trie s') M \<and> fresh sha M s'"
proof (induction es arbitrary: s)
  case (Cons e es)
  from Cons.prems(3) obtain s1 where s1: "entry_revert T sha e s = Inr s1"
    "revert_loop T sha es (s1\<lparr>sd_journal := (sd_journal s1)\<lparr>jr_dirties := undirty e (jr_dirties (sd_journal s1))\<rparr>\<rparr>) = Inr s'"
    by (auto split: sum.splits)
  then show ?case using Cons.IH [OF _ _ s1(2)] entry_revert_fresh [OF Cons.prems(1,2) s1(1)] by simp
qed simp

lemma path_fresh:
  "sdb_path T sha k s s' \<Longrightarrow> models (sd_trie s) M \<Longrightarrow> fresh sha M s \<Longrightarrow> models (sd_trie s') M \<and> fresh sha M s'"
proof (induction rule: sdb_path.induct)
  case (path_op s' op)
  then show ?case using sdb_exec_fresh by blast
next
  case (path_revert s' i s'')
  then obtain s1 where "revert_loop T sha (rev (drop i (jr_entries (sd_journal s')))) s' = Inr s1"
    "s'' = s1\<lparr>sd_journal := (sd_journal s1)\<lparr>jr_entries := take i (jr_entries (sd_journal s1))\<rparr>\<rparr>"
    by (auto simp: RevertToSnapshot_def split: if_splits sum.splits)
  then show ?case using revert_loop_fresh [of s' M sha] path_revert by simp
qed simp

text \<open>A path from an opened database leaves every object ready to be flushed.\<close>

lemma path_ready:
  assumes p: "sdb_path T sha 0 (NewStatedbWithTrie t) s" and m: "models t M" and e: "state_ok sha M Map.empty"
    and o1: "sd_objects s a = Some o1" and sz: "account_sized (so_account o1)"
    and K: "dom (so_cachedStorage o1) \<subseteq> K" "dom (so_dirtyStorage o1) \<subseteq> set ks" "set ks \<subseteq> K"
  shows "ready sha K M a ks o1"
proof -
  have "models (sd_trie s) M \<and> undo_point sha M (NewStatedbWithTrie t) s"
    using path_undo_point [of sha "NewStatedbWithTrie t" s M] p m e
    by (simp add: NewStatedbWithTrie_def newJournal_def journal_ok_def dirt_def fun_eq_iff)
  then have "object_ok sha M a o1" using o1 by (simp add: undo_point_def state_ok_def)
  moreover have "fresh_obj sha M a o1"
    using path_fresh [OF p, of M] m o1 by (simp add: NewStatedbWithTrie_def fresh_def)
  ultimately show ?thesis using sz K by (auto simp: ready_def cache_ok_def cached_def fresh_obj_def)
qed

end

section \<open>The entries after a commit\<close>

lemma persists_ok:
  assumes "object_ok sha M a o1" "persists sha K a M o1 M'" "trie_object sha M' b = Some ob"
    and "MustHash sha b = MustHash sha a"
  shows "object_ok sha M' b ob"
proof -
  have eq: "map_option so_account (trie_object sha M' b) = map_option so_account (trie_object sha M' a)"
    using assms(4) by (simp add: trie_object_def option.map_comp comp_def split: option.split)
  then obtain o2 where o2: "trie_object sha M' a = Some o2" "so_account o2 = so_account ob" using assms(3) by (cases "trie_object sha M' a") auto
  have f: "so_addrHash ob = MustHash sha a" "so_addrHash o2 = MustHash sha a" "so_code ob = None" "so_code o2 = None"
    "\<not> so_deleted ob"
    using trie_object_fields [OF assms(3)] trie_object_fields [OF o2(1)] assms(4) by auto
  have o1: "so_account o2 = so_account o1" "obj_code M' o2 = obj_code M o1"
    using assms(2) o2(1) by (auto simp: persists_def split: if_splits)
  have "obj_code M' ob = obj_code M' o2" using f o2(2) by (simp add: obj_code_def)
  then show ?thesis using assms(1,4) f o1 o2(2) by (simp add: object_ok_def code_ok_def)
qed

lemma agree_trie_ok:
  assumes "agree (MustHash sha b) M M'" "state_ok sha M Map.empty" "trie_object sha M' b = Some ob"
  shows "object_ok sha M' b ob"
  using assms agree_object(1) [OF assms(1)] agree_ok(1) [OF assms(1)] by (auto simp: state_ok_def)

text \<open>What the getters report after a commit, from what they report before it.\<close>

definition committed ::
  "int \<times> uint64 \<times> bytes \<times> bytes \<times> hash \<times> bool \<times> bool \<times> bool \<times> uint64 \<Rightarrow>
     int \<times> uint64 \<times> bytes \<times> bytes \<times> hash \<times> bool \<times> bool \<times> bool \<times> uint64" where
  "committed ob =
     (case ob of (balance, nonce, data, code, codehash, ex, suicided, void, refund) \<Rightarrow>
        if suicided then (0, 0, [], [], EmptyHash, False, False, True, 0)
        else (balance, nonce, data, code, codehash, ex, False, void, 0))"

lemma report_committed:
  assumes k: "k \<in> K"
    and a: "case objs a of Some o1 \<Rightarrow> \<not> so_deleted o1 \<and> persists sha K a M o1 M' | None \<Rightarrow> agree (MustHash sha a) M M'"
  shows "report (sview sha M' Map.empty a) k 0 = committed (report (sview sha M objs a) k r)"
proof (cases "objs a")
  case None
  with a have g: "agree (MustHash sha a) M M'" by simp
  show ?thesis
  proof (cases "trie_object sha M a")
    case None
    then show ?thesis using agree_object(1) [OF g] \<open>objs a = None\<close>
      by (simp add: sview_def find_object_def committed_def report_def)
  next
    case (Some x)
    have "so_addrHash x = MustHash sha a" "\<not> so_suicided x" using trie_object_fields [OF Some] by auto
    then show ?thesis using agree_object [OF g] \<open>objs a = None\<close> Some
      by (simp add: sview_def find_object_def committed_def obj_view_def report_def)
  qed
next
  case (Some x)
  with a have x: "\<not> so_deleted x" "persists sha K a M x M'" by auto
  show ?thesis
  proof (cases "so_suicided x")
    case True
    then show ?thesis using x Some
      by (simp add: sview_def find_object_def committed_def obj_view_def persists_def report_def)
  next
    case False
    then obtain y where y: "trie_object sha M' a = Some y" "so_account y = so_account x"
      "obj_code M' y = obj_code M x" "obj_storage sha M' y k = obj_storage sha M x k"
      using x(2) k by (auto simp: persists_def)
    then show ?thesis using x(1) Some False trie_object_fields [OF y(1)]
      by (simp add: sview_def find_object_def committed_def obj_view_def report_def)
  qed
qed

text \<open>The addresses and storage keys an operation can touch.\<close>

fun op_addr :: "sdb_op \<Rightarrow> address set" where
  "op_addr (OpGetBalance a) = {a}" | "op_addr (OpGetNonce a) = {a}" | "op_addr (OpGetTxCount a) = {a}"
| "op_addr (OpGetCodeHash a) = {a}" | "op_addr (OpGetCode a) = {a}" | "op_addr (OpGetData a k) = {a}"
| "op_addr (OpExist a) = {a}" | "op_addr (OpEmpty a) = {a}" | "op_addr (OpHasSuicided a) = {a}"
| "op_addr (OpSetBalance a n) = {a}" | "op_addr (OpAddBalance a n) = {a}" | "op_addr (OpSubBalance a n) = {a}"
| "op_addr (OpSetNonce a n) = {a}" | "op_addr (OpSetNonce2 a n c) = {a}" | "op_addr (OpSetData a k v) = {a}"
| "op_addr (OpSetCode a c) = {a}" | "op_addr (OpCreateAccount a) = {a}" | "op_addr (OpSuicide a) = {a}"
| "op_addr (OpAddRefund g) = {}" | "op_addr (OpSubRefund g) = {}" | "op_addr (OpAddLog l) = {}"

fun op_key :: "sdb_op \<Rightarrow> hash set" where
  "op_key (OpGetData a k) = {k}" | "op_key (OpSetData a k v) = {k}" | "op_key op = {}"

definition obj_within :: "hash set \<Rightarrow> stateObject \<Rightarrow> bool" where
  "obj_within K o1 \<longleftrightarrow> dom (so_cachedStorage o1) \<subseteq> K \<and> dom (so_dirtyStorage o1) \<subseteq> K"

definition within :: "address set \<Rightarrow> hash set \<Rightarrow> 't statedb \<Rightarrow> bool" where
  "within A K s \<longleftrightarrow> (\<forall>a o1. sd_objects s a = Some o1 \<longrightarrow> a \<in> A \<and> obj_within K o1)"

lemma within_put: "within A K s \<Longrightarrow> a \<in> A \<Longrightarrow> obj_within K o1 \<Longrightarrow> within A K (putObject a o1 s)"
  by (simp add: within_def)

lemma within_simps [simp]:
  "within A K (record_change e s) = within A K s" "within A K (setError x s) = within A K s"
  "within A K (s\<lparr>sd_trie := t\<rparr>) = within A K s" "within A K (s\<lparr>sd_refund := g\<rparr>) = within A K s"
  "within A K (s\<lparr>sd_curLogs := l\<rparr>) = within A K s"
  by (simp_all add: within_def)

lemma within_setters [simp]:
  "obj_within K (so_setNonce c o1) = obj_within K o1" "obj_within K (so_setTxCount c o1) = obj_within K o1"
  "obj_within K (so_setAmount n o1) = obj_within K o1" "obj_within K (so_setCode sha p o1) = obj_within K o1"
  "obj_within K (o1\<lparr>so_suicided := b\<rparr>) = obj_within K o1"
  "obj_within K (newStateObject sha a)" "obj_within K ((newStateObject sha a)\<lparr>so_account := acc\<rparr>)"
  "k \<in> K \<Longrightarrow> obj_within K (so_setState k v o1) = obj_within K o1"
  by (auto simp: obj_within_def so_setNonce_def so_setTxCount_def so_setAmount_def so_setCode_def so_setState_def
      newStateObject_def)

lemma within_getStateObject:
  "within A K s \<Longrightarrow> a \<in> A \<Longrightarrow> getStateObject T sha a s = (s', r) \<Longrightarrow>
     within A K s' \<and> (\<forall>o1. r = Some o1 \<longrightarrow> obj_within K o1)"
  by (auto simp: getStateObject_def loadAccount_def Let_def within_put split: option.splits prod.splits if_splits)
    (auto simp: within_def)

lemma within_getState:
  "so_getState T sha o1 t k c = (t', o2, r) \<Longrightarrow> k \<in> K \<Longrightarrow> obj_within K o1 \<Longrightarrow> obj_within K o2"
  by (auto simp: so_getState_def obj_within_def subset_iff domIff split: option.splits prod.splits if_splits)

lemma within_loadCode: "loadCode T o1 t = (t', o2, r) \<Longrightarrow> obj_within K o2 = obj_within K o1"
  by (auto simp: loadCode_def obj_within_def split: option.splits prod.splits if_splits)

lemma within_exec:
  assumes w: "within A K s" and a: "op_addr op \<subseteq> A" and k: "op_key op \<subseteq> K"
  shows "within A K (sdb_exec T sha op s)"
proof -
  have g: "within A K s' \<and> (\<forall>o1. r = Some o1 \<longrightarrow> obj_within K o1)"
    if "getStateObject T sha a s = (s', r)" "a \<in> A" for a s' r using within_getStateObject [OF w that(2,1)] .
  note defs = GetBalance_def GetNonce_def GetTxCount_def GetCodeHash_def Exist_def Empty_def HasSuicided_def
    SetBalance_def AddBalance_def SubBalance_def SetNonce_def SetNonce2_def CreateAccount_def Suicide_def
    AddRefund_def SubRefund_def AddLog_def so_addAmount_def so_subAmount_def
    GetCode_def SetCode_def GetData_def getData_def SetData_def
  show ?thesis
    using w a k
    by (cases op) (auto simp: defs Let_def within_loadCode intro!: within_put dest!: g dest: within_getState
      split: prod.splits option.splits sum.splits)
qed

lemma within_fold:
  "within A K s \<Longrightarrow> \<forall>op \<in> set ops. op_addr op \<subseteq> A \<and> op_key op \<subseteq> K \<Longrightarrow> within A K (fold (sdb_exec T sha) ops s)"
  by (induction ops arbitrary: s) (simp_all add: within_exec)

lemma NewTrie_prefix: "NewTrie r pfx db = Inr t \<Longrightarrow> t_dbprefix t = pfx"
  by (auto simp: NewTrie_def NewEmptyTrie_def Let_def split: if_splits sum.splits option.splits)

lemma path_state:
  assumes "mpt_models sha db pfx t M" "state_ok sha M Map.empty"
    and "sdb_path (mpt_ops sha) sha 0 (NewStatedbWithTrie t) s"
  shows "mpt_models sha db pfx (sd_trie s) M" "state_ok sha M (sd_objects s)" "journal_ok (sd_journal s)"
  using mpt.path_undo_point [where s = "NewStatedbWithTrie t" and db = db and pfx = pfx and M = M and sha = sha
      and s' = s] assms
  by (simp_all add: NewStatedbWithTrie_def newJournal_def journal_ok_def dirt_def fun_eq_iff undo_point_def)

context trie_contract
begin

lemma set_amount_view:
  assumes m: "models (sd_trie s) M" and ok: "state_ok sha M (sd_objects s)"
    and op: "op = (case getStateObject T sha a s of
        (s', Some o1) \<Rightarrow> putObject a (so_setAmount (f (acc_Amount (so_account o1))) o1) (record_change (e o1) s')
      | (s', None) \<Rightarrow> s')"
  shows "models (sd_trie op) M \<and> state_ok sha M (sd_objects op) \<and> sview sha M (sd_objects op) =
    (case sview sha M (sd_objects s) a of None \<Rightarrow> sview sha M (sd_objects s)
     | Some w \<Rightarrow> (sview sha M (sd_objects s))(a \<mapsto>
         w\<lparr>vw_amount := if 0 \<le> f (vw_amount w) then f (vw_amount w) else vw_amount w\<rparr>))"
proof -
  obtain s' where s': "getStateObject T sha a s = (s', find_object sha M (sd_objects s) a)"
    "models (sd_trie s') M" "reads sha M s s'"
    using getStateObject_found [OF m ok] by blast
  show ?thesis
  proof (cases "find_object sha M (sd_objects s) a")
    case None
    then show ?thesis using s' op by (simp add: reads_def sview_def)
  next
    case (Some o1)
    have o1: "object_ok sha M a o1" "\<not> so_deleted o1" using state_ok_find [OF ok Some] by auto
    have "sview sha M (sd_objects s) a = Some (obj_view sha M o1)" using Some by (simp add: sview_def)
    moreover have "vw_amount (obj_view sha M o1) = acc_Amount (so_account o1)" by (simp add: obj_view_def)
    ultimately show ?thesis using s' op Some o1
      by (simp add: reads_def sview_upd state_ok_upd setter_ok setter_views)
  qed
qed

lemma GetBalance_view:
  assumes "models (sd_trie s) M" "state_ok sha M (sd_objects s)"
  shows "snd (GetBalance T sha a s) = (case sview sha M (sd_objects s) a of None \<Rightarrow> 0 | Some x \<Rightarrow> vw_amount x)"
    "snd (Exist T sha a s) \<longleftrightarrow> sview sha M (sd_objects s) a \<noteq> None"
  using getters(1,4) [OF assms, of a] by auto

lemma balance_nonneg:
  assumes "models (sd_trie s) M" "state_ok sha M (sd_objects s)"
  shows "0 \<le> snd (GetBalance T sha a s)"
  using GetBalance_view(1) [OF assms] state_ok_find [OF assms(2)]
  by (auto simp: sview_def obj_view_def object_ok_def split: option.splits)

text \<open>The effect of the three balance operations, by the function that gives the new amount.\<close>

lemma set_amount_balances:
  assumes m: "models (sd_trie s) M" "state_ok sha M (sd_objects s)"
    and op: "op = (case getStateObject T sha a s of
        (s', Some o1) \<Rightarrow> putObject a (so_setAmount (f (acc_Amount (so_account o1))) o1) (record_change (e o1) s')
      | (s', None) \<Rightarrow> s')"
  shows "snd (GetBalance T sha b op) =
    (if b = a \<and> snd (Exist T sha a s) \<and> 0 \<le> f (snd (GetBalance T sha a s)) then f (snd (GetBalance T sha a s))
     else snd (GetBalance T sha b s))"
proof -
  note v = set_amount_view [OF m op]
  then have m': "models (sd_trie op) M" "state_ok sha M (sd_objects op)" by auto
  show ?thesis using v by (auto simp: GetBalance_view [OF m] GetBalance_view [OF m'] split: option.splits)
qed

end

section \<open>What the balance operations leave alone, and what a revert leaves\<close>

text \<open>What the other getters report of an account: its nonce, transaction count, storage, committed storage, code,
  code hash, existence and suicide mark, with the refund counter and the logs.\<close>

definition beside_balance :: "(bytes \<Rightarrow> bytes) \<Rightarrow> trie statedb \<Rightarrow> address \<Rightarrow> hash \<Rightarrow>
    uint64 \<times> uint64 \<times> bytes \<times> bytes \<times> bytes \<times> hash \<times> bool \<times> bool \<times> uint64 \<times> log_entry list" where
  "beside_balance sha s a k =
     (let T = mpt_ops sha
      in (snd (GetNonce T sha a s), snd (GetTxCount T sha a s), snd (GetData T sha a k s),
          snd (GetCommittedData T sha a k s), opt_bytes (snd (GetCode T sha a s)), snd (GetCodeHash T sha a s),
          snd (Exist T sha a s), snd (HasSuicided T sha a s), GetRefund s, sd_curLogs s))"

definition counted :: "(bytes \<Rightarrow> bytes) \<Rightarrow> (bytes \<rightharpoonup> bytes) \<Rightarrow> 't statedb \<Rightarrow> address \<rightharpoonup> uint64" where
  "counted sha M s a = map_option (\<lambda>o1. acc_TxCount (so_account o1)) (find_object sha M (sd_objects s) a)"

definition endures :: "(bytes \<Rightarrow> bytes) \<Rightarrow> (bytes \<rightharpoonup> bytes) \<Rightarrow> address \<Rightarrow> 't statedb \<Rightarrow> 't statedb \<Rightarrow> bool" where
  "endures sha M b s s' \<longleftrightarrow> find_object sha M (sd_objects s') b \<noteq> None
     \<and> (\<exists>es. jr_entries (sd_journal s') = jr_entries (sd_journal s) @ es \<and> CreateObjectChange b \<notin> set es)"

lemma find_object_kept: "find_object sha M objs a = Some o1 \<Longrightarrow> \<not> so_deleted o1"
  using trie_object_fields by (fastforce simp: find_object_def split: option.splits if_splits)

context trie_contract
begin

lemma getStateObject_keeps:
  assumes m: "models (sd_trie s) M" and g: "getStateObject T sha a s = (s', r)"
  shows "find_object sha M (sd_objects s') b = find_object sha M (sd_objects s) b \<and> sd_curLogs s' = sd_curLogs s
    \<and> sd_journal s' = sd_journal s \<and> r = find_object sha M (sd_objects s) a \<and> models (sd_trie s') M"
proof (cases "sd_objects s a")
  case (Some o1)
  then show ?thesis using g m by (auto simp: getStateObject_def find_object_def)
next
  case None
  let ?k = "dataKey (MustHash sha a) dataTypeAccount []"
  obtain t' where t': "tr_Get T (sd_trie s) ?k = (t', M ?k, None)" "models t' M" using get_law [OF m] by blast
  have key: "dataKey (so_addrHash (newStateObject sha a)) dataTypeAccount [] = ?k" by (simp add: newStateObject_def)
  show ?thesis
  proof (cases "M ?k")
    case (Some v)
    then show ?thesis using g None t'
      by (cases "deserializeAccount v")
        (auto simp: getStateObject_def loadAccount_def key find_object_def trie_object_def setError_def putObject_def
          newStateObject_def Let_def)
  qed (use g None t' in \<open>auto simp: getStateObject_def loadAccount_def key find_object_def trie_object_def Let_def\<close>)
qed

lemma GetTxCount_found:
  assumes "models (sd_trie s) M"
  shows "snd (GetTxCount T sha a s)
    = (case find_object sha M (sd_objects s) a of None \<Rightarrow> 0 | Some o1 \<Rightarrow> acc_TxCount (so_account o1))"
  using getStateObject_keeps [OF assms, of sha a]
  by (auto simp: GetTxCount_def split: prod.splits option.splits)

lemma GetCommittedData_found:
  assumes m: "models (sd_trie s) M"
  shows "snd (GetCommittedData T sha a k s)
    = (case find_object sha M (sd_objects s) a of None \<Rightarrow> []
       | Some o1 \<Rightarrow> (case so_cachedStorage o1 k of Some v \<Rightarrow> v | None \<Rightarrow> opt_bytes (M (storageKey sha (so_addrHash o1) k))))"
proof -
  obtain s' r where g: "getStateObject T sha a s = (s', r)" by fastforce
  have r: "r = find_object sha M (sd_objects s) a" "models (sd_trie s') M" using getStateObject_keeps [OF m g] by auto
  show ?thesis
  proof (cases r)
    case None
    then show ?thesis using g r by (simp add: GetCommittedData_def getData_def)
  next
    case (Some o1)
    obtain t' where t': "tr_Get T (sd_trie s') (storageKey sha (so_addrHash o1) k)
        = (t', M (storageKey sha (so_addrHash o1) k), None)" using get_law [OF r(2)] by blast
    show ?thesis using g r(1) [symmetric] Some t'
      by (auto simp: GetCommittedData_def getData_def so_getState_def opt_bytes_def split: option.splits)
  qed
qed

lemma set_amount_keeps:
  assumes m: "models (sd_trie s) M" and ok: "state_ok sha M (sd_objects s)"
    and op: "op = (case getStateObject T sha a s of
        (s', Some o1) \<Rightarrow> putObject a (so_setAmount (f (acc_Amount (so_account o1))) o1) (record_change (e o1) s')
      | (s', None) \<Rightarrow> s')"
  shows "snd (GetNonce T sha b op) = snd (GetNonce T sha b s)
    \<and> snd (GetTxCount T sha b op) = snd (GetTxCount T sha b s)
    \<and> snd (GetData T sha b k op) = snd (GetData T sha b k s)
    \<and> snd (GetCommittedData T sha b k op) = snd (GetCommittedData T sha b k s)
    \<and> opt_bytes (snd (GetCode T sha b op)) = opt_bytes (snd (GetCode T sha b s))
    \<and> snd (GetCodeHash T sha b op) = snd (GetCodeHash T sha b s)
    \<and> snd (Exist T sha b op) = snd (Exist T sha b s)
    \<and> snd (HasSuicided T sha b op) = snd (HasSuicided T sha b s)
    \<and> sd_refund op = sd_refund s \<and> sd_curLogs op = sd_curLogs s"
proof -
  note v = set_amount_view [OF m ok op]
  then have m': "models (sd_trie op) M" "state_ok sha M (sd_objects op)" by auto
  have a: "snd (GetNonce T sha b op) = snd (GetNonce T sha b s)"
    "snd (GetCodeHash T sha b op) = snd (GetCodeHash T sha b s)"
    "snd (Exist T sha b op) = snd (Exist T sha b s)"
    "snd (HasSuicided T sha b op) = snd (HasSuicided T sha b s)"
    using v getters(2,3,4,5) [OF m ok, of b] getters(2,3,4,5) [OF m', of b] by (auto split: option.splits)
  have b: "snd (GetData T sha b k op) = snd (GetData T sha b k s)"
    using v GetData_view [OF m ok, of b k] GetData_view [OF m', of b k] by (auto split: option.splits)
  have c: "opt_bytes (snd (GetCode T sha b op)) = opt_bytes (snd (GetCode T sha b s))"
    using v GetCode_view [OF m ok, of b] GetCode_view [OF m', of b] by (auto split: option.splits)
  obtain s' where s': "getStateObject T sha a s = (s', find_object sha M (sd_objects s) a)"
    "reads sha M s s'" using getStateObject_found [OF m ok] by blast
  note gk = getStateObject_keeps [OF m s'(1)]
  have d: "sd_refund op = sd_refund s" "sd_curLogs op = sd_curLogs s"
    using op s' gk by (auto simp: reads_def putObject_def record_change_def split: option.splits)
  have "find_object sha M (sd_objects op) b = (if b = a then map_option (\<lambda>o1. so_setAmount (f (acc_Amount (so_account o1))) o1)
      (find_object sha M (sd_objects s) a) else find_object sha M (sd_objects s) b)"
  proof (cases "find_object sha M (sd_objects s) a")
    case None
    then show ?thesis using op s' gk by auto
  next
    case (Some o1)
    then have "\<not> so_deleted o1" using state_ok_find [OF ok Some] by simp
    then have "\<not> so_deleted (so_setAmount x o1)" for x by (simp add: so_setAmount_def)
    then show ?thesis using op s' gk Some by simp
  qed
  then have e: "snd (GetTxCount T sha b op) = snd (GetTxCount T sha b s)"
    "snd (GetCommittedData T sha b k op) = snd (GetCommittedData T sha b k s)"
    unfolding GetTxCount_found [OF m] GetTxCount_found [OF m'(1)] GetCommittedData_found [OF m] GetCommittedData_found [OF m'(1)]
    by (auto simp: so_setAmount_def split: option.splits)
  show ?thesis by (intro conjI a b c d e)
qed


lemma with_object_counts:
  assumes m: "models (sd_trie s) M" and w: "with_object T sha a f s = Inr s'"
    and f: "\<And>o1. acc_TxCount (so_account (f o1)) = acc_TxCount (so_account o1) \<and> so_deleted (f o1) = so_deleted o1"
  shows "counted sha M s' b = counted sha M s b \<and> sd_curLogs s' = sd_curLogs s \<and> sd_journal s' = sd_journal s
    \<and> models (sd_trie s') M"
proof -
  obtain s1 r where g: "getStateObject T sha a s = (s1, r)" by fastforce
  note k = getStateObject_keeps [OF m g]
  obtain o1 where o1: "r = Some o1" "s' = putObject a (f o1) s1" using w g by (auto simp: with_object_def split: option.splits)
  have "find_object sha M (sd_objects s) a = Some o1" using k o1 by simp
  then show ?thesis using k o1 f [of o1] find_object_kept by (auto simp: counted_def putObject_def)
qed

lemma entry_revert_counts:
  assumes m: "models (sd_trie s) M" and e: "entry_revert T sha e s = Inr s'"
  shows "(e \<noteq> CreateObjectChange b \<longrightarrow> counted sha M s' b = counted sha M s b) \<and> sd_curLogs s' = sd_curLogs s
    \<and> sd_journal s' = sd_journal s \<and> models (sd_trie s') M"
proof (cases e)
  case (RefundChange r)
  then show ?thesis using m e by (auto simp: counted_def)
next
  case (CreateObjectChange a)
  then show ?thesis using m e by (auto simp: counted_def find_object_def)
next
  case (SuicideChange a p q)
  obtain s1 r where g: "getStateObject T sha a s = (s1, r)" by fastforce
  note k = getStateObject_keeps [OF m g]
  show ?thesis
  proof (cases r)
    case None
    then show ?thesis using k e g SuicideChange by (auto simp: counted_def)
  next
    case (Some o1)
    then have "find_object sha M (sd_objects s) a = Some o1" using k by simp
    then show ?thesis using k e g SuicideChange Some find_object_kept by (auto simp: counted_def putObject_def)
  qed
qed (use e with_object_counts [OF m, of sha _ _ s' b] in \<open>auto simp: so_setState_def so_setCode_def\<close>)

lemma revert_loop_counts:
  "models (sd_trie s) M \<Longrightarrow> revert_loop T sha es s = Inr s' \<Longrightarrow>
     (CreateObjectChange b \<notin> set es \<longrightarrow> counted sha M s' b = counted sha M s b) \<and> sd_curLogs s' = sd_curLogs s
     \<and> jr_entries (sd_journal s') = jr_entries (sd_journal s) \<and> models (sd_trie s') M"
proof (induction es arbitrary: s)
  case (Cons e es)
  obtain s1 where s1: "entry_revert T sha e s = Inr s1" using Cons.prems(2) by (auto split: sum.splits)
  let ?s = "s1\<lparr>sd_journal := (sd_journal s1)\<lparr>jr_dirties := undirty e (jr_dirties (sd_journal s1))\<rparr>\<rparr>"
  note c = entry_revert_counts [OF Cons.prems(1) s1, of b]
  have "counted sha M ?s b = counted sha M s1 b" by (simp add: counted_def)
  then show ?case using Cons.IH [of ?s] Cons.prems(2) s1 c by auto
qed simp

lemma RevertToSnapshot_counts:
  assumes "models (sd_trie s) M" "RevertToSnapshot T sha i s = Inr s'"
  shows "(CreateObjectChange b \<notin> set (drop i (jr_entries (sd_journal s))) \<longrightarrow> counted sha M s' b = counted sha M s b)
    \<and> sd_curLogs s' = sd_curLogs s \<and> jr_entries (sd_journal s') = take i (jr_entries (sd_journal s))"
proof -
  obtain s1 where s1: "revert_loop T sha (rev (drop i (jr_entries (sd_journal s)))) s = Inr s1"
    "s' = s1\<lparr>sd_journal := (sd_journal s1)\<lparr>jr_entries := take i (jr_entries (sd_journal s1))\<rparr>\<rparr>"
    using assms(2) by (auto simp: RevertToSnapshot_def split: if_splits sum.splits)
  show ?thesis using revert_loop_counts [OF assms(1) s1(1), of b] by (simp add: s1(2) counted_def)
qed


lemma getStateObject_endures:
  assumes "models (sd_trie s) M" "find_object sha M (sd_objects s) b \<noteq> None" "getStateObject T sha a s = (s', r)"
  shows "endures sha M b s s'" "r = Some o1 \<Longrightarrow> \<not> so_deleted o1" "r = None \<Longrightarrow> a \<noteq> b"
  using getStateObject_keeps [OF assms(1,3)] assms(2) find_object_kept [of sha M "sd_objects s" a]
  by (auto simp: endures_def)

lemma endures_put: "endures sha M b s s' \<Longrightarrow> \<not> so_deleted o1 \<Longrightarrow> endures sha M b s (putObject a o1 s')"
  and endures_record: "endures sha M b s s' \<Longrightarrow> e \<noteq> CreateObjectChange b \<Longrightarrow> endures sha M b s (record_change e s')"
  and endures_other: "endures sha M b s s' \<Longrightarrow> endures sha M b s (setError x s')"
    "endures sha M b s s' \<Longrightarrow> endures sha M b s (s'\<lparr>sd_trie := t\<rparr>)" "endures sha M b s s' \<Longrightarrow> endures sha M b s (s'\<lparr>sd_refund := g\<rparr>)"
    "endures sha M b s s' \<Longrightarrow> endures sha M b s (s'\<lparr>sd_curLogs := l\<rparr>)"
  by (auto simp: endures_def setError_def)

lemma sdb_exec_endures:
  assumes m: "models (sd_trie s) M" and f: "find_object sha M (sd_objects s) b \<noteq> None"
  shows "endures sha M b s (sdb_exec T sha op s)"
proof -
  note defs = GetBalance_def GetNonce_def GetTxCount_def GetCodeHash_def Exist_def Empty_def HasSuicided_def
    SetBalance_def AddBalance_def SubBalance_def SetNonce_def SetNonce2_def CreateAccount_def Suicide_def
    AddRefund_def SubRefund_def AddLog_def so_addAmount_def so_subAmount_def
    GetCode_def SetCode_def GetData_def getData_def SetData_def
  have id: "endures sha M b s s" using f by (simp add: endures_def)
  have st: "\<not> so_deleted o2" if "so_getState T sha o1 t k c = (t', o2, r)" "\<not> so_deleted o1" for o1 t k c t' o2 r
    using that by (auto simp: so_getState_def split: if_splits option.splits prod.splits)
  have co: "\<not> so_deleted o2" if "loadCode T o1 t = (t', o2, r)" "\<not> so_deleted o1" for o1 t t' o2 r
    using that by (auto simp: loadCode_def split: if_splits option.splits prod.splits)
  have se: "\<not> so_deleted o1 \<Longrightarrow> \<not> so_deleted (so_setAmount x o1)" "\<not> so_deleted o1 \<Longrightarrow> \<not> so_deleted (so_setNonce n o1)"
    "\<not> so_deleted o1 \<Longrightarrow> \<not> so_deleted (so_setTxCount n o1)" "\<not> so_deleted o1 \<Longrightarrow> \<not> so_deleted (so_setState k v o1)"
    "\<not> so_deleted o1 \<Longrightarrow> \<not> so_deleted (so_setCode sha c o1)" "\<not> so_deleted (newStateObject sha a)" for o1 x n k v c a
    by (auto simp: so_setAmount_def so_setNonce_def so_setTxCount_def so_setState_def so_setCode_def newStateObject_def)
  note g = getStateObject_endures [OF m f]
  show ?thesis
    using id
    by (cases op) (auto simp: defs Let_def intro!: endures_put endures_record endures_other se
      dest: g st co split: prod.splits option.splits sum.splits)
qed

lemma path_endures:
  assumes p: "sdb_path T sha (length (jr_entries (sd_journal s))) s s'"
    and m: "models (sd_trie s) M" "state_ok sha M (sd_objects s)" "journal_ok (sd_journal s)"
    and f: "find_object sha M (sd_objects s) a \<noteq> None"
  shows "models (sd_trie s') M \<and> counted sha M s' a \<noteq> None
    \<and> CreateObjectChange a \<notin> set (drop (length (jr_entries (sd_journal s))) (jr_entries (sd_journal s')))"
  using p
proof induction
  case path_refl
  then show ?case using m f by (simp add: counted_def)
next
  case (path_op s' op)
  have "endures sha M a s' (sdb_exec T sha op s')" using path_op sdb_exec_endures by (simp add: counted_def)
  moreover have "models (sd_trie (sdb_exec T sha op s')) M"
    using path_undo_point [OF sdb_path.path_op [OF path_op.hyps] m] by simp
  ultimately show ?case using path_op by (auto simp: endures_def counted_def dest: in_set_dropD)
next
  case (path_revert s' i s'')
  let ?k = "length (jr_entries (sd_journal s))"
  note c = RevertToSnapshot_counts [OF conjunct1 [OF path_revert.IH] path_revert.hyps(3), of a]
  have "set (drop i (jr_entries (sd_journal s'))) \<subseteq> set (drop ?k (jr_entries (sd_journal s')))"
    by (rule set_drop_subset_set_drop [OF path_revert.hyps(2)])
  moreover have "set (drop ?k (take i (jr_entries (sd_journal s')))) \<subseteq> set (drop ?k (jr_entries (sd_journal s')))"
    by (simp add: drop_take set_take_subset)
  moreover have "models (sd_trie s'') M" using path_undo_point [OF sdb_path.path_revert [OF path_revert.hyps] m] by simp
  ultimately show ?case using path_revert.IH c by auto
qed

text \<open>A revert to a snapshot does not restore the transaction counts of the accounts of that time, nor the logs.\<close>

lemma revert_counts:
  assumes p: "sdb_path T sha (Snapshot s) s s'"
    and m: "models (sd_trie s) M" "state_ok sha M (sd_objects s)" "journal_ok (sd_journal s)"
    and r: "RevertToSnapshot T sha (Snapshot s) s' = Inr s''" and m'': "models (sd_trie s'') M"
  shows "sd_curLogs s'' = sd_curLogs s'"
    "snd (Exist T sha a s) \<Longrightarrow> snd (GetTxCount T sha a s'') = snd (GetTxCount T sha a s')"
proof -
  have k: "Snapshot s = length (jr_entries (sd_journal s))" by (simp add: Snapshot_def journal_snapshot_def)
  have m': "models (sd_trie s') M" using path_undo_point [OF p [unfolded k] m] by simp
  note c = RevertToSnapshot_counts [OF m' r, of a]
  show "sd_curLogs s'' = sd_curLogs s'" using c by simp
  assume "snd (Exist T sha a s)"
  then have "find_object sha M (sd_objects s) a \<noteq> None" using GetBalance_view(2) [OF m(1,2)] by (simp add: sview_def)
  then have "counted sha M s'' a = counted sha M s' a" using path_endures [OF p [unfolded k] m] c by (simp add: k)
  then show "snd (GetTxCount T sha a s'') = snd (GetTxCount T sha a s')"
    by (auto simp: GetTxCount_found [OF m'] GetTxCount_found [OF m''] counted_def split: option.splits)
qed

end

text \<open>A sample database, with two accounts, code, storage, a nested revert and a suicide.\<close>

definition sample_ops :: "sdb_op list" where
  "sample_ops =
     [OpCreateAccount [1], OpSetBalance [1] 700, OpSetNonce2 [1] 5 3, OpSetCode [1] (Some [96, 1]),
      OpSetData [1] [7] [42], OpCreateAccount [2], OpAddBalance [2] 9, OpSubBalance [1] 800, OpSuicide [2]]"

definition sample_db :: "trie statedb" where
  "sample_db = fold (sdb_exec (mpt_ops sample_hash) sample_hash) sample_ops (NewEmptyStatedb Map.empty)"

lemma path_fold: "sdb_path T sha k s (fold (sdb_exec T sha) ops s)"
proof (induction ops rule: rev_induct)
  case Nil
  show ?case by (simp add: path_refl)
next
  case (snoc op ops)
  then show ?case using path_op by simp
qed

lemma sample_empty:
  "mpt_models sample_hash Map.empty TrieDbPrefix (NewEmptyTrie TrieDbPrefix Map.empty) Map.empty"
  "state_ok sample_hash Map.empty Map.empty"
  using holds_empty [of TrieDbPrefix Map.empty]
  by (simp_all add: mpt_models_def trie_inv_def NewEmptyTrie_def db_ok_empty state_ok_def trie_object_def)

fun small :: "noder \<Rightarrow> bool" where
  "small (LeafNode n k v) \<longleftrightarrow> length k < 1000 \<and> length v < 1000"
| "small (ExtensionNode n k next) \<longleftrightarrow> length k < 1000 \<and> small next"
| "small (BranchNode n cs) \<longleftrightarrow> list_all small cs"
| "small NilNode \<longleftrightarrow> True"
| "small (HashNode h) \<longleftrightarrow> True"

lemma small_sized: "small n \<Longrightarrow> sized n"
  by (induction n rule: small.induct) (auto simp: lim_def list_all_iff)

lemma sample_within: "within {[1], [2]} {[7]} sample_db"
  unfolding sample_db_def
  by (rule within_fold) (simp_all add: sample_ops_def within_def NewEmptyStatedb_def NewStatedbWithTrie_def)

lemma sample_path: "sdb_path (mpt_ops sample_hash) sample_hash 0 (NewStatedbWithTrie (NewEmptyTrie TrieDbPrefix Map.empty)) sample_db"
  unfolding sample_db_def NewEmptyStatedb_def by (rule path_fold)

lemma sample_dom: "dom (sd_objects sample_db) = {[1], [2]}"
proof
  show "dom (sd_objects sample_db) \<subseteq> {[1], [2]}" using sample_within by (auto simp: within_def)
  have "sd_objects sample_db [1] \<noteq> None" "sd_objects sample_db [2] \<noteq> None" by code_simp+
  then show "{[1], [2]} \<subseteq> dom (sd_objects sample_db)" by auto
qed

abbreviation balance_of :: "(bytes \<Rightarrow> bytes) \<Rightarrow> trie statedb \<Rightarrow> address \<Rightarrow> int" where
  "balance_of sha s a \<equiv> snd (GetBalance (mpt_ops sha) sha a s)"

abbreviation exists_in :: "(bytes \<Rightarrow> bytes) \<Rightarrow> trie statedb \<Rightarrow> address \<Rightarrow> bool" where
  "exists_in sha s a \<equiv> snd (Exist (mpt_ops sha) sha a s)"

section \<open>Properties\<close>

text \<open>
  C11: a committed state is the state that is read back. Take a database opened on a trie with
  well-formed entries, let any operations and reverts to snapshots happen, and commit. Then \<open>Commit\<close>
  succeeds, and a database opened on its root over the written batch reports for every account and
  storage key what the getters reported before, except that suicided accounts are gone and the
  refund counter is zero. The iteration orders over the Go maps are arbitrary. Addresses and storage
  keys are those of any sets \<open>A\<close> and \<open>K\<close> on which the hash function does not collide.
\<close>

theorem Commit_persists:
  assumes sha: "\<And>x. length (sha x) = HashLength" "\<And>x. sha x \<noteq> EmptyHash"
    and t: "mpt_models sha db TrieDbPrefix t M" "state_ok sha M Map.empty"
    and path: "sdb_path (mpt_ops sha) sha 0 (NewStatedbWithTrie t) s" and err: "sd_dbErr s = None"
    and as: "distinct as" "set as = dom (sd_objects s)" "dom (sd_objects s) \<subseteq> A" "inj_on (MustHash sha) A"
    and K: "inj_on (MustHash sha) K" "k \<in> K" and a: "a \<in> A"
    and sz: "\<And>b o1. sd_objects s b = Some o1 \<Longrightarrow> account_sized (so_account o1) \<and> dom (so_cachedStorage o1) \<subseteq> K
      \<and> dom (so_dirtyStorage o1) \<subseteq> set (ord b) \<and> set (ord b) \<subseteq> K"
  shows "\<exists>s1 t1 root batch. flushAll (mpt_ops sha) sha ord as s = (s1, None)
    \<and> Statedb_Commit (mpt_ops sha) sha ord as s = (s1\<lparr>sd_trie := t1\<rparr>, Inr (root, batch))
    \<and> (sized (t_root (sd_trie s1)) \<and> collision_free sha db TrieDbPrefix batch \<longrightarrow>
        (\<exists>s2. NewStatedb root (apply_puts db batch) = Inr s2
          \<and> observe (mpt_ops sha) sha a k s2 = committed (observe (mpt_ops sha) sha a k s)))"
proof -
  let ?T = "mpt_ops sha"
  have u: "mpt_models sha db TrieDbPrefix (sd_trie s) M \<and> undo_point sha M (NewStatedbWithTrie t) s"
    using mpt.path_undo_point [where s = "NewStatedbWithTrie t" and db = db and pfx = TrieDbPrefix and M = M and sha = sha and s' = s] path t
    by (simp add: NewStatedbWithTrie_def newJournal_def journal_ok_def dirt_def fun_eq_iff)
  then have m: "mpt_models sha db TrieDbPrefix (sd_trie s) M" and ok: "state_ok sha M (sd_objects s)"
    by (auto simp: undo_point_def)
  have rd: "ready sha K M b (ord b) o1" if "sd_objects s b = Some o1" for b o1
    using mpt.path_ready [OF path t that] sz [OF that] by blast
  have inj: "inj_on (MustHash sha) (set as)" by (rule inj_on_subset [OF as(4)]) (use as in simp)
  have prem: "\<exists>o1. sd_objects s b = Some o1 \<and> ready sha K M b (ord b) o1" if "b \<in> set as" for b
    using rd that as(2) by (auto simp: dom_def)
  obtain s1 M' where s1: "flushAll ?T sha ord as s = (s1, None)" "mpt_models sha db TrieDbPrefix (sd_trie s1) M'"
    "\<And>b. b \<in> set as \<Longrightarrow> persists sha K b M (the (sd_objects s b)) M'"
    "\<And>h. length h = HashLength \<Longrightarrow> h \<notin> MustHash sha ` set as \<Longrightarrow> agree h M M'"
    using mpt.flushAll_persists [OF m as(1) inj K(1) prem] by blast
  obtain t1 root batch where c: "trie_Commit sha (sd_trie s1) = (t1, root, batch)" by (metis surj_pair)
  have commit: "Statedb_Commit ?T sha ord as s = (s1\<lparr>sd_trie := t1\<rparr>, Inr (root, batch))"
    using s1(1) c err by (simp add: Statedb_Commit_def mpt_ops_def)
  have ok': "state_ok sha M' Map.empty"
  proof -
    have "object_ok sha M' b ob" if ob: "trie_object sha M' b = Some ob" for b ob
    proof (cases "MustHash sha b \<in> MustHash sha ` set as")
      case True
      then obtain b1 where b1: "b1 \<in> set as" "MustHash sha b = MustHash sha b1" by auto
      then obtain o1 where o1: "sd_objects s b1 = Some o1" using as(2) by auto
      have "object_ok sha M b1 o1" using rd [OF o1] by (simp add: ready_def)
      moreover have "persists sha K b1 M o1 M'" using s1(3) [OF b1(1)] o1 by simp
      ultimately show ?thesis using ob b1(2) by (rule persists_ok)
    next
      case False
      then show ?thesis using agree_trie_ok [OF s1(4) t(2) ob] by simp
    qed
    then show ?thesis by (simp add: state_ok_def)
  qed
  have same: "case sd_objects s a of Some o1 \<Rightarrow> \<not> so_deleted o1 \<and> persists sha K a M o1 M'
    | None \<Rightarrow> agree (MustHash sha a) M M'"
  proof (cases "sd_objects s a")
    case None
    have "MustHash sha a \<notin> MustHash sha ` set as"
    proof
      assume "MustHash sha a \<in> MustHash sha ` set as"
      then obtain b where "b \<in> set as" "MustHash sha a = MustHash sha b" by auto
      then show False using inj_onD [OF as(4), of a b] as(2,3) a None by auto
    qed
    then show ?thesis using None s1(4) by simp
  next
    case (Some o1)
    have "\<not> so_deleted o1" using mpt.path_fresh [OF path, where M = M and db = db and pfx = TrieDbPrefix] t Some
      by (simp add: NewStatedbWithTrie_def fresh_def fresh_obj_def)
    moreover have "persists sha K a M o1 M'" using s1(3) [of a] as(2) Some by (auto simp: dom_def)
    ultimately show ?thesis using Some by simp
  qed
  have "\<exists>s2. NewStatedb root (apply_puts db batch) = Inr s2 \<and> observe ?T sha a k s2 = committed (observe ?T sha a k s)"
    if size: "sized (t_root (sd_trie s1))" and cf: "collision_free sha db TrieDbPrefix batch"
  proof -
    have t1: "trie_inv sha (sd_trie s1)" "holds (sd_trie s1) M'" "t_db (sd_trie s1) = db" "t_dbprefix (sd_trie s1) = TrieDbPrefix"
      using s1(2) by (auto simp: mpt_models_def)
    obtain t2 where t2: "NewTrie root TrieDbPrefix (apply_puts db batch) = Inr t2" "holds t2 M'" "trie_inv sha t2"
      "t_db t2 = apply_puts db batch"
      using commit_reload [where sha = sha, OF sha t1(1,2) size c] cf t1(3,4) by auto
    have "mpt_models sha (apply_puts db batch) TrieDbPrefix t2 M'"
      using t2 NewTrie_prefix [OF t2(1)] by (simp add: mpt_models_def)
    then have "observe ?T sha a k (NewStatedbWithTrie t2) = report (sview sha M' Map.empty a) k 0"
      using mpt.observe_view [of sha "apply_puts db batch" TrieDbPrefix "NewStatedbWithTrie t2" M'] ok'
      by (simp add: NewStatedbWithTrie_def)
    also have "\<dots> = committed (observe ?T sha a k s)"
      using report_committed [where objs = "sd_objects s" and a = a and r = "sd_refund s", OF K(2) same] mpt.observe_view [OF m ok] by simp
    finally have "observe ?T sha a k (NewStatedbWithTrie t2) = committed (observe ?T sha a k s)" .
    then show ?thesis using t2(1) by (simp add: NewStatedb_def)
  qed
  with s1(1) commit show ?thesis by blast
qed

theorem Commit_persists_witness:
  "\<exists>s1 t1 root batch s2.
     Statedb_Commit (mpt_ops sample_hash) sample_hash (\<lambda>_. [[7]]) [[1], [2]] sample_db = (s1\<lparr>sd_trie := t1\<rparr>, Inr (root, batch))
     \<and> NewStatedb root (apply_puts Map.empty batch) = Inr s2
     \<and> observe (mpt_ops sample_hash) sample_hash [1] [7] s2
         = (700, 5, [42], [96, 1], HashBytes sample_hash [96, 1], True, False, False, 0)"
proof -
  let ?T = "mpt_ops sample_hash" and ?ord = "\<lambda>_ :: address. [[7 :: byte]]"
  have sz: "account_sized (so_account o1) \<and> dom (so_cachedStorage o1) \<subseteq> {[7]} \<and> dom (so_dirtyStorage o1) \<subseteq> set (?ord b)
      \<and> set (?ord b) \<subseteq> {[7]}" if o1: "sd_objects sample_db b = Some o1" for b o1
  proof -
    have "b \<in> dom (sd_objects sample_db)" using o1 by (simp add: dom_def)
    then have b: "b = [1] \<or> b = [2]" using sample_dom by simp
    have "account_sized (so_account (the (sd_objects sample_db [1])))"
      "account_sized (so_account (the (sd_objects sample_db [2])))" by code_simp+
    then have "account_sized (so_account o1)" using b o1 by auto
    moreover have "obj_within {[7]} o1" using sample_within o1 by (simp add: within_def)
    ultimately show ?thesis by (simp add: obj_within_def)
  qed
  have small: "small (t_root (sd_trie (fst (flushAll ?T sample_hash ?ord [[1], [2]] sample_db))))" by code_simp
  have cf: "distinct (map sample_hash (remdups (map snd (snd (snd (trie_Commit sample_hash
      (sd_trie (fst (flushAll ?T sample_hash ?ord [[1], [2]] sample_db)))))))))" by code_simp
  have ob: "observe ?T sample_hash [1] [7] sample_db
      = (700, 5, [42], [96, 1], HashBytes sample_hash [96, 1], True, False, False, 0)" by code_simp
  have err: "sd_dbErr sample_db = None" by code_simp
  have inj: "inj_on (MustHash sample_hash) {[1], [2]}" "inj_on (MustHash sample_hash) {[7]}"
  proof -
    have "MustHash sample_hash [1] \<noteq> MustHash sample_hash [2]" by code_simp
    then show "inj_on (MustHash sample_hash) {[1], [2]}" by auto
  qed simp
  obtain s1 t1 root batch where s1: "flushAll ?T sample_hash ?ord [[1], [2]] sample_db = (s1, None)"
    and c: "Statedb_Commit ?T sample_hash ?ord [[1], [2]] sample_db = (s1\<lparr>sd_trie := t1\<rparr>, Inr (root, batch))"
    and r: "sized (t_root (sd_trie s1)) \<and> collision_free sample_hash Map.empty TrieDbPrefix batch \<longrightarrow>
      (\<exists>s2. NewStatedb root (apply_puts Map.empty batch) = Inr s2
        \<and> observe ?T sample_hash [1] [7] s2 = committed (observe ?T sample_hash [1] [7] sample_db))"
    using Commit_persists [where sha = sample_hash and ord = ?ord, OF length_sample_hash sample_hash_EmptyHash
        sample_empty sample_path err, of "[[1], [2]]" "{[1], [2]}" "{[7]}" "[7]" "[1]"] inj sz sample_dom by auto
  have "snd (snd (trie_Commit sample_hash (sd_trie s1))) = batch"
    using c s1 err by (auto simp: Statedb_Commit_def mpt_ops_def simp del: flushAll.simps split: prod.splits)
  then have "sized (t_root (sd_trie s1))" "collision_free sample_hash Map.empty TrieDbPrefix batch"
    using small_sized [OF small] cf s1 by (auto simp: collision_free_empty simp del: flushAll.simps)
  with r c ob show ?thesis by (auto simp: committed_def)
qed

text \<open>
  C12: snapshots. From any database reached by operations and reverts, take a snapshot, let any
  operations and reverts to later snapshots happen, and revert to it: the revert does not panic, the
  journal is the one at the snapshot, and the balance, nonce, storage, code, code hash, existence,
  suicide mark and emptiness of every account and the refund counter are those at the snapshot.
\<close>

theorem RevertToSnapshot_restores:
  assumes "mpt_models sha db pfx t M" and "state_ok sha M Map.empty"
    and "sdb_path (mpt_ops sha) sha 0 (NewStatedbWithTrie t) s"
    and "sdb_path (mpt_ops sha) sha (Snapshot s) s s'"
  shows "\<exists>s''. RevertToSnapshot (mpt_ops sha) sha (Snapshot s) s' = Inr s'' \<and> sd_journal s'' = sd_journal s
    \<and> (\<forall>a k. observe (mpt_ops sha) sha a k s'' = observe (mpt_ops sha) sha a k s)"
  by (rule mpt.revert_observe [OF assms(4) path_state [OF assms(1-3)]])

theorem RevertToSnapshot_restores_witness:
  "\<exists>s''. RevertToSnapshot (mpt_ops sample_hash) sample_hash (Snapshot sample_db)
       (fold (sdb_exec (mpt_ops sample_hash) sample_hash)
         [OpSuicide [1], OpSetData [1] [7] [], OpCreateAccount [3], OpAddRefund 5, OpSetCode [1] None] sample_db) = Inr s''
     \<and> observe (mpt_ops sample_hash) sample_hash [1] [7] s''
         = (700, 5, [42], [96, 1], HashBytes sample_hash [96, 1], True, False, False, 0)"
proof -
  have "observe (mpt_ops sample_hash) sample_hash [1] [7] sample_db
      = (700, 5, [42], [96, 1], HashBytes sample_hash [96, 1], True, False, False, 0)" by code_simp
  then show ?thesis
    using RevertToSnapshot_restores [OF sample_empty sample_path path_fold,
        of "[OpSuicide [1], OpSetData [1] [7] [], OpCreateAccount [3], OpAddRefund 5, OpSetCode [1] None]"] by auto
qed

text \<open>
  C13: the balance operations. On a reached database no balance is negative. \<open>SetBalance\<close>,
  \<open>AddBalance\<close> and \<open>SubBalance\<close> set the new amount exactly when the account exists and the amount is
  not negative; otherwise they leave every balance as it was. In every case they change nothing else:
  nonce, transaction count, storage, committed storage, code, code hash, existence and suicide mark of
  every account, the refund counter and the logs are reported as before.
\<close>

theorem balance_operations:
  assumes "mpt_models sha db pfx t M" and "state_ok sha M Map.empty"
    and "sdb_path (mpt_ops sha) sha 0 (NewStatedbWithTrie t) s"
  shows "0 \<le> balance_of sha s b
    \<and> balance_of sha (SetBalance (mpt_ops sha) sha a n s) b =
        (if b = a \<and> exists_in sha s a \<and> 0 \<le> n then n else balance_of sha s b)
    \<and> balance_of sha (AddBalance (mpt_ops sha) sha a n s) b =
        (if b = a \<and> exists_in sha s a \<and> 0 \<le> balance_of sha s a + n then balance_of sha s a + n else balance_of sha s b)
    \<and> balance_of sha (SubBalance (mpt_ops sha) sha a n s) b =
        (if b = a \<and> exists_in sha s a \<and> n \<le> balance_of sha s a then balance_of sha s a - n else balance_of sha s b)
    \<and> beside_balance sha (SetBalance (mpt_ops sha) sha a n s) b k = beside_balance sha s b k
    \<and> beside_balance sha (AddBalance (mpt_ops sha) sha a n s) b k = beside_balance sha s b k
    \<and> beside_balance sha (SubBalance (mpt_ops sha) sha a n s) b k = beside_balance sha s b k"
proof -
  note ok = path_state(1,2) [OF assms(1-3)]
  note set = SetBalance_def [of "mpt_ops sha" sha a n s]
    and add = AddBalance_def [unfolded so_addAmount_def, of "mpt_ops sha" sha a n s]
    and sub = SubBalance_def [unfolded so_subAmount_def, of "mpt_ops sha" sha a n s]
  have "beside_balance sha (SetBalance (mpt_ops sha) sha a n s) b k = beside_balance sha s b k"
    "beside_balance sha (AddBalance (mpt_ops sha) sha a n s) b k = beside_balance sha s b k"
    "beside_balance sha (SubBalance (mpt_ops sha) sha a n s) b k = beside_balance sha s b k"
    using mpt.set_amount_keeps [where f = "\<lambda>_. n" and b = b and k = k, OF ok set]
      mpt.set_amount_keeps [where f = "\<lambda>x. x + n" and b = b and k = k, OF ok add]
      mpt.set_amount_keeps [where f = "\<lambda>x. x - n" and b = b and k = k, OF ok sub]
    by (simp_all add: beside_balance_def GetRefund_def)
  then show ?thesis
    using mpt.balance_nonneg [OF ok, of b]
      mpt.set_amount_balances [where f = "\<lambda>_. n" and b = b, OF ok set]
      mpt.set_amount_balances [where f = "\<lambda>x. x + n" and b = b, OF ok add]
      mpt.set_amount_balances [where f = "\<lambda>x. x - n" and b = b, OF ok sub]
    by simp
qed

theorem balance_operations_witness:
  "balance_of sample_hash (SubBalance (mpt_ops sample_hash) sample_hash [1] 300 sample_db) [1] = 400
   \<and> balance_of sample_hash (SubBalance (mpt_ops sample_hash) sample_hash [1] 701 sample_db) [1] = 700
   \<and> beside_balance sample_hash (SubBalance (mpt_ops sample_hash) sample_hash [1] 300 sample_db) [1] [7]
       = (5, 3, [42], [], [96, 1], HashBytes sample_hash [96, 1], True, False, 0, [])"
proof -
  have "balance_of sample_hash sample_db [1] = 700" "exists_in sample_hash sample_db [1]" 
    "beside_balance sample_hash sample_db [1] [7] = (5, 3, [42], [], [96, 1], HashBytes sample_hash [96, 1], True, False, 0, [])" by code_simp+
  then show ?thesis
    using balance_operations [OF sample_empty sample_path, of "[1]" "[1]" 300 "[7]"]
      balance_operations [OF sample_empty sample_path, of "[1]" "[1]" 701 "[7]"] by simp
qed

definition gap_log :: log_entry where
  "gap_log = \<lparr>lg_Address = [1], lg_Topics = [], lg_Data = [7], lg_BlockNumber = 1, lg_TxIndex = 0\<rparr>"

text \<open>
  C14: what a revert does not restore. From any reached database, take a snapshot, let any operations
  and reverts to later snapshots happen, and revert to it. For every account of that time the nonce is
  the one of the snapshot, but the transaction count, which \<open>SetNonce2\<close> sets and does not journal, is
  the one before the revert; and the logs are those before the revert, also the ones added since.
\<close>

theorem journal_gaps:
  assumes "mpt_models sha db pfx t M" and "state_ok sha M Map.empty"
    and "sdb_path (mpt_ops sha) sha 0 (NewStatedbWithTrie t) s"
    and "sdb_path (mpt_ops sha) sha (Snapshot s) s s'" and "exists_in sha s a"
  shows "\<exists>s''. RevertToSnapshot (mpt_ops sha) sha (Snapshot s) s' = Inr s''
    \<and> snd (GetNonce (mpt_ops sha) sha a s'') = snd (GetNonce (mpt_ops sha) sha a s)
    \<and> snd (GetTxCount (mpt_ops sha) sha a s'') = snd (GetTxCount (mpt_ops sha) sha a s')
    \<and> sd_curLogs s'' = sd_curLogs s'"
proof -
  note m = path_state [OF assms(1-3)]
  obtain s'' where s'': "RevertToSnapshot (mpt_ops sha) sha (Snapshot s) s' = Inr s''"
    "shown_by sha M s'' = shown_by sha M s" "mpt_models sha db pfx (sd_trie s'') M" "state_ok sha M (sd_objects s'')"
    using mpt.revert_restores [OF assms(4) m] by blast
  have "snd (GetNonce (mpt_ops sha) sha a s'') = snd (GetNonce (mpt_ops sha) sha a s)"
    using mpt.getters(2) [OF s''(3,4), of a] mpt.getters(2) [OF m(1,2), of a] s''(2) by auto
  then show ?thesis using s''(1) mpt.revert_counts [OF assms(4) m s''(1,3)] assms(5) by simp
qed

theorem journal_gaps_witness:
  "\<exists>s''. RevertToSnapshot (mpt_ops sample_hash) sample_hash (Snapshot sample_db)
       (fold (sdb_exec (mpt_ops sample_hash) sample_hash) [OpSetNonce2 [1] 8 9, OpAddLog gap_log] sample_db) = Inr s''
     \<and> snd (GetNonce (mpt_ops sample_hash) sample_hash [1] s'') = 5
     \<and> snd (GetTxCount (mpt_ops sample_hash) sample_hash [1] sample_db) = 3
     \<and> snd (GetTxCount (mpt_ops sample_hash) sample_hash [1] s'') = 9
     \<and> sd_curLogs sample_db = [] \<and> sd_curLogs s'' = [gap_log]"
proof -
  let ?s = "fold (sdb_exec (mpt_ops sample_hash) sample_hash) [OpSetNonce2 [1] 8 9, OpAddLog gap_log] sample_db"
  have "exists_in sample_hash sample_db [1]" by code_simp
  from journal_gaps [OF sample_empty sample_path path_fold this, of "[OpSetNonce2 [1] 8 9, OpAddLog gap_log]"]
  obtain s'' where "RevertToSnapshot (mpt_ops sample_hash) sample_hash (Snapshot sample_db) ?s = Inr s''"
    "snd (GetNonce (mpt_ops sample_hash) sample_hash [1] s'') = snd (GetNonce (mpt_ops sample_hash) sample_hash [1] sample_db)"
    "snd (GetTxCount (mpt_ops sample_hash) sample_hash [1] s'') = snd (GetTxCount (mpt_ops sample_hash) sample_hash [1] ?s)"
    "sd_curLogs s'' = sd_curLogs ?s" by blast
  moreover have "snd (GetNonce (mpt_ops sample_hash) sample_hash [1] sample_db) = 5"
    "snd (GetTxCount (mpt_ops sample_hash) sample_hash [1] sample_db) = 3" "sd_curLogs sample_db = []"
    "snd (GetTxCount (mpt_ops sample_hash) sample_hash [1] ?s) = 9" "sd_curLogs ?s = [gap_log]" by code_simp+
  ultimately show ?thesis by auto
qed

end
