(* ===== verification/Address.thy ===== *)
theory Address
  imports State_Commit
begin

text \<open>
  Addresses, \<open>src/common/Address.go\<close>: conversions, the shard of an address and contract addresses,
  with the two constructors of \<open>src/crypto/crypto.go\<close>. The number of shards is an argument.
\<close>

section \<open>Definitions\<close>

definition AddressLen :: nat where "AddressLen = 20"

definition EmptyAddress :: address where "EmptyAddress = replicate AddressLen 0"

datatype address_error = ErrAddressLenInvalid nat nat

definition NewAddress :: "bytes \<Rightarrow> address_error + address" where
  "NewAddress b = (if length b \<noteq> AddressLen then Inl (ErrAddressLenInvalid (length b) AddressLen) else Inr b)"

definition BytesToAddress :: "bytes \<Rightarrow> address" where
  "BytesToAddress bs =
     (let bs' = (if length bs > AddressLen then drop (length bs - AddressLen) bs else bs)
      in replicate (AddressLen - length bs') 0 @ bs')"

definition BigToAddress :: "int \<Rightarrow> address" where
  "BigToAddress b = BytesToAddress (big_bytes (nat b))"

definition Address_Big :: "address \<Rightarrow> int" where
  "Address_Big a = int (be_val a)"

definition BigToHash :: "int \<Rightarrow> hash" where
  "BigToHash b = BytesToHash (big_bytes (nat b))"

definition Hash_Big :: "hash \<Rightarrow> int" where
  "Hash_Big h = int (be_val h)"

definition Address_IsEmpty :: "address \<Rightarrow> bool" where
  "Address_IsEmpty a \<longleftrightarrow> a = EmptyAddress"

definition MaxSystemContractAddress :: address where
  "MaxSystemContractAddress = BytesToAddress [4, 255]"

text \<open>\<open>bytes.Compare\<close> of two addresses orders them as big-endian numbers.\<close>

fun bytes_le :: "bytes \<Rightarrow> bytes \<Rightarrow> bool" where
  "bytes_le [] ys \<longleftrightarrow> True"
| "bytes_le (x # xs) [] \<longleftrightarrow> False"
| "bytes_le (x # xs) (y # ys) \<longleftrightarrow> x < y \<or> x = y \<and> bytes_le xs ys"

definition IsReserved :: "address \<Rightarrow> bool" where
  "IsReserved a \<longleftrightarrow> \<not> Address_IsEmpty a \<and> bytes_le a MaxSystemContractAddress"

definition AddressTypeExternal :: byte where "AddressTypeExternal = 1"
definition AddressTypeContract :: byte where "AddressTypeContract = 2"
definition AddressTypeSubChain :: byte where "AddressTypeSubChain = 3"
definition AddressTypeReserved :: byte where "AddressTypeReserved = 16"

unbundle bit_operations_syntax

definition Address_Type :: "address \<Rightarrow> byte" where
  "Address_Type a = (if IsReserved a then AddressTypeReserved else a ! (AddressLen - 1) AND 0x0F)"

definition IsEVMContract :: "address \<Rightarrow> bool" where
  "IsEVMContract a \<longleftrightarrow> Address_Type a = AddressTypeContract"

text \<open>The sum of at most twenty bytes cannot wrap; it is a natural number here.\<close>

definition Shard :: "nat \<Rightarrow> address \<Rightarrow> nat" where
  "Shard ShardCount a =
     (let tail = be_val (drop 18 a);
          s = sum_list (map unat (take 18 a)) + tail div 16
      in s mod ShardCount + 1)"

definition CreateContractAddressWithHash :: "nat \<Rightarrow> address \<Rightarrow> hash \<Rightarrow> address" where
  "CreateContractAddressWithHash ShardCount a h =
     (let targetShardNum = Shard ShardCount a;
          s = sum_list (map unat (drop 14 h));
          shardNum = s mod ShardCount + 1;
          md = (if shardNum \<le> targetShardNum then targetShardNum - shardNum
                else ShardCount + targetShardNum - shardNum);
          encoded = (push_bit 4 (word_of_nat md) OR ucast AddressTypeContract) :: 16 word
      in drop 14 h @ [ucast (drop_bit 8 encoded), ucast encoded])"

definition CreateAddress :: "nat \<Rightarrow> (bytes \<Rightarrow> bytes) \<Rightarrow> address \<Rightarrow> uint64 \<Rightarrow> address" where
  "CreateAddress ShardCount sha addr nonce =
     CreateContractAddressWithHash ShardCount addr
       (HashBytes sha (rlp_Encode (RlpList [RlpBytes addr, RlpUint (unat nonce)])))"

definition CreateAddress2 :: "nat \<Rightarrow> (bytes \<Rightarrow> bytes) \<Rightarrow> address \<Rightarrow> hash \<Rightarrow> bytes \<Rightarrow> address" where
  "CreateAddress2 ShardCount sha b salt inithash =
     CreateContractAddressWithHash ShardCount b (HashBytes sha (0xFF # b @ salt @ inithash))"

section \<open>Conversions\<close>

lemma length_BytesToAddress [simp]: "length (BytesToAddress b) = AddressLen"
  by (simp add: BytesToAddress_def Let_def)

lemma length_BytesToHash [simp]: "length (BytesToHash b) = HashLength"
  by (simp add: BytesToHash_def Let_def)

lemma be_val_append: "be_val (xs @ ys) = be_val xs * 256 ^ length ys + be_val ys"
  by (induction xs) (simp_all add: algebra_simps power_add)

lemma be_val_zeros [simp]: "be_val (replicate n 0) = 0"
  by (induction n) simp_all

lemma be_val_drop: "be_val (drop (length b - n) b) = be_val b mod 256 ^ n"
proof (cases "n \<le> length b")
  case True
  have "be_val b = be_val (take (length b - n) b) * 256 ^ n + be_val (drop (length b - n) b)"
    using be_val_append [of "take (length b - n) b" "drop (length b - n) b"] True by simp
  moreover have "be_val (drop (length b - n) b) < 256 ^ n"
    using be_val_bound [of "drop (length b - n) b"] True by simp
  ultimately show ?thesis by simp
next
  case False
  then have "be_val b < 256 ^ n"
    by (intro less_le_trans [OF be_val_bound]) (simp add: power_increasing)
  with False show ?thesis by simp
qed

lemma Address_Big_BytesToAddress: "Address_Big (BytesToAddress b) = int (be_val b mod 256 ^ AddressLen)"
proof -
  have "be_val (replicate k 0 @ b') = be_val b'" for k b' by (simp add: be_val_append)
  then show ?thesis using be_val_drop [of b AddressLen]
    by (auto simp: Address_Big_def BytesToAddress_def Let_def)
qed

lemma Hash_Big_BytesToHash: "Hash_Big (BytesToHash b) = int (be_val b mod 256 ^ HashLength)"
proof -
  have "be_val (replicate k 0 @ b') = be_val b'" for k b' by (simp add: be_val_append)
  then show ?thesis using be_val_drop [of b HashLength]
    by (auto simp: Hash_Big_def BytesToHash_def Let_def)
qed

section \<open>Contract addresses\<close>

lemma unat_encoded:
  assumes "md < 4096"
  shows "unat (push_bit 4 (word_of_nat md) OR ucast AddressTypeContract :: 16 word) = 16 * md + 2"
proof -
  have "(push_bit 4 (word_of_nat md) :: 16 word) AND ucast AddressTypeContract = 0"
    by (rule bit_word_eqI) (auto simp: bit_simps AddressTypeContract_def bit_numeral_rec split: nat.splits)
  then have "(push_bit 4 (word_of_nat md) OR ucast AddressTypeContract :: 16 word)
      = push_bit 4 (word_of_nat md) + ucast AddressTypeContract"
    by (simp add: disjunctive_add_eq_or)
  also have "\<dots> = word_of_nat (16 * md + 2)"
    by (simp add: AddressTypeContract_def push_bit_eq_mult mult.commute)
  finally have "unat (push_bit 4 (word_of_nat md) OR ucast AddressTypeContract :: 16 word)
      = unat (word_of_nat (16 * md + 2) :: 16 word)" by (rule arg_cong)
  also have "\<dots> = 16 * md + 2" using assms by (simp only: unat_of_nat) simp
  finally show ?thesis .
qed

lemma be_val_encoded: "be_val [ucast (drop_bit 8 e), ucast (e :: 16 word)] = unat e"
proof -
  have "unat e < 65536" using unsigned_less [of e] by simp
  then have "unat (ucast (drop_bit 8 e) :: byte) = unat e div 256"
    by (simp add: unsigned_ucast_eq take_bit_eq_mod drop_bit_eq_div unat_div_distrib)
  moreover have "unat (ucast e :: byte) = unat e mod 256" by (simp add: unsigned_ucast_eq take_bit_eq_mod)
  ultimately show ?thesis by simp
qed

lemma CreateContractAddressWithHash_shard:
  assumes "0 < n" and "n \<le> 4096" and "length h = HashLength"
  shows "let c = CreateContractAddressWithHash n a h
    in length c = AddressLen \<and> Shard n c = Shard n a \<and> unat (c ! 19) mod 16 = unat AddressTypeContract"
proof -
  define c where "c = CreateContractAddressWithHash n a h"
  let ?s = "sum_list (map unat (drop 14 h))" and ?t = "Shard n a"
  let ?md = "if ?s mod n + 1 \<le> ?t then ?t - (?s mod n + 1) else n + ?t - (?s mod n + 1)"
  define e :: "16 word" where "e = push_bit 4 (word_of_nat ?md) OR ucast AddressTypeContract"
  have t: "1 \<le> ?t" "?t \<le> n" using assms(1) by (auto simp: Shard_def Let_def Suc_le_eq)
  have md: "?md < n" using t mod_less_divisor [OF assms(1), of ?s] by auto
  have c: "c = drop 14 h @ [ucast (drop_bit 8 e), ucast e]"
    by (simp add: c_def CreateContractAddressWithHash_def Let_def e_def)
  have e: "unat e = 16 * ?md + 2" unfolding e_def by (rule unat_encoded) (use md assms(2) in simp)
  have len: "length (drop 14 h) = 18" using assms(3) by (simp add: HashLength_def)
  have sum: "(?s + ?md) mod n = ?t - 1"
  proof -
    have "(?s + ?md) mod n = (?s mod n + ?md) mod n" by (simp add: mod_add_left_eq)
    also have "\<dots> = ?t - 1"
    proof (cases "?s mod n + 1 \<le> ?t")
      case True
      then show ?thesis using t by simp
    next
      case False
      then have "?s mod n + (n + ?t - (?s mod n + 1)) = n + (?t - 1)"
        using t mod_less_divisor [OF assms(1), of ?s] by simp
      then have "(?s mod n + ?md) mod n = (n + (?t - 1)) mod n" using False by simp
      also have "\<dots> = ?t - 1" using t by (simp only: mod_add_self1) simp
      finally show ?thesis .
    qed
    finally show ?thesis .
  qed
  have "take 18 c = drop 14 h" "drop 18 c = [ucast (drop_bit 8 e), ucast e]" using len by (simp_all add: c)
  then have "Shard n c = (?s + unat e div 16) mod n + 1"
    by (simp only: Shard_def [of n c] Let_def be_val_encoded)
  moreover have "unat e div 16 = ?md" unfolding e by simp
  ultimately have "Shard n c = (?s + ?md) mod n + 1" by (simp only:)
  then have "Shard n c = ?t" using sum t(1) by (simp only:)
  moreover have "length c = AddressLen" using len by (simp add: c AddressLen_def)
  moreover have "unat (c ! 19) mod 16 = 2"
  proof -
    have "c ! 19 = ucast e" using len by (simp add: c nth_append)
    then have "unat (c ! 19) mod 16 = (unat e mod 256) mod 16"
      by (simp add: unsigned_ucast_eq take_bit_eq_mod)
    also have "\<dots> = unat e mod 16" by (rule mod_mod_cancel) simp
    also have "\<dots> = 2" unfolding e by (simp only: mod_mult_self4) simp
    finally show ?thesis .
  qed
  ultimately show ?thesis by (simp add: AddressTypeContract_def c_def [symmetric])
qed

text \<open>An address of the reserved range has eighteen leading zero bytes.\<close>

lemma bytes_le_zeros: "bytes_le xs (replicate n 0 @ ys) \<Longrightarrow> n \<le> length xs \<Longrightarrow> take n xs = replicate n 0"
proof (induction n arbitrary: xs)
  case (Suc n)
  then show ?case by (cases xs) (auto simp: word_not_simps)
qed simp

lemma IsReserved_zeros: "IsReserved a \<Longrightarrow> length a = AddressLen \<Longrightarrow> take 18 a = replicate 18 0"
  using bytes_le_zeros [of a 18 "[4, 255]"]
  by (simp add: IsReserved_def MaxSystemContractAddress_def BytesToAddress_def AddressLen_def)

lemma Address_Type_nibble:
  "\<not> IsReserved a \<Longrightarrow> unat (a ! 19) mod 16 = unat AddressTypeContract \<Longrightarrow> Address_Type a = AddressTypeContract"
proof -
  assume a: "\<not> IsReserved a" "unat (a ! 19) mod 16 = unat AddressTypeContract"
  have "a ! 19 AND 0x0F = take_bit 4 (a ! 19)" by (simp add: take_bit_eq_mask mask_eq_exp_minus_1)
  then have "unat (a ! 19 AND 0x0F) = unat (a ! 19) mod 16" by (simp add: take_bit_eq_mod unat_mod_distrib)
  then have "a ! 19 AND 0x0F = AddressTypeContract" using a(2) by (simp add: word_unat_eq_iff)
  then show ?thesis using a(1) by (simp add: Address_Type_def AddressLen_def)
qed

section \<open>Properties\<close>

text \<open>
  C15: the address of a new contract lies in the shard of its creator. For every number of shards up to
  4096, the address \<open>CreateAddress\<close> makes from a creator and a nonce, and the one \<open>CreateAddress2\<close> makes
  from a creator, a salt and a code hash, has twenty bytes and the shard of the creator, and its type is
  the contract type unless it falls in the reserved range, which takes eighteen leading zero bytes.
\<close>

theorem contract_address_shard:
  assumes "0 < n" and "n \<le> 4096"
    and "c = CreateAddress n sha a nonce \<or> c = CreateAddress2 n sha a salt inithash"
  shows "length c = AddressLen \<and> Shard n c = Shard n a
    \<and> (if IsReserved c then Address_Type c = AddressTypeReserved \<and> take 18 c = replicate 18 0
       else Address_Type c = AddressTypeContract \<and> IsEVMContract c)"
proof -
  obtain h where h: "length h = HashLength" "c = CreateContractAddressWithHash n a h"
    using assms(3) that [of "HashBytes sha _"]
    by (elim disjE) (simp_all add: CreateAddress_def CreateAddress2_def HashBytes_def)
  from CreateContractAddressWithHash_shard [OF assms(1,2) h(1), of a]
  have c: "length c = AddressLen" "Shard n c = Shard n a" "unat (c ! 19) mod 16 = unat AddressTypeContract"
    by (simp_all add: h(2) Let_def)
  then show ?thesis using IsReserved_zeros [of c] Address_Type_nibble [of c] by (auto simp: Address_Type_def IsEVMContract_def)
qed

theorem contract_address_shard_witness:
  "let a = [9, 8, 7, 6, 5, 4, 3, 2, 1, 0, 1, 2, 3, 4, 5, 6, 7, 8, 9, 1]
   in Shard 7 (CreateAddress 7 sample_hash a 3) = Shard 7 a \<and> IsEVMContract (CreateAddress 7 sample_hash a 3)"
proof -
  let ?a = "[9, 8, 7, 6, 5, 4, 3, 2, 1, 0, 1, 2, 3, 4, 5, 6, 7, 8, 9, 1] :: address"
  have "\<not> IsReserved (CreateAddress 7 sample_hash ?a 3)" by code_simp
  then show ?thesis using contract_address_shard [of 7 "CreateAddress 7 sample_hash ?a 3" sample_hash ?a 3] by (simp add: Let_def)
qed

end
