(* ===== verification/Evm_Base.thy ===== *)
theory Evm_Base
  imports Address
begin

text \<open>
  The virtual machine, \<open>src/core/vm\<close>, first part: the values it computes with, the operand stack
  (\<open>stack.go\<close>, \<open>stack_table.go\<close>), memory (\<open>memory.go\<close>), data slices (\<open>common.go\<close>), the analysis of
  jump destinations (\<open>analysis.go\<close>) and contracts (\<open>contract.go\<close>). A \<open>big.Int\<close> is an integer of any
  size; the reduction to 256 bits is written where the code reduces. A Go run-time panic is an error
  value. The pool that recycles integer objects only saves allocations and is left out.
\<close>

section \<open>Big integers\<close>

definition U256 :: "int \<Rightarrow> int" where "U256 x = x mod 2 ^ 256"

definition S256 :: "int \<Rightarrow> int" where "S256 x = (if x < 2 ^ 255 then x else x - 2 ^ 256)"

text \<open>\<open>Uint64\<close> and \<open>Int64\<close> of a non-negative \<open>big.Int\<close> read its low 64 bits.\<close>

definition Uint64 :: "int \<Rightarrow> uint64" where "Uint64 v = word_of_int v"

definition Int64 :: "int \<Rightarrow> int" where "Int64 v = sint (word_of_int v :: uint64)"

fun BitLen :: "nat \<Rightarrow> nat" where
  "BitLen n = (if n = 0 then 0 else Suc (BitLen (n div 2)))"

declare BitLen.simps [simp del]

definition big_BitLen :: "int \<Rightarrow> nat" where "big_BitLen v = BitLen (nat \<bar>v\<bar>)"

definition big_SetBytes :: "bytes \<Rightarrow> int" where "big_SetBytes b = int (be_val b)"

text \<open>\<open>math.Exp\<close>: square and multiply over the bits of the exponent, lowest first. The Go loop runs
  over whole machine words, so it squares some more after the last bit, without effect.\<close>

fun Exp_loop :: "int \<Rightarrow> int \<Rightarrow> nat \<Rightarrow> int" where
  "Exp_loop result base e =
     (if e = 0 then result
      else Exp_loop (if odd e then U256 (result * base) else result) (U256 (base * base)) (e div 2))"

declare Exp_loop.simps [simp del]

definition math_Exp :: "int \<Rightarrow> int \<Rightarrow> int" where
  "math_Exp base exponent = Exp_loop 1 base (nat exponent)"

text \<open>\<open>math.Byte\<close> with the padded length 32: position 0 is the most significant byte.\<close>

definition math_Byte :: "int \<Rightarrow> nat \<Rightarrow> int" where
  "math_Byte v n = (if n \<ge> 32 then 0 else (v div 256 ^ (31 - n)) mod 256)"

definition SafeAdd :: "uint64 \<Rightarrow> uint64 \<Rightarrow> uint64 \<times> bool" where
  "SafeAdd x y = (x + y, y > - 1 - x)"

definition SafeMul :: "uint64 \<Rightarrow> uint64 \<Rightarrow> uint64 \<times> bool" where
  "SafeMul x y = (if x = 0 \<or> y = 0 then (0, False) else (x * y, y > (- 1) div x))"

section \<open>Errors\<close>

text \<open>
  The last two are not Go errors: a run-time panic, and the end of the rounds given to the model of
  the interpreter loop.
\<close>

datatype vm_error =
    ErrOutOfGas | ErrCodeStoreOutOfGas | ErrDepth | ErrInsufficientBalance | ErrContractAddressCollision
  | ErrNoCompatibleInterpreter | ErrWriteProtection | ErrReturnDataOutOfBounds | ErrExecutionReverted
  | ErrMaxCodeSizeExceeded | ErrGasUintOverflow | ErrInvalidJump | ErrInvalidOpcode byte
  | ErrStackUnderflow nat nat | ErrStackLimit nat | ErrPrecompile nat
  | VmPanic | VmFuel

definition fatal :: "vm_error \<Rightarrow> bool" where
  "fatal e \<longleftrightarrow> e = VmPanic \<or> e = VmFuel"

section \<open>Operand stack\<close>

text \<open>The top of the stack is the head of the list; the Go slice has it at the end.\<close>

type_synonym stack = "int list"

definition EVMStackLimit :: nat where "EVMStackLimit = 8192"

definition stack_Back :: "stack \<Rightarrow> nat \<Rightarrow> int option" where
  "stack_Back st n = (if n < length st then Some (st ! n) else None)"

definition stack_swap :: "nat \<Rightarrow> stack \<Rightarrow> stack option" where
  "stack_swap n st = (if 1 \<le> n \<and> n \<le> length st then Some (st[0 := st ! (n - 1), n - 1 := st ! 0]) else None)"

definition stack_dup :: "nat \<Rightarrow> stack \<Rightarrow> stack option" where
  "stack_dup n st = (if 1 \<le> n \<and> n \<le> length st then Some (st ! (n - 1) # st) else None)"

definition stack_require :: "nat \<Rightarrow> stack \<Rightarrow> vm_error option" where
  "stack_require n st = (if length st < n then Some (ErrStackUnderflow (length st) n) else None)"

definition makeStackFunc :: "nat \<Rightarrow> nat \<Rightarrow> stack \<Rightarrow> vm_error option" where
  "makeStackFunc pops pushes st =
     (case stack_require pops st of
        Some e \<Rightarrow> Some e
      | None \<Rightarrow> if int (length st) + int pushes - int pops > int EVMStackLimit then Some (ErrStackLimit (length st)) else None)"

definition makeDupStackFunc :: "nat \<Rightarrow> stack \<Rightarrow> vm_error option" where
  "makeDupStackFunc n = makeStackFunc n (n + 1)"

definition makeSwapStackFunc :: "nat \<Rightarrow> stack \<Rightarrow> vm_error option" where
  "makeSwapStackFunc n = makeStackFunc n n"

section \<open>Memory\<close>

record memory =
  m_store :: bytes
  m_lastGasCost :: uint64

definition NewMemory :: memory where "NewMemory = \<lparr>m_store = [], m_lastGasCost = 0\<rparr>"

text \<open>\<open>copy(dst[from:to], src)\<close> on a list.\<close>

definition overlay :: "nat \<Rightarrow> bytes \<Rightarrow> bytes \<Rightarrow> bytes" where
  "overlay i src dst = take i dst @ src @ drop (i + length src) dst"

text \<open>
  The results are \<open>None\<close> on a panic. The sum of offset and size wraps as in the code, and the slice
  expression that follows the test panics when its bounds are out of order.
\<close>

definition mem_Set :: "uint64 \<Rightarrow> uint64 \<Rightarrow> bytes \<Rightarrow> memory \<Rightarrow> memory option" where
  "mem_Set offset sz v m =
     (if sz > 0
      then if unat (offset + sz) > length (m_store m) then None
           else if offset + sz < offset then None
           else Some (m\<lparr>m_store := overlay (unat offset) (take (unat sz) v) (m_store m)\<rparr>)
      else Some m)"

definition mem_Set32 :: "uint64 \<Rightarrow> int \<Rightarrow> memory \<Rightarrow> memory option" where
  "mem_Set32 offset v m =
     (if unat (offset + 32) > length (m_store m) then None
      else if offset + 32 < offset then None
      else Some (m\<lparr>m_store := overlay (unat offset) (be_bytes 32 (nat v mod 2 ^ 256)) (m_store m)\<rparr>))"

definition mem_Resize :: "uint64 \<Rightarrow> memory \<Rightarrow> memory" where
  "mem_Resize sz m =
     (if length (m_store m) < unat sz
      then m\<lparr>m_store := m_store m @ replicate (unat sz - length (m_store m)) 0\<rparr> else m)"

text \<open>A slice beyond the length but within the capacity is not a panic in Go; here it is one.\<close>

definition mem_Get :: "int \<Rightarrow> int \<Rightarrow> memory \<Rightarrow> bytes option" where
  "mem_Get offset sz m =
     (if sz = 0 then Some []
      else if int (length (m_store m)) > offset
      then if sz < 0 \<or> offset < 0 \<or> offset + sz > int (length (m_store m)) then None
           else Some (take (nat sz) (drop (nat offset) (m_store m)))
      else Some [])"

section \<open>Data slices\<close>

definition calcMemSize :: "int \<Rightarrow> int \<Rightarrow> int" where
  "calcMemSize off l = (if l = 0 then 0 else off + l)"

definition RightPadBytes :: "bytes \<Rightarrow> nat \<Rightarrow> bytes" where
  "RightPadBytes b l = (if l \<le> length b then b else b @ replicate (l - length b) 0)"

definition getDataBig :: "bytes \<Rightarrow> int \<Rightarrow> int \<Rightarrow> bytes" where
  "getDataBig data start sz =
     (let dlen = int (length data); s = min start dlen; e = min (s + sz) dlen
      in RightPadBytes (take (nat (e - s)) (drop (nat s) data)) (unat (Uint64 sz)))"

definition bigUint64 :: "int \<Rightarrow> uint64 \<times> bool" where
  "bigUint64 v = (Uint64 v, big_BitLen v > 64)"

definition toWordSize :: "uint64 \<Rightarrow> uint64" where
  "toWordSize sz = (if sz > - 1 - 31 then (- 1) div 32 + 1 else (sz + 31) div 32)"

section \<open>Jump destinations\<close>

type_synonym bitvec = bytes

definition bitvec_or :: "nat \<Rightarrow> byte \<Rightarrow> bitvec \<Rightarrow> bitvec option" where
  "bitvec_or i m bits = (if i < length bits then Some (bits[i := bits ! i OR m]) else None)"

definition bitvec_set :: "nat \<Rightarrow> bitvec \<Rightarrow> bitvec option" where
  "bitvec_set pos bits = bitvec_or (pos div 8) (drop_bit (pos mod 8) 0x80) bits"

definition bitvec_set8 :: "nat \<Rightarrow> bitvec \<Rightarrow> bitvec option" where
  "bitvec_set8 pos bits =
     (case bitvec_or (pos div 8) (drop_bit (pos mod 8) 0xFF) bits of
        None \<Rightarrow> None
      | Some bits' \<Rightarrow> bitvec_or (pos div 8 + 1) (NOT (drop_bit (pos mod 8) 0xFF)) bits')"

definition codeSegment :: "nat \<Rightarrow> bitvec \<Rightarrow> bool option" where
  "codeSegment pos bits =
     (if pos div 8 < length bits then Some (bits ! (pos div 8) AND drop_bit (pos mod 8) 0x80 = 0) else None)"

definition PUSH1 :: byte where "PUSH1 = 0x60"
definition PUSH32 :: byte where "PUSH32 = 0x7F"

text \<open>The two inner loops over the operand bytes of a push, eight at a time and then one at a time.\<close>

fun mark_push :: "nat \<Rightarrow> nat \<Rightarrow> bitvec \<Rightarrow> bitvec option" where
  "mark_push numbits pc bits =
     (if numbits \<ge> 8
      then (case bitvec_set8 pc bits of None \<Rightarrow> None | Some b \<Rightarrow> mark_push (numbits - 8) (pc + 8) b)
      else if numbits > 0
      then (case bitvec_set pc bits of None \<Rightarrow> None | Some b \<Rightarrow> mark_push (numbits - 1) (pc + 1) b)
      else Some bits)"

declare mark_push.simps [simp del]

definition is_push :: "byte \<Rightarrow> bool" where
  "is_push opc \<longleftrightarrow> PUSH1 \<le> opc \<and> opc \<le> PUSH32"

function codeBitmap_loop :: "bytes \<Rightarrow> nat \<Rightarrow> bitvec \<Rightarrow> bitvec option" where
  "codeBitmap_loop code pc bits =
     (if pc < length code
      then let opc = code ! pc
           in if is_push opc
              then let numbits = unat (opc - PUSH1) + 1
                   in case mark_push numbits (pc + 1) bits of
                        None \<Rightarrow> None
                      | Some b \<Rightarrow> codeBitmap_loop code (pc + 1 + numbits) b
              else codeBitmap_loop code (pc + 1) bits
      else Some bits)"
  by pat_completeness auto
termination
  by (relation "measure (\<lambda>(code, pc, bits). length code - pc)") auto

declare codeBitmap_loop.simps [simp del]

definition codeBitmap :: "bytes \<Rightarrow> bitvec option" where
  "codeBitmap code = codeBitmap_loop code 0 (replicate (length code div 8 + 1 + 4) 0)"

section \<open>Contracts\<close>

text \<open>
  The jump destination analyses shared by the contracts of one execution are in the machine state.
  \<open>caller\<close> and \<open>self\<close> are used for their addresses only.
\<close>

record contract =
  ct_CallerAddress :: address
  ct_self :: address
  ct_analysis :: "bitvec option"
  ct_Code :: bytes
  ct_CodeHash :: hash
  ct_CodeAddr :: "address option"
  ct_Input :: bytes
  ct_Gas :: uint64
  ct_value :: int

definition NewContract :: "address \<Rightarrow> address \<Rightarrow> int \<Rightarrow> uint64 \<Rightarrow> contract" where
  "NewContract caller object value gas =
     \<lparr>ct_CallerAddress = caller, ct_self = object, ct_analysis = None, ct_Code = [], ct_CodeHash = EmptyHash,
      ct_CodeAddr = None, ct_Input = [], ct_Gas = gas, ct_value = value\<rparr>"

definition SetCallCode :: "address \<Rightarrow> hash \<Rightarrow> bytes \<Rightarrow> contract \<Rightarrow> contract" where
  "SetCallCode addr h code c = c\<lparr>ct_Code := code, ct_CodeHash := h, ct_CodeAddr := Some addr\<rparr>"

definition AsDelegate :: "contract \<Rightarrow> contract \<Rightarrow> contract" where
  "AsDelegate parent c = c\<lparr>ct_CallerAddress := ct_CallerAddress parent, ct_value := ct_value parent\<rparr>"

definition GetOp :: "contract \<Rightarrow> uint64 \<Rightarrow> byte" where
  "GetOp c n = (if unat n < length (ct_Code c) then ct_Code c ! unat n else 0)"

definition UseGas :: "uint64 \<Rightarrow> contract \<Rightarrow> contract \<times> bool" where
  "UseGas gas c = (if ct_Gas c < gas then (c, False) else (c\<lparr>ct_Gas := ct_Gas c - gas\<rparr>, True))"

definition JUMPDEST :: byte where "JUMPDEST = 0x5B"

text \<open>Result: the shared and the local analysis, and the answer; \<open>None\<close> is a panic.\<close>

definition validJumpdest ::
  "(hash \<rightharpoonup> bitvec) \<Rightarrow> contract \<Rightarrow> int \<Rightarrow> ((hash \<rightharpoonup> bitvec) \<times> contract \<times> bool) option" where
  "validJumpdest jumpdests c dest =
     (let udest = Uint64 dest
      in if big_BitLen dest \<ge> 63 \<or> unat udest \<ge> length (ct_Code c) then Some (jumpdests, c, False)
         else if ct_Code c ! unat udest \<noteq> JUMPDEST then Some (jumpdests, c, False)
         else if ct_CodeHash c \<noteq> EmptyHash
         then (case (case jumpdests (ct_CodeHash c) of Some an \<Rightarrow> Some an | None \<Rightarrow> codeBitmap (ct_Code c)) of
                 None \<Rightarrow> None
               | Some an \<Rightarrow>
                   map_option (\<lambda>b. (jumpdests(ct_CodeHash c \<mapsto> an), c, b)) (codeSegment (unat udest) an))
         else (case (case ct_analysis c of Some an \<Rightarrow> Some an | None \<Rightarrow> codeBitmap (ct_Code c)) of
                 None \<Rightarrow> None
               | Some an \<Rightarrow>
                   map_option (\<lambda>b. (jumpdests, c\<lparr>ct_analysis := Some an\<rparr>, b)) (codeSegment (unat udest) an)))"

end
