(* ===== verification/Evm_Instr.thy ===== *)
theory Evm_Instr
  imports Evm_Base
begin

text \<open>
  The virtual machine, second part: the state it works on and the instructions of
  \<open>src/core/vm/instructions.go\<close>. The Go interface \<open>StateDB\<close> (\<open>interface.go\<close>) is a record of functions
  over a state of any type, and so are the operations that start a nested call, so that the
  instructions do not depend on the interpreter loop.
\<close>

section \<open>State and environment\<close>

record 's db_ops =
  db_CreateAccount :: "address \<Rightarrow> 's \<Rightarrow> 's"
  db_SubBalance :: "address \<Rightarrow> int \<Rightarrow> 's \<Rightarrow> 's"
  db_AddBalance :: "address \<Rightarrow> int \<Rightarrow> 's \<Rightarrow> 's"
  db_GetBalance :: "address \<Rightarrow> 's \<Rightarrow> 's \<times> int"
  db_GetNonce :: "address \<Rightarrow> 's \<Rightarrow> 's \<times> uint64"
  db_GetTxCount :: "address \<Rightarrow> 's \<Rightarrow> 's \<times> uint64"
  db_SetNonce2 :: "address \<Rightarrow> uint64 \<Rightarrow> uint64 \<Rightarrow> 's \<Rightarrow> 's"
  db_GetCodeHash :: "address \<Rightarrow> 's \<Rightarrow> 's \<times> hash"
  db_GetCode :: "address \<Rightarrow> 's \<Rightarrow> 's \<times> bytes"
  db_SetCode :: "address \<Rightarrow> bytes \<Rightarrow> 's \<Rightarrow> 's"
  db_GetCodeSize :: "address \<Rightarrow> 's \<Rightarrow> 's \<times> nat"
  db_AddRefund :: "uint64 \<Rightarrow> 's \<Rightarrow> 's"
  db_SubRefund :: "uint64 \<Rightarrow> 's \<Rightarrow> 's option"
  db_GetCommittedState :: "address \<Rightarrow> hash \<Rightarrow> 's \<Rightarrow> 's \<times> hash"
  db_GetState :: "address \<Rightarrow> hash \<Rightarrow> 's \<Rightarrow> 's \<times> hash"
  db_SetState :: "address \<Rightarrow> hash \<Rightarrow> hash \<Rightarrow> 's \<Rightarrow> 's"
  db_Suicide :: "address \<Rightarrow> 's \<Rightarrow> 's"
  db_HasSuicided :: "address \<Rightarrow> 's \<Rightarrow> 's \<times> bool"
  db_Exist :: "address \<Rightarrow> 's \<Rightarrow> 's \<times> bool"
  db_Empty :: "address \<Rightarrow> 's \<Rightarrow> 's \<times> bool"
  db_Snapshot :: "'s \<Rightarrow> nat"
  db_RevertToSnapshot :: "nat \<Rightarrow> 's \<Rightarrow> 's option"
  db_AddLog :: "log_entry \<Rightarrow> 's \<Rightarrow> 's"

record gas_table =
  gt_ExtcodeSize :: uint64
  gt_ExtcodeCopy :: uint64
  gt_ExtcodeHash :: uint64
  gt_Balance :: uint64
  gt_SLoad :: uint64
  gt_Calls :: uint64
  gt_Suicide :: uint64
  gt_ExpByte :: uint64
  gt_CreateBySuicide :: uint64

text \<open>
  What does not change during an execution: the context, the rules of the chain at the block, the
  configuration, and code outside the machine (the hash function and the precompiled contracts).
\<close>

record 's env =
  en_db :: "'s db_ops"
  en_CanTransfer :: "address \<Rightarrow> int \<Rightarrow> 's \<Rightarrow> 's \<times> bool"
  en_Transfer :: "address \<Rightarrow> address \<Rightarrow> int \<Rightarrow> 's \<Rightarrow> 's"
  en_GetHash :: "uint64 \<Rightarrow> hash"
  en_Origin :: address
  en_GasPrice :: "int option"
  en_Coinbase :: address
  en_GasLimit :: uint64
  en_BlockNumber :: int
  en_Time :: int
  en_Difficulty :: int
  en_IsHomestead :: bool
  en_IsEIP150 :: bool
  en_IsEIP158 :: bool
  en_IsByzantium :: bool
  en_IsConstantinople :: bool
  en_gasTable :: gas_table
  en_NoRecursion :: bool
  en_ShardCount :: nat
  en_keccak :: "bytes \<Rightarrow> bytes"
  en_precompiles :: "address \<rightharpoonup> (bytes \<Rightarrow> uint64) \<times> (bytes \<Rightarrow> bytes \<times> vm_error option)"

text \<open>The mutable fields of \<open>EVM\<close> and \<open>EVMInterpreter\<close>.\<close>

record 's evm =
  ev_StateDB :: 's
  ev_depth :: nat
  ev_callGasTemp :: uint64
  ev_readOnly :: bool
  ev_returnData :: bytes
  ev_jumpdests :: "hash \<rightharpoonup> bitvec"

text \<open>The variables of one run of the interpreter.\<close>

record 's vst =
  vs_pc :: uint64
  vs_evm :: "'s evm"
  vs_contract :: contract
  vs_mem :: memory
  vs_stack :: stack

type_synonym 's res = "'s vst \<times> bytes \<times> vm_error option"

record 's calls =
  ca_Call :: "'s evm \<Rightarrow> address \<Rightarrow> address \<Rightarrow> bytes \<Rightarrow> uint64 \<Rightarrow> int \<Rightarrow> 's evm \<times> bytes \<times> uint64 \<times> vm_error option"
  ca_CallCode :: "'s evm \<Rightarrow> address \<Rightarrow> address \<Rightarrow> bytes \<Rightarrow> uint64 \<Rightarrow> int \<Rightarrow> 's evm \<times> bytes \<times> uint64 \<times> vm_error option"
  ca_DelegateCall :: "'s evm \<Rightarrow> contract \<Rightarrow> address \<Rightarrow> bytes \<Rightarrow> uint64 \<Rightarrow> 's evm \<times> bytes \<times> uint64 \<times> vm_error option"
  ca_StaticCall :: "'s evm \<Rightarrow> address \<Rightarrow> address \<Rightarrow> bytes \<Rightarrow> uint64 \<Rightarrow> 's evm \<times> bytes \<times> uint64 \<times> vm_error option"
  ca_Create :: "'s evm \<Rightarrow> address \<Rightarrow> bytes \<Rightarrow> uint64 \<Rightarrow> int \<Rightarrow> 's evm \<times> bytes \<times> address \<times> uint64 \<times> vm_error option"
  ca_Create2 :: "'s evm \<Rightarrow> address \<Rightarrow> bytes \<Rightarrow> uint64 \<Rightarrow> int \<Rightarrow> int \<Rightarrow> 's evm \<times> bytes \<times> address \<times> uint64 \<times> vm_error option"

section \<open>Shapes of instructions\<close>

definition ok :: "'s vst \<Rightarrow> 's res" where "ok st = (st, [], None)"

definition fail :: "'s vst \<Rightarrow> vm_error \<Rightarrow> 's res" where "fail st e = (st, [], Some e)"

definition push :: "int \<Rightarrow> 's vst \<Rightarrow> 's res" where
  "push v st = ok (st\<lparr>vs_stack := v # vs_stack st\<rparr>)"

definition unop :: "(int \<Rightarrow> int) \<Rightarrow> 's vst \<Rightarrow> 's res" where
  "unop f st = (case vs_stack st of x # s \<Rightarrow> ok (st\<lparr>vs_stack := f x # s\<rparr>) | _ \<Rightarrow> fail st VmPanic)"

definition binop :: "(int \<Rightarrow> int \<Rightarrow> int) \<Rightarrow> 's vst \<Rightarrow> 's res" where
  "binop f st = (case vs_stack st of x # y # s \<Rightarrow> ok (st\<lparr>vs_stack := f x y # s\<rparr>) | _ \<Rightarrow> fail st VmPanic)"

definition triop :: "(int \<Rightarrow> int \<Rightarrow> int \<Rightarrow> int) \<Rightarrow> 's vst \<Rightarrow> 's res" where
  "triop f st = (case vs_stack st of x # y # z # s \<Rightarrow> ok (st\<lparr>vs_stack := f x y z # s\<rparr>) | _ \<Rightarrow> fail st VmPanic)"

definition db :: "'s vst \<Rightarrow> 's" where "db st = ev_StateDB (vs_evm st)"

definition set_db :: "'s \<Rightarrow> 's vst \<Rightarrow> 's vst" where
  "set_db d st = st\<lparr>vs_evm := (vs_evm st)\<lparr>ev_StateDB := d\<rparr>\<rparr>"

definition set_mem :: "memory option \<Rightarrow> 's vst \<Rightarrow> 's res" where
  "set_mem r st = (case r of None \<Rightarrow> fail st VmPanic | Some m \<Rightarrow> ok (st\<lparr>vs_mem := m\<rparr>))"

text \<open>The top of the stack replaced by what the database answers for it.\<close>

definition dbop :: "(int \<Rightarrow> 's \<Rightarrow> 's \<times> int) \<Rightarrow> 's vst \<Rightarrow> 's res" where
  "dbop f st =
     (case vs_stack st of
        x # s \<Rightarrow> (case f x (db st) of (d, v) \<Rightarrow> ok (set_db d (st\<lparr>vs_stack := v # s\<rparr>)))
      | _ \<Rightarrow> fail st VmPanic)"

abbreviation self :: "'s vst \<Rightarrow> address" where "self st \<equiv> ct_self (vs_contract st)"

section \<open>Arithmetic\<close>

text \<open>\<open>Div\<close> and \<open>Mod\<close> of \<open>big.Int\<close> are Euclidean.\<close>

definition big_Div :: "int \<Rightarrow> int \<Rightarrow> int" where
  "big_Div x y = (if 0 < y then x div y else - (x div (- y)))"

definition big_Mod :: "int \<Rightarrow> int \<Rightarrow> int" where
  "big_Mod x y = x mod \<bar>y\<bar>"

definition b2i :: "bool \<Rightarrow> int" where "b2i b = (if b then 1 else 0)"

definition tt255 :: int where "tt255 = 2 ^ 255"

definition opAdd :: "'s vst \<Rightarrow> 's res" where "opAdd = binop (\<lambda>x y. U256 (x + y))"

definition opSub :: "'s vst \<Rightarrow> 's res" where "opSub = binop (\<lambda>x y. U256 (x - y))"

definition opMul :: "'s vst \<Rightarrow> 's res" where "opMul = binop (\<lambda>x y. U256 (x * y))"

definition opDiv :: "'s vst \<Rightarrow> 's res" where
  "opDiv = binop (\<lambda>x y. if y \<noteq> 0 then U256 (big_Div x y) else 0)"

definition opSdiv :: "'s vst \<Rightarrow> 's res" where
  "opSdiv = binop (\<lambda>x0 y0.
     let x = S256 x0; y = S256 y0
     in if y = 0 \<or> x = 0 then 0
        else if sgn x \<noteq> sgn y then U256 (- big_Div \<bar>x\<bar> \<bar>y\<bar>)
        else U256 (big_Div \<bar>x\<bar> \<bar>y\<bar>))"

definition opMod :: "'s vst \<Rightarrow> 's res" where
  "opMod = binop (\<lambda>x y. if y = 0 then 0 else U256 (big_Mod x y))"

definition opSmod :: "'s vst \<Rightarrow> 's res" where
  "opSmod = binop (\<lambda>x0 y0.
     let x = S256 x0; y = S256 y0
     in if y = 0 then 0
        else if x < 0 then U256 (- big_Mod \<bar>x\<bar> \<bar>y\<bar>)
        else U256 (big_Mod \<bar>x\<bar> \<bar>y\<bar>))"

definition opExp :: "'s vst \<Rightarrow> 's res" where
  "opExp = binop (\<lambda>base exponent.
     if exponent < 1 then 1 else if base = 0 then 0 else if exponent = 1 then base
     else math_Exp base exponent)"

definition opSignExtend :: "'s vst \<Rightarrow> 's res" where
  "opSignExtend st =
     (case vs_stack st of
        back # s \<Rightarrow>
          if back < 31
          then (case s of
                  num # s' \<Rightarrow>
                    (let b = nat back * 8 + 7; mask = 2 ^ b - 1;
                         r = (if bit num b then num OR NOT mask else num AND mask)
                     in ok (st\<lparr>vs_stack := U256 r # s'\<rparr>))
                | [] \<Rightarrow> fail st VmPanic)
          else ok (st\<lparr>vs_stack := s\<rparr>)
      | [] \<Rightarrow> fail st VmPanic)"

definition opNot :: "'s vst \<Rightarrow> 's res" where "opNot = unop (\<lambda>x. U256 (NOT x))"

definition opLt :: "'s vst \<Rightarrow> 's res" where "opLt = binop (\<lambda>x y. b2i (x < y))"

definition opGt :: "'s vst \<Rightarrow> 's res" where "opGt = binop (\<lambda>x y. b2i (x > y))"

definition opSlt :: "'s vst \<Rightarrow> 's res" where
  "opSlt = binop (\<lambda>x y.
     if x \<ge> tt255 \<and> y < tt255 then 1 else if x < tt255 \<and> y \<ge> tt255 then 0 else b2i (x < y))"

definition opSgt :: "'s vst \<Rightarrow> 's res" where
  "opSgt = binop (\<lambda>x y.
     if x \<ge> tt255 \<and> y < tt255 then 0 else if x < tt255 \<and> y \<ge> tt255 then 1 else b2i (x > y))"

definition opEq :: "'s vst \<Rightarrow> 's res" where "opEq = binop (\<lambda>x y. b2i (x = y))"

definition opIszero :: "'s vst \<Rightarrow> 's res" where "opIszero = unop (\<lambda>x. if x > 0 then 0 else 1)"

definition opAnd :: "'s vst \<Rightarrow> 's res" where "opAnd = binop (\<lambda>x y. x AND y)"

definition opOr :: "'s vst \<Rightarrow> 's res" where "opOr = binop (\<lambda>x y. x OR y)"

definition opXor :: "'s vst \<Rightarrow> 's res" where "opXor = binop (\<lambda>x y. x XOR y)"

definition opByte :: "'s vst \<Rightarrow> 's res" where
  "opByte = binop (\<lambda>th v. if th < 32 then math_Byte v (nat (Int64 th)) else 0)"

definition opAddmod :: "'s vst \<Rightarrow> 's res" where
  "opAddmod = triop (\<lambda>x y z. if z > 0 then U256 (big_Mod (x + y) z) else 0)"

definition opMulmod :: "'s vst \<Rightarrow> 's res" where
  "opMulmod = triop (\<lambda>x y z. if z > 0 then U256 (big_Mod (x * y) z) else 0)"

definition opSHL :: "'s vst \<Rightarrow> 's res" where
  "opSHL = binop (\<lambda>x y.
     let shift = U256 x; value = U256 y
     in if shift \<ge> 256 then 0 else U256 (push_bit (nat shift) value))"

definition opSHR :: "'s vst \<Rightarrow> 's res" where
  "opSHR = binop (\<lambda>x y.
     let shift = U256 x; value = U256 y
     in if shift \<ge> 256 then 0 else U256 (drop_bit (nat shift) value))"

definition opSAR :: "'s vst \<Rightarrow> 's res" where
  "opSAR = binop (\<lambda>x y.
     let shift = U256 x; value = S256 y
     in if shift \<ge> 256 then if value \<ge> 0 then U256 0 else U256 (- 1)
        else U256 (drop_bit (nat shift) value))"

section \<open>Environment\<close>

definition opSha3 :: "'s env \<Rightarrow> 's vst \<Rightarrow> 's res" where
  "opSha3 E st =
     (case vs_stack st of
        offset # sz # s \<Rightarrow>
          (case mem_Get (Int64 offset) (Int64 sz) (vs_mem st) of
             None \<Rightarrow> fail st VmPanic
           | Some data \<Rightarrow> ok (st\<lparr>vs_stack := Hash_Big (HashBytes (en_keccak E) data) # s\<rparr>))
      | _ \<Rightarrow> fail st VmPanic)"

definition opAddress :: "'s vst \<Rightarrow> 's res" where "opAddress st = push (Address_Big (self st)) st"

definition opBalance :: "'s env \<Rightarrow> 's vst \<Rightarrow> 's res" where
  "opBalance E = dbop (\<lambda>x. db_GetBalance (en_db E) (BigToAddress x))"

definition opOrigin :: "'s env \<Rightarrow> 's vst \<Rightarrow> 's res" where "opOrigin E = push (Address_Big (en_Origin E))"

definition opCaller :: "'s vst \<Rightarrow> 's res" where
  "opCaller st = push (Address_Big (ct_CallerAddress (vs_contract st))) st"

definition opCallValue :: "'s vst \<Rightarrow> 's res" where "opCallValue st = push (ct_value (vs_contract st)) st"

definition opCallDataLoad :: "'s vst \<Rightarrow> 's res" where
  "opCallDataLoad st = unop (\<lambda>x. big_SetBytes (getDataBig (ct_Input (vs_contract st)) x 32)) st"

definition opCallDataSize :: "'s vst \<Rightarrow> 's res" where
  "opCallDataSize st = push (int (length (ct_Input (vs_contract st)))) st"

text \<open>The three copy instructions write a slice of some data to memory.\<close>

definition copy_op :: "bytes \<Rightarrow> 's vst \<Rightarrow> 's res" where
  "copy_op data st =
     (case vs_stack st of
        memOffset # dataOffset # l # s \<Rightarrow>
          set_mem (mem_Set (Uint64 memOffset) (Uint64 l) (getDataBig data dataOffset l) (vs_mem st))
            (st\<lparr>vs_stack := s\<rparr>)
      | _ \<Rightarrow> fail st VmPanic)"

definition opCallDataCopy :: "'s vst \<Rightarrow> 's res" where
  "opCallDataCopy st = copy_op (ct_Input (vs_contract st)) st"

definition opReturnDataSize :: "'s vst \<Rightarrow> 's res" where
  "opReturnDataSize st = push (int (length (ev_returnData (vs_evm st)))) st"

definition opReturnDataCopy :: "'s vst \<Rightarrow> 's res" where
  "opReturnDataCopy st =
     (case vs_stack st of
        memOffset # dataOffset # l # s \<Rightarrow>
          (let e = dataOffset + l; data = ev_returnData (vs_evm st); st' = st\<lparr>vs_stack := s\<rparr>
           in if big_BitLen e > 64 \<or> length data < unat (Uint64 e) then fail st' ErrReturnDataOutOfBounds
              else if Uint64 e < Uint64 dataOffset then fail st' VmPanic
              else set_mem (mem_Set (Uint64 memOffset) (Uint64 l)
                     (take (unat (Uint64 e) - unat (Uint64 dataOffset)) (drop (unat (Uint64 dataOffset)) data))
                     (vs_mem st)) st')
      | _ \<Rightarrow> fail st VmPanic)"

definition opExtCodeSize :: "'s env \<Rightarrow> 's vst \<Rightarrow> 's res" where
  "opExtCodeSize E =
     dbop (\<lambda>x d. case db_GetCodeSize (en_db E) (BigToAddress x) d of (d', n) \<Rightarrow> (d', int n))"

definition opCodeSize :: "'s vst \<Rightarrow> 's res" where
  "opCodeSize st = push (int (length (ct_Code (vs_contract st)))) st"

definition opCodeCopy :: "'s vst \<Rightarrow> 's res" where
  "opCodeCopy st = copy_op (ct_Code (vs_contract st)) st"

definition opExtCodeCopy :: "'s env \<Rightarrow> 's vst \<Rightarrow> 's res" where
  "opExtCodeCopy E st =
     (case vs_stack st of
        a # s \<Rightarrow>
          (case db_GetCode (en_db E) (BigToAddress a) (db st) of
             (d, code) \<Rightarrow> copy_op code (set_db d (st\<lparr>vs_stack := s\<rparr>)))
      | _ \<Rightarrow> fail st VmPanic)"

definition opExtCodeHash :: "'s env \<Rightarrow> 's vst \<Rightarrow> 's res" where
  "opExtCodeHash E =
     dbop (\<lambda>x d. case db_GetCodeHash (en_db E) (BigToAddress x) d of (d', h) \<Rightarrow> (d', Hash_Big h))"

definition opGasprice :: "'s env \<Rightarrow> 's vst \<Rightarrow> 's res" where
  "opGasprice E st = (case en_GasPrice E of None \<Rightarrow> ok st | Some p \<Rightarrow> push p st)"

definition opBlockhash :: "'s env \<Rightarrow> 's vst \<Rightarrow> 's res" where
  "opBlockhash E = unop (\<lambda>num.
     if num > en_BlockNumber E - 257 \<and> num < en_BlockNumber E then Hash_Big (en_GetHash E (Uint64 num)) else 0)"

definition opCoinbase :: "'s env \<Rightarrow> 's vst \<Rightarrow> 's res" where "opCoinbase E = push (Address_Big (en_Coinbase E))"

definition opTimestamp :: "'s env \<Rightarrow> 's vst \<Rightarrow> 's res" where "opTimestamp E = push (U256 (en_Time E))"

definition opNumber :: "'s env \<Rightarrow> 's vst \<Rightarrow> 's res" where "opNumber E = push (U256 (en_BlockNumber E))"

definition opDifficulty :: "'s env \<Rightarrow> 's vst \<Rightarrow> 's res" where "opDifficulty E = push (U256 (en_Difficulty E))"

definition opGasLimit :: "'s env \<Rightarrow> 's vst \<Rightarrow> 's res" where "opGasLimit E = push (U256 (uint (en_GasLimit E)))"

section \<open>Stack, memory and storage\<close>

definition opPop :: "'s vst \<Rightarrow> 's res" where
  "opPop st = (case vs_stack st of x # s \<Rightarrow> ok (st\<lparr>vs_stack := s\<rparr>) | _ \<Rightarrow> fail st VmPanic)"

definition opMload :: "'s vst \<Rightarrow> 's res" where
  "opMload st =
     (case vs_stack st of
        offset # s \<Rightarrow>
          (case mem_Get (Int64 offset) 32 (vs_mem st) of
             None \<Rightarrow> fail st VmPanic
           | Some b \<Rightarrow> ok (st\<lparr>vs_stack := big_SetBytes b # s\<rparr>))
      | _ \<Rightarrow> fail st VmPanic)"

definition opMstore :: "'s vst \<Rightarrow> 's res" where
  "opMstore st =
     (case vs_stack st of
        mStart # v # s \<Rightarrow> set_mem (mem_Set32 (Uint64 mStart) v (vs_mem st)) (st\<lparr>vs_stack := s\<rparr>)
      | _ \<Rightarrow> fail st VmPanic)"

definition opMstore8 :: "'s vst \<Rightarrow> 's res" where
  "opMstore8 st =
     (case vs_stack st of
        off # v # s \<Rightarrow>
          (let i = Int64 off; m = vs_mem st
           in if i < 0 \<or> i \<ge> int (length (m_store m)) then fail st VmPanic
              else ok (st\<lparr>vs_stack := s,
                     vs_mem := m\<lparr>m_store := (m_store m)[nat i := word_of_int (Int64 v)]\<rparr>\<rparr>))
      | _ \<Rightarrow> fail st VmPanic)"

definition opSload :: "'s env \<Rightarrow> 's vst \<Rightarrow> 's res" where
  "opSload E st =
     dbop (\<lambda>loc d. case db_GetState (en_db E) (self st) (BigToHash loc) d of (d', h) \<Rightarrow> (d', Hash_Big h)) st"

definition opSstore :: "'s env \<Rightarrow> 's vst \<Rightarrow> 's res" where
  "opSstore E st =
     (case vs_stack st of
        loc # v # s \<Rightarrow>
          ok (set_db (db_SetState (en_db E) (self st) (BigToHash loc) (BigToHash v) (db st)) (st\<lparr>vs_stack := s\<rparr>))
      | _ \<Rightarrow> fail st VmPanic)"

section \<open>Jumps\<close>

definition jump_to :: "int \<Rightarrow> 's vst \<Rightarrow> 's res" where
  "jump_to pos st =
     (case validJumpdest (ev_jumpdests (vs_evm st)) (vs_contract st) pos of
        None \<Rightarrow> fail st VmPanic
      | Some (jd, c, valid) \<Rightarrow>
          (let st' = st\<lparr>vs_evm := (vs_evm st)\<lparr>ev_jumpdests := jd\<rparr>, vs_contract := c\<rparr>
           in if \<not> valid then fail st' ErrInvalidJump else ok (st'\<lparr>vs_pc := Uint64 pos\<rparr>)))"

definition opJump :: "'s vst \<Rightarrow> 's res" where
  "opJump st = (case vs_stack st of pos # s \<Rightarrow> jump_to pos (st\<lparr>vs_stack := s\<rparr>) | _ \<Rightarrow> fail st VmPanic)"

definition opJumpi :: "'s vst \<Rightarrow> 's res" where
  "opJumpi st =
     (case vs_stack st of
        pos # cond # s \<Rightarrow>
          (let st' = st\<lparr>vs_stack := s\<rparr>
           in if cond \<noteq> 0 then jump_to pos st' else ok (st'\<lparr>vs_pc := vs_pc st + 1\<rparr>))
      | _ \<Rightarrow> fail st VmPanic)"

definition opJumpdest :: "'s vst \<Rightarrow> 's res" where "opJumpdest st = ok st"

definition opPc :: "'s vst \<Rightarrow> 's res" where "opPc st = push (uint (vs_pc st)) st"

definition opMsize :: "'s vst \<Rightarrow> 's res" where "opMsize st = push (int (length (m_store (vs_mem st)))) st"

definition opGas :: "'s vst \<Rightarrow> 's res" where "opGas st = push (uint (ct_Gas (vs_contract st))) st"

section \<open>Calls\<close>

text \<open>
  A panic or the end of the rounds in the callee ends the caller too; every other error is reported
  on the stack.
\<close>

definition opCreate :: "'s env \<Rightarrow> 's calls \<Rightarrow> 's vst \<Rightarrow> 's res" where
  "opCreate E C st =
     (case vs_stack st of
        value # offset # sz # s \<Rightarrow>
          (case mem_Get (Int64 offset) (Int64 sz) (vs_mem st) of
             None \<Rightarrow> fail st VmPanic
           | Some input \<Rightarrow>
               (let c = vs_contract st;
                    gas = (if en_IsEIP150 E then ct_Gas c - ct_Gas c div 64 else ct_Gas c);
                    c1 = fst (UseGas gas c)
                in case ca_Create C (vs_evm st) (ct_self c) input gas value of
                     (ev, r, addr, returnGas, suberr) \<Rightarrow>
                       (let top = (if en_IsHomestead E \<and> suberr = Some ErrCodeStoreOutOfGas then 0
                                   else if suberr \<noteq> None \<and> suberr \<noteq> Some ErrCodeStoreOutOfGas then 0
                                   else Address_Big addr);
                            st' = st\<lparr>vs_evm := ev, vs_stack := top # s,
                                     vs_contract := c1\<lparr>ct_Gas := ct_Gas c1 + returnGas\<rparr>\<rparr>
                        in case suberr of
                             Some e \<Rightarrow> if fatal e then fail st' e
                                       else (st', if e = ErrExecutionReverted then r else [], None)
                           | None \<Rightarrow> ok st')))
      | _ \<Rightarrow> fail st VmPanic)"

definition opCreate2 :: "'s calls \<Rightarrow> 's vst \<Rightarrow> 's res" where
  "opCreate2 C st =
     (case vs_stack st of
        endowment # offset # sz # salt # s \<Rightarrow>
          (case mem_Get (Int64 offset) (Int64 sz) (vs_mem st) of
             None \<Rightarrow> fail st VmPanic
           | Some input \<Rightarrow>
               (let c = vs_contract st; gas = ct_Gas c - ct_Gas c div 64; c1 = fst (UseGas gas c)
                in case ca_Create2 C (vs_evm st) (ct_self c) input gas endowment salt of
                     (ev, r, addr, returnGas, suberr) \<Rightarrow>
                       (let st' = st\<lparr>vs_evm := ev,
                                     vs_stack := (if suberr \<noteq> None then 0 else Address_Big addr) # s,
                                     vs_contract := c1\<lparr>ct_Gas := ct_Gas c1 + returnGas\<rparr>\<rparr>
                        in case suberr of
                             Some e \<Rightarrow> if fatal e then fail st' e
                                       else (st', if e = ErrExecutionReverted then r else [], None)
                           | None \<Rightarrow> ok st')))
      | _ \<Rightarrow> fail st VmPanic)"

text \<open>The common end of the four call instructions.\<close>

definition finish_call ::
  "'s vst \<Rightarrow> stack \<Rightarrow> int \<Rightarrow> int \<Rightarrow> 's evm \<times> bytes \<times> uint64 \<times> vm_error option \<Rightarrow> 's res" where
  "finish_call st s retOffset retSize r =
     (case r of
        (ev, ret, returnGas, err) \<Rightarrow>
          (let c = vs_contract st;
               st1 = st\<lparr>vs_evm := ev, vs_stack := (if err \<noteq> None then 0 else 1) # s\<rparr>
           in case (if err = None \<or> err = Some ErrExecutionReverted
                    then mem_Set (Uint64 retOffset) (Uint64 retSize) ret (vs_mem st) else Some (vs_mem st)) of
                None \<Rightarrow> fail st1 VmPanic
              | Some m \<Rightarrow>
                  (let st2 = st1\<lparr>vs_mem := m, vs_contract := c\<lparr>ct_Gas := ct_Gas c + returnGas\<rparr>\<rparr>
                   in case err of
                        Some e \<Rightarrow> if fatal e then fail st2 e else (st2, ret, None)
                      | None \<Rightarrow> (st2, ret, None))))"

definition CallStipend :: uint64 where "CallStipend = 2300"

definition opCall :: "'s calls \<Rightarrow> 's vst \<Rightarrow> 's res" where
  "opCall C st =
     (case vs_stack st of
        g # addr # v # inOffset # inSize # retOffset # retSize # s \<Rightarrow>
          (case mem_Get (Int64 inOffset) (Int64 inSize) (vs_mem st) of
             None \<Rightarrow> fail st VmPanic
           | Some args \<Rightarrow>
               (let value = U256 v;
                    gas = ev_callGasTemp (vs_evm st) + (if value \<noteq> 0 then CallStipend else 0)
                in finish_call st s retOffset retSize
                     (ca_Call C (vs_evm st) (self st) (BigToAddress addr) args gas value)))
      | _ \<Rightarrow> fail st VmPanic)"

definition opCallCode :: "'s calls \<Rightarrow> 's vst \<Rightarrow> 's res" where
  "opCallCode C st =
     (case vs_stack st of
        g # addr # v # inOffset # inSize # retOffset # retSize # s \<Rightarrow>
          (case mem_Get (Int64 inOffset) (Int64 inSize) (vs_mem st) of
             None \<Rightarrow> fail st VmPanic
           | Some args \<Rightarrow>
               (let value = U256 v;
                    gas = ev_callGasTemp (vs_evm st) + (if value \<noteq> 0 then CallStipend else 0)
                in finish_call st s retOffset retSize
                     (ca_CallCode C (vs_evm st) (self st) (BigToAddress addr) args gas value)))
      | _ \<Rightarrow> fail st VmPanic)"

definition opDelegateCall :: "'s calls \<Rightarrow> 's vst \<Rightarrow> 's res" where
  "opDelegateCall C st =
     (case vs_stack st of
        g # addr # inOffset # inSize # retOffset # retSize # s \<Rightarrow>
          (case mem_Get (Int64 inOffset) (Int64 inSize) (vs_mem st) of
             None \<Rightarrow> fail st VmPanic
           | Some args \<Rightarrow>
               finish_call st s retOffset retSize
                 (ca_DelegateCall C (vs_evm st) (vs_contract st) (BigToAddress addr) args
                   (ev_callGasTemp (vs_evm st))))
      | _ \<Rightarrow> fail st VmPanic)"

definition opStaticCall :: "'s calls \<Rightarrow> 's vst \<Rightarrow> 's res" where
  "opStaticCall C st =
     (case vs_stack st of
        g # addr # inOffset # inSize # retOffset # retSize # s \<Rightarrow>
          (case mem_Get (Int64 inOffset) (Int64 inSize) (vs_mem st) of
             None \<Rightarrow> fail st VmPanic
           | Some args \<Rightarrow>
               finish_call st s retOffset retSize
                 (ca_StaticCall C (vs_evm st) (self st) (BigToAddress addr) args (ev_callGasTemp (vs_evm st))))
      | _ \<Rightarrow> fail st VmPanic)"

section \<open>Ends, logs, pushes\<close>

definition mem_result :: "'s vst \<Rightarrow> 's res" where
  "mem_result st =
     (case vs_stack st of
        offset # sz # s \<Rightarrow>
          (case mem_Get (Int64 offset) (Int64 sz) (vs_mem st) of
             None \<Rightarrow> fail st VmPanic
           | Some r \<Rightarrow> (st\<lparr>vs_stack := s\<rparr>, r, None))
      | _ \<Rightarrow> fail st VmPanic)"

definition opReturn :: "'s vst \<Rightarrow> 's res" where "opReturn = mem_result"

definition opRevert :: "'s vst \<Rightarrow> 's res" where "opRevert = mem_result"

definition opStop :: "'s vst \<Rightarrow> 's res" where "opStop st = ok st"

definition opSuicide :: "'s env \<Rightarrow> 's vst \<Rightarrow> 's res" where
  "opSuicide E st =
     (case vs_stack st of
        x # s \<Rightarrow>
          (case db_GetBalance (en_db E) (self st) (db st) of
             (d1, balance) \<Rightarrow>
               (let d2 = db_AddBalance (en_db E) (BigToAddress x) balance d1;
                    d3 = db_Suicide (en_db E) (self st) d2
                in ok (set_db d3 (st\<lparr>vs_stack := s\<rparr>))))
      | _ \<Rightarrow> fail st VmPanic)"

definition makeLog :: "'s env \<Rightarrow> nat \<Rightarrow> 's vst \<Rightarrow> 's res" where
  "makeLog E n st =
     (case vs_stack st of
        mStart # mSize # s \<Rightarrow>
          if length s < n then fail st VmPanic
          else (case mem_Get (Int64 mStart) (Int64 mSize) (vs_mem st) of
                  None \<Rightarrow> fail st VmPanic
                | Some d \<Rightarrow>
                    ok (set_db (db_AddLog (en_db E)
                          \<lparr>lg_Address = self st, lg_Topics = map BigToHash (take n s), lg_Data = d,
                           lg_BlockNumber = Uint64 (en_BlockNumber E), lg_TxIndex = 0\<rparr> (db st))
                        (st\<lparr>vs_stack := drop n s\<rparr>)))
      | _ \<Rightarrow> fail st VmPanic)"

definition makePush :: "uint64 \<Rightarrow> nat \<Rightarrow> 's vst \<Rightarrow> 's res" where
  "makePush sz pushByteSize st =
     (let code = ct_Code (vs_contract st); codeLen = length code;
          startMin = min codeLen (unat (vs_pc st + 1));
          endMin = min codeLen (startMin + pushByteSize);
          v = big_SetBytes (RightPadBytes (take (endMin - startMin) (drop startMin code)) pushByteSize)
      in ok (st\<lparr>vs_stack := v # vs_stack st, vs_pc := vs_pc st + sz\<rparr>))"

definition makeDup :: "nat \<Rightarrow> 's vst \<Rightarrow> 's res" where
  "makeDup n st =
     (case stack_dup n (vs_stack st) of None \<Rightarrow> fail st VmPanic | Some s \<Rightarrow> ok (st\<lparr>vs_stack := s\<rparr>))"

definition makeSwap :: "nat \<Rightarrow> 's vst \<Rightarrow> 's res" where
  "makeSwap n st =
     (case stack_swap (n + 1) (vs_stack st) of None \<Rightarrow> fail st VmPanic | Some s \<Rightarrow> ok (st\<lparr>vs_stack := s\<rparr>))"

end
