(* ===== verification/Evm_Gas.thy ===== *)
theory Evm_Gas
  imports Evm_Instr
begin

text \<open>
  The virtual machine, third part: the gas of each instruction (\<open>src/core/vm/gas_table.go\<close>, \<open>gas.go\<close>)
  and the memory it needs (\<open>memory_table.go\<close>). Gas is kept at 64 bits, with the wrap-around and the
  overflow tests of the code. A gas function may change the state: the fee already paid for memory,
  the gas set aside for a call and the refund counter of the database.
\<close>

section \<open>Constants\<close>

definition GasQuickStep :: uint64 where "GasQuickStep = 2"
definition GasFastestStep :: uint64 where "GasFastestStep = 3"
definition GasFastStep :: uint64 where "GasFastStep = 5"
definition GasMidStep :: uint64 where "GasMidStep = 8"
definition GasSlowStep :: uint64 where "GasSlowStep = 10"
definition GasExtStep :: uint64 where "GasExtStep = 20"

text \<open>The constants of \<open>params/protocol_params.go\<close> that the gas table uses.\<close>

definition MemoryGas :: uint64 where "MemoryGas = 3"
definition QuadCoeffDiv :: uint64 where "QuadCoeffDiv = 512"
definition CopyGas :: uint64 where "CopyGas = 3"
definition SstoreSetGas :: uint64 where "SstoreSetGas = 20000"
definition SstoreResetGas :: uint64 where "SstoreResetGas = 5000"
definition SstoreClearGas :: uint64 where "SstoreClearGas = 5000"
definition SstoreRefundGas :: uint64 where "SstoreRefundGas = 15000"
definition NetSstoreNoopGas :: uint64 where "NetSstoreNoopGas = 200"
definition NetSstoreInitGas :: uint64 where "NetSstoreInitGas = 20000"
definition NetSstoreCleanGas :: uint64 where "NetSstoreCleanGas = 5000"
definition NetSstoreDirtyGas :: uint64 where "NetSstoreDirtyGas = 200"
definition NetSstoreClearRefund :: uint64 where "NetSstoreClearRefund = 15000"
definition NetSstoreResetRefund :: uint64 where "NetSstoreResetRefund = 4800"
definition NetSstoreResetClearRefund :: uint64 where "NetSstoreResetClearRefund = 19800"
definition LogGas :: uint64 where "LogGas = 375"
definition LogTopicGas :: uint64 where "LogTopicGas = 375"
definition LogDataGas :: uint64 where "LogDataGas = 8"
definition Sha3Gas :: uint64 where "Sha3Gas = 30"
definition Sha3WordGas :: uint64 where "Sha3WordGas = 6"
definition CreateGas :: uint64 where "CreateGas = 32000"
definition Create2Gas :: uint64 where "Create2Gas = 32000"
definition CallNewAccountGas :: uint64 where "CallNewAccountGas = 25000"
definition CallValueTransferGas :: uint64 where "CallValueTransferGas = 9000"
definition SuicideRefundGas :: uint64 where "SuicideRefundGas = 24000"
definition JumpdestGas :: uint64 where "JumpdestGas = 1"

definition GasTableHomestead :: gas_table where
  "GasTableHomestead = \<lparr>gt_ExtcodeSize = 20, gt_ExtcodeCopy = 20, gt_ExtcodeHash = 0, gt_Balance = 20, gt_SLoad = 50,
     gt_Calls = 40, gt_Suicide = 0, gt_ExpByte = 10, gt_CreateBySuicide = 0\<rparr>"

definition GasTableEIP150 :: gas_table where
  "GasTableEIP150 = \<lparr>gt_ExtcodeSize = 700, gt_ExtcodeCopy = 700, gt_ExtcodeHash = 0, gt_Balance = 400, gt_SLoad = 200,
     gt_Calls = 700, gt_Suicide = 5000, gt_ExpByte = 10, gt_CreateBySuicide = 25000\<rparr>"

definition GasTableEIP158 :: gas_table where
  "GasTableEIP158 = \<lparr>gt_ExtcodeSize = 700, gt_ExtcodeCopy = 700, gt_ExtcodeHash = 0, gt_Balance = 400, gt_SLoad = 200,
     gt_Calls = 700, gt_Suicide = 5000, gt_ExpByte = 50, gt_CreateBySuicide = 25000\<rparr>"

definition GasTableConstantinople :: gas_table where
  "GasTableConstantinople = \<lparr>gt_ExtcodeSize = 700, gt_ExtcodeCopy = 700, gt_ExtcodeHash = 400, gt_Balance = 400,
     gt_SLoad = 200, gt_Calls = 700, gt_Suicide = 5000, gt_ExpByte = 50, gt_CreateBySuicide = 25000\<rparr>"

section \<open>Checked arithmetic\<close>

type_synonym gas_result = "vm_error + uint64"

definition bind_gas :: "gas_result \<Rightarrow> (uint64 \<Rightarrow> gas_result) \<Rightarrow> gas_result" where
  "bind_gas r f = (case r of Inl e \<Rightarrow> Inl e | Inr g \<Rightarrow> f g)"

definition add_gas :: "uint64 \<Rightarrow> uint64 \<Rightarrow> gas_result" where
  "add_gas x y = (case SafeAdd x y of (s, overflow) \<Rightarrow> if overflow then Inl ErrGasUintOverflow else Inr s)"

definition mul_gas :: "uint64 \<Rightarrow> uint64 \<Rightarrow> gas_result" where
  "mul_gas x y = (case SafeMul x y of (s, overflow) \<Rightarrow> if overflow then Inl ErrGasUintOverflow else Inr s)"

definition back_gas :: "nat \<Rightarrow> 's vst \<Rightarrow> (int \<Rightarrow> gas_result) \<Rightarrow> gas_result" where
  "back_gas n st f = (case stack_Back (vs_stack st) n of None \<Rightarrow> Inl VmPanic | Some v \<Rightarrow> f v)"

section \<open>Memory gas\<close>

definition memoryGasCost :: "memory \<Rightarrow> uint64 \<Rightarrow> memory \<times> gas_result" where
  "memoryGasCost mem newMemSize =
     (if newMemSize = 0 then (mem, Inr 0)
      else if newMemSize > 0xffffffffe0 then (mem, Inl ErrGasUintOverflow)
      else let newMemSizeWords = toWordSize newMemSize; newMemSize' = newMemSizeWords * 32
           in if unat newMemSize' > length (m_store mem)
              then let square = newMemSizeWords * newMemSizeWords;
                       linCoef = newMemSizeWords * MemoryGas;
                       quadCoef = square div QuadCoeffDiv;
                       newTotalFee = linCoef + quadCoef;
                       fee = newTotalFee - m_lastGasCost mem
                   in (mem\<lparr>m_lastGasCost := newTotalFee\<rparr>, Inr fee)
              else (mem, Inr 0))"

text \<open>The gas functions that start with the memory fee and go on with pure arithmetic.\<close>

definition with_mem_gas :: "(uint64 \<Rightarrow> gas_result) \<Rightarrow> 's vst \<Rightarrow> uint64 \<Rightarrow> 's vst \<times> gas_result" where
  "with_mem_gas f st memorySize =
     (case memoryGasCost (vs_mem st) memorySize of (m, r) \<Rightarrow> (st\<lparr>vs_mem := m\<rparr>, bind_gas r f))"

definition per_word_gas :: "uint64 \<Rightarrow> nat \<Rightarrow> uint64 \<Rightarrow> 's vst \<Rightarrow> uint64 \<Rightarrow> 's vst \<times> gas_result" where
  "per_word_gas base n price st =
     with_mem_gas (\<lambda>gas. bind_gas (add_gas gas base) (\<lambda>gas1.
       back_gas n st (\<lambda>w. case bigUint64 w of (words, overflow) \<Rightarrow>
         if overflow then Inl ErrGasUintOverflow
         else bind_gas (mul_gas (toWordSize words) price) (\<lambda>wg. add_gas gas1 wg)))) st"

definition constGasFunc :: "uint64 \<Rightarrow> 's vst \<Rightarrow> uint64 \<Rightarrow> 's vst \<times> gas_result" where
  "constGasFunc gas st memorySize = (st, Inr gas)"

definition gasCallDataCopy :: "'s vst \<Rightarrow> uint64 \<Rightarrow> 's vst \<times> gas_result" where
  "gasCallDataCopy = per_word_gas GasFastestStep 2 CopyGas"

definition gasReturnDataCopy :: "'s vst \<Rightarrow> uint64 \<Rightarrow> 's vst \<times> gas_result" where
  "gasReturnDataCopy = per_word_gas GasFastestStep 2 CopyGas"

definition gasCodeCopy :: "'s vst \<Rightarrow> uint64 \<Rightarrow> 's vst \<times> gas_result" where
  "gasCodeCopy = per_word_gas GasFastestStep 2 CopyGas"

definition gasExtCodeCopy :: "'s env \<Rightarrow> 's vst \<Rightarrow> uint64 \<Rightarrow> 's vst \<times> gas_result" where
  "gasExtCodeCopy E = per_word_gas (gt_ExtcodeCopy (en_gasTable E)) 3 CopyGas"

definition gasSha3 :: "'s vst \<Rightarrow> uint64 \<Rightarrow> 's vst \<times> gas_result" where
  "gasSha3 = per_word_gas Sha3Gas 1 Sha3WordGas"

definition gasCreate2 :: "'s vst \<Rightarrow> uint64 \<Rightarrow> 's vst \<times> gas_result" where
  "gasCreate2 = per_word_gas Create2Gas 2 Sha3WordGas"

definition gasMLoad :: "'s vst \<Rightarrow> uint64 \<Rightarrow> 's vst \<times> gas_result" where
  "gasMLoad = with_mem_gas (\<lambda>gas. add_gas gas GasFastestStep)"

definition gasMStore8 :: "'s vst \<Rightarrow> uint64 \<Rightarrow> 's vst \<times> gas_result" where
  "gasMStore8 = with_mem_gas (\<lambda>gas. add_gas gas GasFastestStep)"

definition gasMStore :: "'s vst \<Rightarrow> uint64 \<Rightarrow> 's vst \<times> gas_result" where
  "gasMStore = with_mem_gas (\<lambda>gas. add_gas gas GasFastestStep)"

definition gasCreate :: "'s vst \<Rightarrow> uint64 \<Rightarrow> 's vst \<times> gas_result" where
  "gasCreate = with_mem_gas (\<lambda>gas. add_gas gas CreateGas)"

definition gasReturn :: "'s vst \<Rightarrow> uint64 \<Rightarrow> 's vst \<times> gas_result" where
  "gasReturn = with_mem_gas Inr"

definition gasRevert :: "'s vst \<Rightarrow> uint64 \<Rightarrow> 's vst \<times> gas_result" where
  "gasRevert = with_mem_gas Inr"

definition makeGasLog :: "uint64 \<Rightarrow> 's vst \<Rightarrow> uint64 \<Rightarrow> 's vst \<times> gas_result" where
  "makeGasLog n st memorySize =
     (case stack_Back (vs_stack st) 1 of
        None \<Rightarrow> (st, Inl VmPanic)
      | Some v \<Rightarrow>
          (case bigUint64 v of
             (requestedSize, overflow) \<Rightarrow>
               if overflow then (st, Inl ErrGasUintOverflow)
               else with_mem_gas (\<lambda>gas.
                      bind_gas (add_gas gas LogGas) (\<lambda>gas1.
                      bind_gas (add_gas gas1 (n * LogTopicGas)) (\<lambda>gas2.
                      bind_gas (mul_gas requestedSize LogDataGas) (\<lambda>memorySizeGas.
                      add_gas gas2 memorySizeGas)))) st memorySize))"

section \<open>Storage gas\<close>

definition gasSStore :: "'s env \<Rightarrow> 's vst \<Rightarrow> uint64 \<Rightarrow> 's vst \<times> gas_result" where
  "gasSStore E st memorySize =
     (case (stack_Back (vs_stack st) 0, stack_Back (vs_stack st) 1) of
        (Some x, Some y) \<Rightarrow>
          (case db_GetState (en_db E) (self st) (BigToHash x) (db st) of
             (d, current) \<Rightarrow>
               if \<not> en_IsConstantinople E
               then (if current = EmptyHash \<and> y \<noteq> 0 then (set_db d st, Inr SstoreSetGas)
                     else if current \<noteq> EmptyHash \<and> y = 0
                     then (set_db (db_AddRefund (en_db E) SstoreRefundGas d) st, Inr SstoreClearGas)
                     else (set_db d st, Inr SstoreResetGas))
               else let value = BigToHash y
                    in if current = value then (set_db d st, Inr NetSstoreNoopGas)
                       else case db_GetCommittedState (en_db E) (self st) (BigToHash x) d of
                         (d1, original) \<Rightarrow>
                           if original = current
                           then if original = EmptyHash then (set_db d1 st, Inr NetSstoreInitGas)
                                else (set_db (if value = EmptyHash then db_AddRefund (en_db E) NetSstoreClearRefund d1
                                              else d1) st, Inr NetSstoreCleanGas)
                           else (case (if original \<noteq> EmptyHash
                                       then if current = EmptyHash
                                            then db_SubRefund (en_db E) NetSstoreClearRefund d1
                                            else if value = EmptyHash
                                            then Some (db_AddRefund (en_db E) NetSstoreClearRefund d1)
                                            else Some d1
                                       else Some d1) of
                                   None \<Rightarrow> (set_db d1 st, Inl VmPanic)
                                 | Some d2 \<Rightarrow>
                                     (set_db (if original = value
                                              then if original = EmptyHash
                                                   then db_AddRefund (en_db E) NetSstoreResetClearRefund d2
                                                   else db_AddRefund (en_db E) NetSstoreResetRefund d2
                                              else d2) st, Inr NetSstoreDirtyGas)))
      | _ \<Rightarrow> (st, Inl VmPanic))"

definition gasExtCodeHash :: "'s env \<Rightarrow> 's vst \<Rightarrow> uint64 \<Rightarrow> 's vst \<times> gas_result" where
  "gasExtCodeHash E st memorySize = (st, Inr (gt_ExtcodeHash (en_gasTable E)))"

definition gasBalance :: "'s env \<Rightarrow> 's vst \<Rightarrow> uint64 \<Rightarrow> 's vst \<times> gas_result" where
  "gasBalance E st memorySize = (st, Inr (gt_Balance (en_gasTable E)))"

definition gasExtCodeSize :: "'s env \<Rightarrow> 's vst \<Rightarrow> uint64 \<Rightarrow> 's vst \<times> gas_result" where
  "gasExtCodeSize E st memorySize = (st, Inr (gt_ExtcodeSize (en_gasTable E)))"

definition gasSLoad :: "'s env \<Rightarrow> 's vst \<Rightarrow> uint64 \<Rightarrow> 's vst \<times> gas_result" where
  "gasSLoad E st memorySize = (st, Inr (gt_SLoad (en_gasTable E)))"

definition gasExp :: "'s env \<Rightarrow> 's vst \<Rightarrow> uint64 \<Rightarrow> 's vst \<times> gas_result" where
  "gasExp E st memorySize =
     (st, back_gas 1 st (\<lambda>v.
        let expByteLen = word_of_nat ((big_BitLen v + 7) div 8)
        in add_gas (expByteLen * gt_ExpByte (en_gasTable E)) GasSlowStep))"

section \<open>Call gas\<close>

text \<open>The subtraction of the base cost from the available gas may wrap around.\<close>

definition callGas :: "gas_table \<Rightarrow> uint64 \<Rightarrow> uint64 \<Rightarrow> int \<Rightarrow> gas_result" where
  "callGas gt availableGas base callCost =
     (let available = availableGas - base; gas = available - available div 64
      in if gt_CreateBySuicide gt > 0 \<and> (big_BitLen callCost > 64 \<or> gas < Uint64 callCost) then Inr gas
         else if big_BitLen callCost > 64 then Inl ErrGasUintOverflow
         else Inr (Uint64 callCost))"

text \<open>The gas set aside for the callee is remembered and added to the cost.\<close>

definition charge_call :: "'s env \<Rightarrow> 's vst \<Rightarrow> uint64 \<Rightarrow> 's vst \<times> gas_result" where
  "charge_call E st gas =
     (case stack_Back (vs_stack st) 0 of
        None \<Rightarrow> (st, Inl VmPanic)
      | Some requested \<Rightarrow>
          (case callGas (en_gasTable E) (ct_Gas (vs_contract st)) gas requested of
             Inl e \<Rightarrow> (st\<lparr>vs_evm := (vs_evm st)\<lparr>ev_callGasTemp := 0\<rparr>\<rparr>, Inl e)
           | Inr g \<Rightarrow> (st\<lparr>vs_evm := (vs_evm st)\<lparr>ev_callGasTemp := g\<rparr>\<rparr>, add_gas gas g)))"

text \<open>Memory fee added to a base cost, then the gas of the callee.\<close>

definition mem_charge_call :: "'s env \<Rightarrow> uint64 \<Rightarrow> 's vst \<Rightarrow> uint64 \<Rightarrow> 's vst \<times> gas_result" where
  "mem_charge_call E base st memorySize =
     (case memoryGasCost (vs_mem st) memorySize of
        (m, r) \<Rightarrow>
          (let st1 = st\<lparr>vs_mem := m\<rparr>
           in case bind_gas r (\<lambda>memoryGas. add_gas base memoryGas) of
                Inl e \<Rightarrow> (st1, Inl e)
              | Inr gas \<Rightarrow> charge_call E st1 gas))"

definition gasCall :: "'s env \<Rightarrow> 's vst \<Rightarrow> uint64 \<Rightarrow> 's vst \<times> gas_result" where
  "gasCall E st memorySize =
     (case (stack_Back (vs_stack st) 1, stack_Back (vs_stack st) 2) of
        (Some a, Some v) \<Rightarrow>
          (let address = BigToAddress a; transfersValue = v \<noteq> 0;
               (d, new) = (if en_IsEIP158 E
                           then if transfersValue then db_Empty (en_db E) address (db st) else (db st, False)
                           else (case db_Exist (en_db E) address (db st) of (d, b) \<Rightarrow> (d, \<not> b)));
               gas = gt_Calls (en_gasTable E) + (if new then CallNewAccountGas else 0)
                     + (if transfersValue then CallValueTransferGas else 0)
           in mem_charge_call E gas (set_db d st) memorySize)
      | _ \<Rightarrow> (st, Inl VmPanic))"

definition gasCallCode :: "'s env \<Rightarrow> 's vst \<Rightarrow> uint64 \<Rightarrow> 's vst \<times> gas_result" where
  "gasCallCode E st memorySize =
     (case stack_Back (vs_stack st) 2 of
        None \<Rightarrow> (st, Inl VmPanic)
      | Some v \<Rightarrow>
          mem_charge_call E (gt_Calls (en_gasTable E) + (if v \<noteq> 0 then CallValueTransferGas else 0)) st memorySize)"

definition gasDelegateCall :: "'s env \<Rightarrow> 's vst \<Rightarrow> uint64 \<Rightarrow> 's vst \<times> gas_result" where
  "gasDelegateCall E st memorySize = mem_charge_call E (gt_Calls (en_gasTable E)) st memorySize"

definition gasStaticCall :: "'s env \<Rightarrow> 's vst \<Rightarrow> uint64 \<Rightarrow> 's vst \<times> gas_result" where
  "gasStaticCall E st memorySize = mem_charge_call E (gt_Calls (en_gasTable E)) st memorySize"

definition gasSuicide :: "'s env \<Rightarrow> 's vst \<Rightarrow> uint64 \<Rightarrow> 's vst \<times> gas_result" where
  "gasSuicide E st memorySize =
     (case stack_Back (vs_stack st) 0 of
        None \<Rightarrow> (st, Inl VmPanic)
      | Some x \<Rightarrow>
          (let address = BigToAddress x;
               (d1, gas) =
                 (if en_IsEIP150 E
                  then (let (d, new) =
                          (if en_IsEIP158 E
                           then (case db_Empty (en_db E) address (db st) of
                                   (d, em) \<Rightarrow>
                                     if em then (case db_GetBalance (en_db E) (self st) d of (d', b) \<Rightarrow> (d', b \<noteq> 0))
                                     else (d, False))
                           else (case db_Exist (en_db E) address (db st) of (d, b) \<Rightarrow> (d, \<not> b)))
                        in (d, gt_Suicide (en_gasTable E) + (if new then gt_CreateBySuicide (en_gasTable E) else 0)))
                  else (db st, 0));
               (d2, gone) = db_HasSuicided (en_db E) (self st) d1;
               d3 = (if gone then d2 else db_AddRefund (en_db E) SuicideRefundGas d2)
           in (set_db d3 st, Inr gas)))"

definition gasPush :: "'s vst \<Rightarrow> uint64 \<Rightarrow> 's vst \<times> gas_result" where
  "gasPush st memorySize = (st, Inr GasFastestStep)"

definition gasSwap :: "'s vst \<Rightarrow> uint64 \<Rightarrow> 's vst \<times> gas_result" where
  "gasSwap st memorySize = (st, Inr GasFastestStep)"

definition gasDup :: "'s vst \<Rightarrow> uint64 \<Rightarrow> 's vst \<times> gas_result" where
  "gasDup st memorySize = (st, Inr GasFastestStep)"

section \<open>Memory sizes\<close>

text \<open>The memory an instruction needs; a missing operand is an index panic.\<close>

definition mem_need :: "nat \<Rightarrow> nat \<Rightarrow> stack \<Rightarrow> int option" where
  "mem_need i j st =
     (case (stack_Back st i, stack_Back st j) of (Some off, Some l) \<Rightarrow> Some (calcMemSize off l) | _ \<Rightarrow> None)"

definition mem_need_const :: "nat \<Rightarrow> int \<Rightarrow> stack \<Rightarrow> int option" where
  "mem_need_const i l st = map_option (\<lambda>off. calcMemSize off l) (stack_Back st i)"

definition mem_need_max :: "nat \<Rightarrow> nat \<Rightarrow> nat \<Rightarrow> nat \<Rightarrow> stack \<Rightarrow> int option" where
  "mem_need_max i j k l st =
     (case (mem_need i j st, mem_need k l st) of (Some x, Some y) \<Rightarrow> Some (max x y) | _ \<Rightarrow> None)"

definition memorySha3 :: "stack \<Rightarrow> int option" where "memorySha3 = mem_need 0 1"
definition memoryCallDataCopy :: "stack \<Rightarrow> int option" where "memoryCallDataCopy = mem_need 0 2"
definition memoryReturnDataCopy :: "stack \<Rightarrow> int option" where "memoryReturnDataCopy = mem_need 0 2"
definition memoryCodeCopy :: "stack \<Rightarrow> int option" where "memoryCodeCopy = mem_need 0 2"
definition memoryExtCodeCopy :: "stack \<Rightarrow> int option" where "memoryExtCodeCopy = mem_need 1 3"
definition memoryMLoad :: "stack \<Rightarrow> int option" where "memoryMLoad = mem_need_const 0 32"
definition memoryMStore8 :: "stack \<Rightarrow> int option" where "memoryMStore8 = mem_need_const 0 1"
definition memoryMStore :: "stack \<Rightarrow> int option" where "memoryMStore = mem_need_const 0 32"
definition memoryCreate :: "stack \<Rightarrow> int option" where "memoryCreate = mem_need 1 2"
definition memoryCreate2 :: "stack \<Rightarrow> int option" where "memoryCreate2 = mem_need 1 2"
definition memoryCall :: "stack \<Rightarrow> int option" where "memoryCall = mem_need_max 5 6 3 4"
definition memoryDelegateCall :: "stack \<Rightarrow> int option" where "memoryDelegateCall = mem_need_max 4 5 2 3"
definition memoryStaticCall :: "stack \<Rightarrow> int option" where "memoryStaticCall = mem_need_max 4 5 2 3"
definition memoryReturn :: "stack \<Rightarrow> int option" where "memoryReturn = mem_need 0 1"
definition memoryRevert :: "stack \<Rightarrow> int option" where "memoryRevert = mem_need 0 1"
definition memoryLog :: "stack \<Rightarrow> int option" where "memoryLog = mem_need 0 1"

end
