(* ===== verification/Evm_Table.thy ===== *)
theory Evm_Table
  imports Evm_Gas
begin

text \<open>
  The virtual machine, fourth part: the opcodes and their names (\<open>src/core/vm/opcodes.go\<close>) and the
  jump table (\<open>jump_table.go\<close>), which gives each opcode its execution, its gas, its effect on the stack
  and the memory it needs.
\<close>

section \<open>Opcodes\<close>

definition STOP :: byte where "STOP = 0x00"
definition ADD :: byte where "ADD = 0x01"
definition MUL :: byte where "MUL = 0x02"
definition SUB :: byte where "SUB = 0x03"
definition DIV :: byte where "DIV = 0x04"
definition SDIV :: byte where "SDIV = 0x05"
definition MOD :: byte where "MOD = 0x06"
definition SMOD :: byte where "SMOD = 0x07"
definition ADDMOD :: byte where "ADDMOD = 0x08"
definition MULMOD :: byte where "MULMOD = 0x09"
definition EXP :: byte where "EXP = 0x0A"
definition SIGNEXTEND :: byte where "SIGNEXTEND = 0x0B"
definition LT :: byte where "LT = 0x10"
definition GT :: byte where "GT = 0x11"
definition SLT :: byte where "SLT = 0x12"
definition SGT :: byte where "SGT = 0x13"
definition EQ :: byte where "EQ = 0x14"
definition ISZERO :: byte where "ISZERO = 0x15"
definition AND_op :: byte where "AND_op = 0x16"
definition OR_op :: byte where "OR_op = 0x17"
definition XOR_op :: byte where "XOR_op = 0x18"
definition NOT_op :: byte where "NOT_op = 0x19"
definition BYTE :: byte where "BYTE = 0x1A"
definition SHL :: byte where "SHL = 0x1B"
definition SHR :: byte where "SHR = 0x1C"
definition SAR :: byte where "SAR = 0x1D"
definition SHA3 :: byte where "SHA3 = 0x20"
definition ADDRESS :: byte where "ADDRESS = 0x30"
definition BALANCE :: byte where "BALANCE = 0x31"
definition ORIGIN :: byte where "ORIGIN = 0x32"
definition CALLER :: byte where "CALLER = 0x33"
definition CALLVALUE :: byte where "CALLVALUE = 0x34"
definition CALLDATALOAD :: byte where "CALLDATALOAD = 0x35"
definition CALLDATASIZE :: byte where "CALLDATASIZE = 0x36"
definition CALLDATACOPY :: byte where "CALLDATACOPY = 0x37"
definition CODESIZE :: byte where "CODESIZE = 0x38"
definition CODECOPY :: byte where "CODECOPY = 0x39"
definition GASPRICE :: byte where "GASPRICE = 0x3A"
definition EXTCODESIZE :: byte where "EXTCODESIZE = 0x3B"
definition EXTCODECOPY :: byte where "EXTCODECOPY = 0x3C"
definition RETURNDATASIZE :: byte where "RETURNDATASIZE = 0x3D"
definition RETURNDATACOPY :: byte where "RETURNDATACOPY = 0x3E"
definition EXTCODEHASH :: byte where "EXTCODEHASH = 0x3F"
definition BLOCKHASH :: byte where "BLOCKHASH = 0x40"
definition COINBASE :: byte where "COINBASE = 0x41"
definition TIMESTAMP :: byte where "TIMESTAMP = 0x42"
definition NUMBER :: byte where "NUMBER = 0x43"
definition DIFFICULTY :: byte where "DIFFICULTY = 0x44"
definition GASLIMIT :: byte where "GASLIMIT = 0x45"
definition POP :: byte where "POP = 0x50"
definition MLOAD :: byte where "MLOAD = 0x51"
definition MSTORE :: byte where "MSTORE = 0x52"
definition MSTORE8 :: byte where "MSTORE8 = 0x53"
definition SLOAD :: byte where "SLOAD = 0x54"
definition SSTORE :: byte where "SSTORE = 0x55"
definition JUMP :: byte where "JUMP = 0x56"
definition JUMPI :: byte where "JUMPI = 0x57"
definition PC :: byte where "PC = 0x58"
definition MSIZE :: byte where "MSIZE = 0x59"
definition GAS :: byte where "GAS = 0x5A"
definition CREATE :: byte where "CREATE = 0xF0"
definition CALL :: byte where "CALL = 0xF1"
definition CALLCODE :: byte where "CALLCODE = 0xF2"
definition RETURN :: byte where "RETURN = 0xF3"
definition DELEGATECALL :: byte where "DELEGATECALL = 0xF4"
definition CREATE2 :: byte where "CREATE2 = 0xF5"
definition STATICCALL :: byte where "STATICCALL = 0xFA"
definition REVERT :: byte where "REVERT = 0xFD"
definition SELFDESTRUCT :: byte where "SELFDESTRUCT = 0xFF"

text \<open>The numbered families.\<close>

definition PUSHn :: "nat \<Rightarrow> byte" where "PUSHn n = 0x5F + word_of_nat n"
definition DUPn :: "nat \<Rightarrow> byte" where "DUPn n = 0x7F + word_of_nat n"
definition SWAPn :: "nat \<Rightarrow> byte" where "SWAPn n = 0x8F + word_of_nat n"
definition LOGn :: "nat \<Rightarrow> byte" where "LOGn n = 0xA0 + word_of_nat n"

text \<open>Opcodes used by parsers only.\<close>

definition PUSH_op :: byte where "PUSH_op = 0xB0"
definition DUP_op :: byte where "DUP_op = 0xB1"
definition SWAP_op :: byte where "SWAP_op = 0xB2"

subsection \<open>Names\<close>

fun digits :: "nat \<Rightarrow> nat \<Rightarrow> nat list" where
  "digits b n = (if b < 2 \<or> n < b then [n] else digits b (n div b) @ [n mod b])"

declare digits.simps [simp del]

definition digit_char :: "nat \<Rightarrow> char" where
  "digit_char d = (if d < 10 then char_of (48 + d) else char_of (87 + d))"

definition decimal :: "nat \<Rightarrow> string" where "decimal n = map digit_char (digits 10 n)"

definition hexadecimal :: "nat \<Rightarrow> string" where "hexadecimal n = map digit_char (digits 16 n)"

definition opCodeToString :: "(byte \<times> string) list" where
  "opCodeToString =
     [(STOP, ''STOP''), (ADD, ''ADD''), (MUL, ''MUL''), (SUB, ''SUB''), (DIV, ''DIV''), (SDIV, ''SDIV''),
      (MOD, ''MOD''), (SMOD, ''SMOD''), (EXP, ''EXP''), (NOT_op, ''NOT''), (LT, ''LT''), (GT, ''GT''),
      (SLT, ''SLT''), (SGT, ''SGT''), (EQ, ''EQ''), (ISZERO, ''ISZERO''), (SIGNEXTEND, ''SIGNEXTEND''),
      (AND_op, ''AND''), (OR_op, ''OR''), (XOR_op, ''XOR''), (BYTE, ''BYTE''), (SHL, ''SHL''),
      (SHR, ''SHR''), (SAR, ''SAR''), (ADDMOD, ''ADDMOD''), (MULMOD, ''MULMOD''), (SHA3, ''SHA3''),
      (ADDRESS, ''ADDRESS''), (BALANCE, ''BALANCE''), (ORIGIN, ''ORIGIN''), (CALLER, ''CALLER''),
      (CALLVALUE, ''CALLVALUE''), (CALLDATALOAD, ''CALLDATALOAD''), (CALLDATASIZE, ''CALLDATASIZE''),
      (CALLDATACOPY, ''CALLDATACOPY''), (CODESIZE, ''CODESIZE''), (CODECOPY, ''CODECOPY''),
      (GASPRICE, ''GASPRICE''), (EXTCODESIZE, ''EXTCODESIZE''), (EXTCODECOPY, ''EXTCODECOPY''),
      (RETURNDATASIZE, ''RETURNDATASIZE''), (RETURNDATACOPY, ''RETURNDATACOPY''),
      (EXTCODEHASH, ''EXTCODEHASH''), (BLOCKHASH, ''BLOCKHASH''), (COINBASE, ''COINBASE''),
      (TIMESTAMP, ''TIMESTAMP''), (NUMBER, ''NUMBER''), (DIFFICULTY, ''DIFFICULTY''),
      (GASLIMIT, ''GASLIMIT''), (POP, ''POP''), (MLOAD, ''MLOAD''), (MSTORE, ''MSTORE''),
      (MSTORE8, ''MSTORE8''), (SLOAD, ''SLOAD''), (SSTORE, ''SSTORE''), (JUMP, ''JUMP''),
      (JUMPI, ''JUMPI''), (PC, ''PC''), (MSIZE, ''MSIZE''), (GAS, ''GAS''), (JUMPDEST, ''JUMPDEST'')]
     @ map (\<lambda>n. (PUSHn n, ''PUSH'' @ decimal n)) [1..<33]
     @ map (\<lambda>n. (DUPn n, ''DUP'' @ decimal n)) [1..<17]
     @ map (\<lambda>n. (SWAPn n, ''SWAP'' @ decimal n)) [1..<17]
     @ map (\<lambda>n. (LOGn n, ''LOG'' @ decimal n)) [0..<5]
     @ [(CREATE, ''CREATE''), (CALL, ''CALL''), (RETURN, ''RETURN''), (CALLCODE, ''CALLCODE''),
      (DELEGATECALL, ''DELEGATECALL''), (CREATE2, ''CREATE2''), (STATICCALL, ''STATICCALL''),
      (REVERT, ''REVERT''), (SELFDESTRUCT, ''SELFDESTRUCT''), (PUSH_op, ''PUSH''), (DUP_op, ''DUP''),
      (SWAP_op, ''SWAP'')]"

definition OpCode_String :: "byte \<Rightarrow> string" where
  "OpCode_String opc =
     (let str = (case map_of opCodeToString opc of None \<Rightarrow> [] | Some s \<Rightarrow> s)
      in if str = [] then ''Missing opcode 0x'' @ hexadecimal (unat opc) else str)"

definition stringToOp :: "(string \<times> byte) list" where
  "stringToOp =
     [(''STOP'', STOP), (''ADD'', ADD), (''MUL'', MUL), (''SUB'', SUB), (''DIV'', DIV), (''SDIV'', SDIV),
      (''MOD'', MOD), (''SMOD'', SMOD), (''EXP'', EXP), (''NOT'', NOT_op), (''LT'', LT), (''GT'', GT),
      (''SLT'', SLT), (''SGT'', SGT), (''EQ'', EQ), (''ISZERO'', ISZERO), (''SIGNEXTEND'', SIGNEXTEND),
      (''AND'', AND_op), (''OR'', OR_op), (''XOR'', XOR_op), (''BYTE'', BYTE), (''SHL'', SHL),
      (''SHR'', SHR), (''SAR'', SAR), (''ADDMOD'', ADDMOD), (''MULMOD'', MULMOD), (''SHA3'', SHA3),
      (''ADDRESS'', ADDRESS), (''BALANCE'', BALANCE), (''ORIGIN'', ORIGIN), (''CALLER'', CALLER),
      (''CALLVALUE'', CALLVALUE), (''CALLDATALOAD'', CALLDATALOAD), (''CALLDATASIZE'', CALLDATASIZE),
      (''CALLDATACOPY'', CALLDATACOPY), (''DELEGATECALL'', DELEGATECALL), (''STATICCALL'', STATICCALL),
      (''CODESIZE'', CODESIZE), (''CODECOPY'', CODECOPY), (''GASPRICE'', GASPRICE),
      (''EXTCODESIZE'', EXTCODESIZE), (''EXTCODECOPY'', EXTCODECOPY), (''RETURNDATASIZE'', RETURNDATASIZE),
      (''RETURNDATACOPY'', RETURNDATACOPY), (''EXTCODEHASH'', EXTCODEHASH), (''BLOCKHASH'', BLOCKHASH),
      (''COINBASE'', COINBASE), (''TIMESTAMP'', TIMESTAMP), (''NUMBER'', NUMBER),
      (''DIFFICULTY'', DIFFICULTY), (''GASLIMIT'', GASLIMIT), (''POP'', POP), (''MLOAD'', MLOAD),
      (''MSTORE'', MSTORE), (''MSTORE8'', MSTORE8), (''SLOAD'', SLOAD), (''SSTORE'', SSTORE),
      (''JUMP'', JUMP), (''JUMPI'', JUMPI), (''PC'', PC), (''MSIZE'', MSIZE), (''GAS'', GAS),
      (''JUMPDEST'', JUMPDEST)]
     @ map (\<lambda>n. (''PUSH'' @ decimal n, PUSHn n)) [1..<33]
     @ map (\<lambda>n. (''DUP'' @ decimal n, DUPn n)) [1..<17]
     @ map (\<lambda>n. (''SWAP'' @ decimal n, SWAPn n)) [1..<17]
     @ map (\<lambda>n. (''LOG'' @ decimal n, LOGn n)) [0..<5]
     @ [(''CREATE'', CREATE), (''CREATE2'', CREATE2), (''CALL'', CALL), (''RETURN'', RETURN),
      (''CALLCODE'', CALLCODE), (''REVERT'', REVERT), (''SELFDESTRUCT'', SELFDESTRUCT)]"

definition StringToOp :: "string \<Rightarrow> byte" where
  "StringToOp str = (case map_of stringToOp str of None \<Rightarrow> 0 | Some opc \<Rightarrow> opc)"

section \<open>Jump table\<close>

text \<open>An opcode without entry is not valid.\<close>

record 's operation =
  op_execute :: "'s vst \<Rightarrow> 's res"
  op_gasCost :: "'s vst \<Rightarrow> uint64 \<Rightarrow> 's vst \<times> gas_result"
  op_validateStack :: "stack \<Rightarrow> vm_error option"
  op_memorySize :: "(stack \<Rightarrow> int option) option"
  op_halts :: bool
  op_jumps :: bool
  op_writes :: bool
  op_reverts :: bool
  op_returns :: bool

definition oper ::
  "('s vst \<Rightarrow> 's res) \<Rightarrow> ('s vst \<Rightarrow> uint64 \<Rightarrow> 's vst \<times> gas_result) \<Rightarrow> (stack \<Rightarrow> vm_error option) \<Rightarrow> 's operation" where
  "oper ex gas v =
     \<lparr>op_execute = ex, op_gasCost = gas, op_validateStack = v, op_memorySize = None, op_halts = False,
      op_jumps = False, op_writes = False, op_reverts = False, op_returns = False\<rparr>"

definition frontier_arith :: "'s env \<Rightarrow> (byte \<times> 's operation) list" where
  "frontier_arith E =
     [(STOP, (oper opStop (constGasFunc 0) (makeStackFunc 0 0))\<lparr>op_halts := True\<rparr>),
      (ADD, oper opAdd (constGasFunc GasFastestStep) (makeStackFunc 2 1)),
      (MUL, oper opMul (constGasFunc GasFastStep) (makeStackFunc 2 1)),
      (SUB, oper opSub (constGasFunc GasFastestStep) (makeStackFunc 2 1)),
      (DIV, oper opDiv (constGasFunc GasFastStep) (makeStackFunc 2 1)),
      (SDIV, oper opSdiv (constGasFunc GasFastStep) (makeStackFunc 2 1)),
      (MOD, oper opMod (constGasFunc GasFastStep) (makeStackFunc 2 1)),
      (SMOD, oper opSmod (constGasFunc GasFastStep) (makeStackFunc 2 1)),
      (ADDMOD, oper opAddmod (constGasFunc GasMidStep) (makeStackFunc 3 1)),
      (MULMOD, oper opMulmod (constGasFunc GasMidStep) (makeStackFunc 3 1)),
      (EXP, oper opExp (gasExp E) (makeStackFunc 2 1)),
      (SIGNEXTEND, oper opSignExtend (constGasFunc GasFastStep) (makeStackFunc 2 1))]"

definition frontier_compare :: "'s env \<Rightarrow> (byte \<times> 's operation) list" where
  "frontier_compare E =
     [(LT, oper opLt (constGasFunc GasFastestStep) (makeStackFunc 2 1)),
      (GT, oper opGt (constGasFunc GasFastestStep) (makeStackFunc 2 1)),
      (SLT, oper opSlt (constGasFunc GasFastestStep) (makeStackFunc 2 1)),
      (SGT, oper opSgt (constGasFunc GasFastestStep) (makeStackFunc 2 1)),
      (EQ, oper opEq (constGasFunc GasFastestStep) (makeStackFunc 2 1)),
      (ISZERO, oper opIszero (constGasFunc GasFastestStep) (makeStackFunc 1 1)),
      (AND_op, oper opAnd (constGasFunc GasFastestStep) (makeStackFunc 2 1)),
      (XOR_op, oper opXor (constGasFunc GasFastestStep) (makeStackFunc 2 1)),
      (OR_op, oper opOr (constGasFunc GasFastestStep) (makeStackFunc 2 1)),
      (NOT_op, oper opNot (constGasFunc GasFastestStep) (makeStackFunc 1 1)),
      (BYTE, oper opByte (constGasFunc GasFastestStep) (makeStackFunc 2 1)),
      (SHA3, (oper (opSha3 E) gasSha3 (makeStackFunc 2 1))\<lparr>op_memorySize := Some memorySha3\<rparr>)]"

definition frontier_env :: "'s env \<Rightarrow> (byte \<times> 's operation) list" where
  "frontier_env E =
     [(ADDRESS, oper opAddress (constGasFunc GasQuickStep) (makeStackFunc 0 1)),
      (BALANCE, oper (opBalance E) (gasBalance E) (makeStackFunc 1 1)),
      (ORIGIN, oper (opOrigin E) (constGasFunc GasQuickStep) (makeStackFunc 0 1)),
      (CALLER, oper opCaller (constGasFunc GasQuickStep) (makeStackFunc 0 1)),
      (CALLVALUE, oper opCallValue (constGasFunc GasQuickStep) (makeStackFunc 0 1)),
      (CALLDATALOAD, oper opCallDataLoad (constGasFunc GasFastestStep) (makeStackFunc 1 1)),
      (CALLDATASIZE, oper opCallDataSize (constGasFunc GasQuickStep) (makeStackFunc 0 1)),
      (CALLDATACOPY, (oper opCallDataCopy gasCallDataCopy (makeStackFunc 3 0))\<lparr>op_memorySize := Some memoryCallDataCopy\<rparr>),
      (CODESIZE, oper opCodeSize (constGasFunc GasQuickStep) (makeStackFunc 0 1)),
      (CODECOPY, (oper opCodeCopy gasCodeCopy (makeStackFunc 3 0))\<lparr>op_memorySize := Some memoryCodeCopy\<rparr>),
      (GASPRICE, oper (opGasprice E) (constGasFunc GasQuickStep) (makeStackFunc 0 1)),
      (EXTCODESIZE, oper (opExtCodeSize E) (gasExtCodeSize E) (makeStackFunc 1 1)),
      (EXTCODECOPY, (oper (opExtCodeCopy E) (gasExtCodeCopy E) (makeStackFunc 4 0))\<lparr>op_memorySize := Some memoryExtCodeCopy\<rparr>)]"

definition frontier_block :: "'s env \<Rightarrow> (byte \<times> 's operation) list" where
  "frontier_block E =
     [(BLOCKHASH, oper (opBlockhash E) (constGasFunc GasExtStep) (makeStackFunc 1 1)),
      (COINBASE, oper (opCoinbase E) (constGasFunc GasQuickStep) (makeStackFunc 0 1)),
      (TIMESTAMP, oper (opTimestamp E) (constGasFunc GasQuickStep) (makeStackFunc 0 1)),
      (NUMBER, oper (opNumber E) (constGasFunc GasQuickStep) (makeStackFunc 0 1)),
      (DIFFICULTY, oper (opDifficulty E) (constGasFunc GasQuickStep) (makeStackFunc 0 1)),
      (GASLIMIT, oper (opGasLimit E) (constGasFunc GasQuickStep) (makeStackFunc 0 1))]"

definition frontier_mem :: "'s env \<Rightarrow> (byte \<times> 's operation) list" where
  "frontier_mem E =
     [(POP, oper opPop (constGasFunc GasQuickStep) (makeStackFunc 1 0)),
      (MLOAD, (oper opMload gasMLoad (makeStackFunc 1 1))\<lparr>op_memorySize := Some memoryMLoad\<rparr>),
      (MSTORE, (oper opMstore gasMStore (makeStackFunc 2 0))\<lparr>op_memorySize := Some memoryMStore\<rparr>),
      (MSTORE8, (oper opMstore8 gasMStore8 (makeStackFunc 2 0))\<lparr>op_memorySize := Some memoryMStore8\<rparr>),
      (SLOAD, oper (opSload E) (gasSLoad E) (makeStackFunc 1 1)),
      (SSTORE, (oper (opSstore E) (gasSStore E) (makeStackFunc 2 0))\<lparr>op_writes := True\<rparr>),
      (JUMP, (oper opJump (constGasFunc GasMidStep) (makeStackFunc 1 0))\<lparr>op_jumps := True\<rparr>),
      (JUMPI, (oper opJumpi (constGasFunc GasSlowStep) (makeStackFunc 2 0))\<lparr>op_jumps := True\<rparr>),
      (PC, oper opPc (constGasFunc GasQuickStep) (makeStackFunc 0 1)),
      (MSIZE, oper opMsize (constGasFunc GasQuickStep) (makeStackFunc 0 1)),
      (GAS, oper opGas (constGasFunc GasQuickStep) (makeStackFunc 0 1)),
      (JUMPDEST, oper opJumpdest (constGasFunc JumpdestGas) (makeStackFunc 0 0))]"

definition frontier_push :: "(byte \<times> 's operation) list" where
  "frontier_push = map (\<lambda>n. (PUSHn n, oper (makePush (word_of_nat n) n) gasPush (makeStackFunc 0 1))) [1..<33]"

definition frontier_dup :: "(byte \<times> 's operation) list" where
  "frontier_dup = map (\<lambda>n. (DUPn n, oper (makeDup n) gasDup (makeDupStackFunc n))) [1..<17]"

definition frontier_swap :: "(byte \<times> 's operation) list" where
  "frontier_swap = map (\<lambda>n. (SWAPn n, oper (makeSwap n) gasSwap (makeSwapStackFunc (n + 1)))) [1..<17]"

definition frontier_log :: "'s env \<Rightarrow> (byte \<times> 's operation) list" where
  "frontier_log E =
     map (\<lambda>n. (LOGn n, (oper (makeLog E n) (makeGasLog (word_of_nat n)) (makeStackFunc (n + 2) 0))
                         \<lparr>op_memorySize := Some memoryLog, op_writes := True\<rparr>)) [0..<5]"

definition frontier_call :: "'s env \<Rightarrow> 's calls \<Rightarrow> (byte \<times> 's operation) list" where
  "frontier_call E C =
     [(CREATE, (oper (opCreate E C) gasCreate (makeStackFunc 3 1))
         \<lparr>op_memorySize := Some memoryCreate, op_writes := True, op_returns := True\<rparr>),
      (CALL, (oper (opCall C) (gasCall E) (makeStackFunc 7 1))
         \<lparr>op_memorySize := Some memoryCall, op_returns := True\<rparr>),
      (CALLCODE, (oper (opCallCode C) (gasCallCode E) (makeStackFunc 7 1))
         \<lparr>op_memorySize := Some memoryCall, op_returns := True\<rparr>),
      (RETURN, (oper opReturn gasReturn (makeStackFunc 2 0))
         \<lparr>op_memorySize := Some memoryReturn, op_halts := True\<rparr>),
      (SELFDESTRUCT, (oper (opSuicide E) (gasSuicide E) (makeStackFunc 1 0))
         \<lparr>op_halts := True, op_writes := True\<rparr>)]"

definition newFrontierInstructionSet :: "'s env \<Rightarrow> 's calls \<Rightarrow> (byte \<times> 's operation) list" where
  "newFrontierInstructionSet E C =
     frontier_arith E @ frontier_compare E @ frontier_env E @ frontier_block E @ frontier_mem E @ frontier_push
     @ frontier_dup @ frontier_swap @ frontier_log E @ frontier_call E C"

text \<open>The later tables assign further entries; none of the opcodes had one before.\<close>

definition newHomesteadInstructionSet :: "'s env \<Rightarrow> 's calls \<Rightarrow> (byte \<times> 's operation) list" where
  "newHomesteadInstructionSet E C =
     (DELEGATECALL, (oper (opDelegateCall C) (gasDelegateCall E) (makeStackFunc 6 1))
        \<lparr>op_memorySize := Some memoryDelegateCall, op_returns := True\<rparr>)
     # newFrontierInstructionSet E C"

definition newByzantiumInstructionSet :: "'s env \<Rightarrow> 's calls \<Rightarrow> (byte \<times> 's operation) list" where
  "newByzantiumInstructionSet E C =
     [(STATICCALL, (oper (opStaticCall C) (gasStaticCall E) (makeStackFunc 6 1))
         \<lparr>op_memorySize := Some memoryStaticCall, op_returns := True\<rparr>),
      (RETURNDATASIZE, oper opReturnDataSize (constGasFunc GasQuickStep) (makeStackFunc 0 1)),
      (RETURNDATACOPY, (oper opReturnDataCopy gasReturnDataCopy (makeStackFunc 3 0))
         \<lparr>op_memorySize := Some memoryReturnDataCopy\<rparr>),
      (REVERT, (oper opRevert gasRevert (makeStackFunc 2 0))
         \<lparr>op_memorySize := Some memoryRevert, op_reverts := True, op_returns := True\<rparr>)]
     @ newHomesteadInstructionSet E C"

definition newConstantinopleInstructionSet :: "'s env \<Rightarrow> 's calls \<Rightarrow> (byte \<times> 's operation) list" where
  "newConstantinopleInstructionSet E C =
     [(SHL, oper opSHL (constGasFunc GasFastestStep) (makeStackFunc 2 1)),
      (SHR, oper opSHR (constGasFunc GasFastestStep) (makeStackFunc 2 1)),
      (SAR, oper opSAR (constGasFunc GasFastestStep) (makeStackFunc 2 1)),
      (EXTCODEHASH, oper (opExtCodeHash E) (gasExtCodeHash E) (makeStackFunc 1 1)),
      (CREATE2, (oper (opCreate2 C) gasCreate2 (makeStackFunc 4 1))
         \<lparr>op_memorySize := Some memoryCreate2, op_writes := True, op_returns := True\<rparr>)]
     @ newByzantiumInstructionSet E C"

text \<open>The choice of \<open>NewEVMInterpreter\<close>.\<close>

definition JumpTable :: "'s env \<Rightarrow> 's calls \<Rightarrow> (byte \<times> 's operation) list" where
  "JumpTable E C =
     (if en_IsConstantinople E then newConstantinopleInstructionSet E C
      else if en_IsByzantium E then newByzantiumInstructionSet E C
      else if en_IsHomestead E then newHomesteadInstructionSet E C
      else newFrontierInstructionSet E C)"

end
