(* ===== verification/Evm_Precompiled.thy ===== *)
theory Evm_Precompiled
  imports Evm_Gas
begin

text \<open>
  The precompiled contracts, \<open>src/core/vm/contracts.go\<close>, and the checks of signature values of
  \<open>src/crypto/signature.go\<close>. The hash functions, the recovery of a public key and the arithmetic of the
  pairing curve are parameters; curve points are given by their encodings.
\<close>

record crypto_ops =
  cr_keccak :: "bytes \<Rightarrow> bytes"
  cr_sha256 :: "bytes \<Rightarrow> bytes"
  cr_ripemd160 :: "bytes \<Rightarrow> bytes"
  cr_RecoverPubkey :: "bytes \<Rightarrow> bytes \<Rightarrow> bytes option"
  cr_isG1 :: "bytes \<Rightarrow> bool"
  cr_isG2 :: "bytes \<Rightarrow> bool"
  cr_Add :: "bytes \<Rightarrow> bytes \<Rightarrow> bytes"
  cr_ScalarMult :: "bytes \<Rightarrow> int \<Rightarrow> bytes"
  cr_PairingCheck :: "bytes list \<Rightarrow> bytes list \<Rightarrow> bool"

section \<open>Helpers\<close>

text \<open>\<open>vm_getData\<close> on 64-bit numbers: the end wraps around, and a slice with its end before its start panics.\<close>

definition vm_getData :: "bytes \<Rightarrow> uint64 \<Rightarrow> uint64 \<Rightarrow> bytes option" where
  "vm_getData data start0 sz =
     (let len = word_of_nat (length data);
          start = (if start0 > len then len else start0);
          end0 = start + sz;
          e = (if end0 > len then len else end0)
      in if e < start then None
         else Some (RightPadBytes (take (unat e - unat start) (drop (unat start) data)) (unat sz)))"

definition allZero :: "bytes \<Rightarrow> bool" where
  "allZero b = list_all (\<lambda>x. x = 0) b"

definition LeftPadBytes :: "bytes \<Rightarrow> nat \<Rightarrow> bytes" where
  "LeftPadBytes b l = (if l \<le> length b then b else replicate (l - length b) 0 @ b)"

definition secp256k1N :: int where
  "secp256k1N = 0xfffffffffffffffffffffffffffffffebaaedce6af48a03bbfd25e8cd0364141"

definition secp256k1halfN :: int where "secp256k1halfN = secp256k1N div 2"

definition ValidateSignatureValues :: "byte \<Rightarrow> int \<Rightarrow> int \<Rightarrow> bool \<Rightarrow> bool" where
  "ValidateSignatureValues v r s homestead =
     (if r < 1 \<or> s < 1 then False
      else if homestead \<and> s > secp256k1halfN then False
      else r < secp256k1N \<and> s < secp256k1N \<and> (v = 0 \<or> v = 1))"

text \<open>The last 20 bytes of the hash of a public key without its first byte.\<close>

definition PubKeyToAddress :: "(bytes \<Rightarrow> bytes) \<Rightarrow> bytes \<Rightarrow> address" where
  "PubKeyToAddress keccak pub = drop 12 (HashBytes keccak (drop 1 pub))"

section \<open>Hashes, signatures and copies\<close>

definition EcrecoverGas :: uint64 where "EcrecoverGas = 3000"
definition Sha256BaseGas :: uint64 where "Sha256BaseGas = 60"
definition Sha256PerWordGas :: uint64 where "Sha256PerWordGas = 12"
definition Ripemd160BaseGas :: uint64 where "Ripemd160BaseGas = 600"
definition Ripemd160PerWordGas :: uint64 where "Ripemd160PerWordGas = 120"
definition IdentityBaseGas :: uint64 where "IdentityBaseGas = 15"
definition IdentityPerWordGas :: uint64 where "IdentityPerWordGas = 3"
definition ModExpQuadCoeffDiv :: int where "ModExpQuadCoeffDiv = 20"
definition Bn256AddGas :: uint64 where "Bn256AddGas = 500"
definition Bn256ScalarMulGas :: uint64 where "Bn256ScalarMulGas = 40000"
definition Bn256PairingBaseGas :: uint64 where "Bn256PairingBaseGas = 100000"
definition Bn256PairingPerPointGas :: uint64 where "Bn256PairingPerPointGas = 80000"

type_synonym run_result = "bytes \<times> vm_error option"
type_synonym precompiled = "(bytes \<Rightarrow> uint64) \<times> (bytes \<Rightarrow> run_result)"

definition ecrecover_RequiredGas :: "bytes \<Rightarrow> uint64" where "ecrecover_RequiredGas input = EcrecoverGas"

definition ecrecover_Run :: "crypto_ops \<Rightarrow> bytes \<Rightarrow> run_result" where
  "ecrecover_Run K input0 =
     (let input = RightPadBytes input0 128;
          r = big_SetBytes (take 32 (drop 64 input));
          s = big_SetBytes (take 32 (drop 96 input));
          v = input ! 63 - 27
      in if \<not> allZero (take 31 (drop 32 input)) \<or> \<not> ValidateSignatureValues v r s False then ([], None)
         else case cr_RecoverPubkey K (take 32 input) (take 64 (drop 64 input) @ [v]) of
                None \<Rightarrow> ([], None)
              | Some pub \<Rightarrow> (LeftPadBytes (PubKeyToAddress (cr_keccak K) pub) 32, None))"

definition word_gas :: "bytes \<Rightarrow> uint64 \<Rightarrow> uint64 \<Rightarrow> uint64" where
  "word_gas input perWord base = word_of_nat (length input + 31) div 32 * perWord + base"

definition sha256hash_RequiredGas :: "bytes \<Rightarrow> uint64" where
  "sha256hash_RequiredGas input = word_gas input Sha256PerWordGas Sha256BaseGas"

definition sha256hash_Run :: "crypto_ops \<Rightarrow> bytes \<Rightarrow> run_result" where
  "sha256hash_Run K input = (cr_sha256 K input, None)"

definition ripemd160hash_RequiredGas :: "bytes \<Rightarrow> uint64" where
  "ripemd160hash_RequiredGas input = word_gas input Ripemd160PerWordGas Ripemd160BaseGas"

definition ripemd160hash_Run :: "crypto_ops \<Rightarrow> bytes \<Rightarrow> run_result" where
  "ripemd160hash_Run K input = (LeftPadBytes (cr_ripemd160 K input) 32, None)"

definition dataCopy_RequiredGas :: "bytes \<Rightarrow> uint64" where
  "dataCopy_RequiredGas input = word_gas input IdentityPerWordGas IdentityBaseGas"

definition dataCopy_Run :: "bytes \<Rightarrow> run_result" where
  "dataCopy_Run input = (input, None)"

section \<open>Modular exponentiation\<close>

definition MaxUint64 :: uint64 where "MaxUint64 = - 1"

text \<open>The three lengths at the head of the input.\<close>

definition head_len :: "nat \<Rightarrow> bytes \<Rightarrow> int" where
  "head_len i input = (case vm_getData input (word_of_nat (32 * i)) 32 of None \<Rightarrow> 0 | Some b \<Rightarrow> big_SetBytes b)"

definition modexp_complexity :: "int \<Rightarrow> int" where
  "modexp_complexity x =
     (if x \<le> 64 then x * x
      else if x \<le> 1024 then big_Div (x * x) 4 + (96 * x - 3072)
      else big_Div (x * x) 16 + (480 * x - 199680))"

definition bigModExp_RequiredGas :: "bytes \<Rightarrow> uint64" where
  "bigModExp_RequiredGas input0 =
     (let baseLen = head_len 0 input0; expLen = head_len 1 input0; modLen = head_len 2 input0;
          input = drop 96 input0;
          expHead = (if int (length input) \<le> baseLen then 0
                     else case vm_getData input (Uint64 baseLen) (if expLen > 32 then 32 else Uint64 expLen) of
                            None \<Rightarrow> 0
                          | Some b \<Rightarrow> big_SetBytes b);
          bitlen = big_BitLen expHead;
          msb = (if bitlen > 0 then int bitlen - 1 else 0);
          adjExpLen = (if expLen > 32 then 8 * (expLen - 32) else 0) + msb;
          gas = big_Div (modexp_complexity (max modLen baseLen) * max adjExpLen 1) ModExpQuadCoeffDiv
      in if big_BitLen gas > 64 then MaxUint64 else Uint64 gas)"

definition bigModExp_Run :: "bytes \<Rightarrow> run_result" where
  "bigModExp_Run input0 =
     (let baseLen = Uint64 (head_len 0 input0); expLen = Uint64 (head_len 1 input0);
          modLen = Uint64 (head_len 2 input0); input = drop 96 input0
      in if baseLen = 0 \<and> modLen = 0 then ([], None)
         else case (vm_getData input 0 baseLen, vm_getData input baseLen expLen, vm_getData input (baseLen + expLen) modLen) of
                (Some b, Some e, Some m) \<Rightarrow>
                  (let md = big_SetBytes m
                   in if big_BitLen md = 0 then (LeftPadBytes [] (unat modLen), None)
                      else (LeftPadBytes (big_bytes (nat (big_SetBytes b ^ nat (big_SetBytes e) mod md))) (unat modLen),
                            None))
              | _ \<Rightarrow> ([], Some VmPanic))"

section \<open>Pairing curve\<close>

text \<open>The errors: 0 for a point that is not on the curve, 1 for a bad input size.\<close>

definition newCurvePoint :: "crypto_ops \<Rightarrow> bytes \<Rightarrow> bytes option" where
  "newCurvePoint K blob = (if cr_isG1 K blob then Some blob else None)"

definition newTwistPoint :: "crypto_ops \<Rightarrow> bytes \<Rightarrow> bytes option" where
  "newTwistPoint K blob = (if cr_isG2 K blob then Some blob else None)"

definition slice_of :: "bytes \<Rightarrow> nat \<Rightarrow> nat \<Rightarrow> bytes" where
  "slice_of input i n = (case vm_getData input (word_of_nat i) (word_of_nat n) of None \<Rightarrow> [] | Some b \<Rightarrow> b)"

definition bn256Add_RequiredGas :: "bytes \<Rightarrow> uint64" where "bn256Add_RequiredGas input = Bn256AddGas"

definition bn256Add_Run :: "crypto_ops \<Rightarrow> bytes \<Rightarrow> run_result" where
  "bn256Add_Run K input =
     (case newCurvePoint K (slice_of input 0 64) of
        None \<Rightarrow> ([], Some (ErrPrecompile 0))
      | Some x \<Rightarrow>
          (case newCurvePoint K (slice_of input 64 64) of
             None \<Rightarrow> ([], Some (ErrPrecompile 0))
           | Some y \<Rightarrow> (cr_Add K x y, None)))"

definition bn256ScalarMul_RequiredGas :: "bytes \<Rightarrow> uint64" where
  "bn256ScalarMul_RequiredGas input = Bn256ScalarMulGas"

definition bn256ScalarMul_Run :: "crypto_ops \<Rightarrow> bytes \<Rightarrow> run_result" where
  "bn256ScalarMul_Run K input =
     (case newCurvePoint K (slice_of input 0 64) of
        None \<Rightarrow> ([], Some (ErrPrecompile 0))
      | Some p \<Rightarrow> (cr_ScalarMult K p (big_SetBytes (slice_of input 64 32)), None))"

definition true32Byte :: bytes where "true32Byte = replicate 31 0 @ [1]"
definition false32Byte :: bytes where "false32Byte = replicate 32 0"

definition bn256Pairing_RequiredGas :: "bytes \<Rightarrow> uint64" where
  "bn256Pairing_RequiredGas input =
     Bn256PairingBaseGas + word_of_nat (length input div 192) * Bn256PairingPerPointGas"

text \<open>The loop over the pairs of points, 192 bytes each.\<close>

fun pairing_points :: "crypto_ops \<Rightarrow> bytes \<Rightarrow> (bytes list \<times> bytes list) option" where
  "pairing_points K input =
     (if length input < 192 then Some ([], [])
      else case (newCurvePoint K (take 64 input), newTwistPoint K (take 128 (drop 64 input))) of
             (Some c, Some t) \<Rightarrow>
               map_option (\<lambda>(cs, ts). (c # cs, t # ts)) (pairing_points K (drop 192 input))
           | _ \<Rightarrow> None)"

declare pairing_points.simps [simp del]

definition bn256Pairing_Run :: "crypto_ops \<Rightarrow> bytes \<Rightarrow> run_result" where
  "bn256Pairing_Run K input =
     (if length input mod 192 > 0 then ([], Some (ErrPrecompile 1))
      else case pairing_points K input of
             None \<Rightarrow> ([], Some (ErrPrecompile 0))
           | Some (cs, ts) \<Rightarrow> (if cr_PairingCheck K cs ts then true32Byte else false32Byte, None))"

section \<open>Tables\<close>

definition PrecompiledContractsHomestead :: "crypto_ops \<Rightarrow> address \<rightharpoonup> precompiled" where
  "PrecompiledContractsHomestead K =
     map_of [(BytesToAddress [1], (ecrecover_RequiredGas, ecrecover_Run K)),
             (BytesToAddress [2], (sha256hash_RequiredGas, sha256hash_Run K)),
             (BytesToAddress [3], (ripemd160hash_RequiredGas, ripemd160hash_Run K)),
             (BytesToAddress [4], (dataCopy_RequiredGas, dataCopy_Run))]"

definition PrecompiledContractsByzantium :: "crypto_ops \<Rightarrow> address \<rightharpoonup> precompiled" where
  "PrecompiledContractsByzantium K =
     map_of [(BytesToAddress [1], (ecrecover_RequiredGas, ecrecover_Run K)),
             (BytesToAddress [2], (sha256hash_RequiredGas, sha256hash_Run K)),
             (BytesToAddress [3], (ripemd160hash_RequiredGas, ripemd160hash_Run K)),
             (BytesToAddress [4], (dataCopy_RequiredGas, dataCopy_Run)),
             (BytesToAddress [5], (bigModExp_RequiredGas, bigModExp_Run)),
             (BytesToAddress [6], (bn256Add_RequiredGas, bn256Add_Run K)),
             (BytesToAddress [7], (bn256ScalarMul_RequiredGas, bn256ScalarMul_Run K)),
             (BytesToAddress [8], (bn256Pairing_RequiredGas, bn256Pairing_Run K))]"

definition RunPrecompiledContract :: "precompiled \<Rightarrow> bytes \<Rightarrow> contract \<Rightarrow> contract \<times> bytes \<times> vm_error option" where
  "RunPrecompiledContract p input c =
     (case UseGas (fst p input) c of
        (c', paid) \<Rightarrow>
          if paid then (case snd p input of (ret, err) \<Rightarrow> (c', ret, err)) else (c', [], Some ErrOutOfGas))"

end
