(* ===== verification/Evm_Run.thy ===== *)
theory Evm_Run
  imports Evm_Table Evm_Precompiled
begin

text \<open>
  The virtual machine, fifth part: the interpreter loop (\<open>src/core/vm/interpreter.go\<close>), the calls
  between contracts (\<open>evm.go\<close>) and the context in which the chain runs it (\<open>src/core/svm/evm\<close>). The loop
  takes a number of rounds, which nested calls share. Cancellation from another thread, tracing and
  preimage recording are left out.
\<close>

section \<open>Interpreter\<close>

definition enforceRestrictions :: "'s env \<Rightarrow> byte \<Rightarrow> 's operation \<Rightarrow> 's vst \<Rightarrow> vm_error option" where
  "enforceRestrictions E opc opn st =
     (if en_IsByzantium E \<and> ev_readOnly (vs_evm st)
      then if op_writes opn then Some ErrWriteProtection
           else if opc = CALL
           then (case stack_Back (vs_stack st) 2 of
                   None \<Rightarrow> Some VmPanic
                 | Some v \<Rightarrow> if big_BitLen v > 0 then Some ErrWriteProtection else None)
           else None
      else None)"

definition required_memory :: "'s operation \<Rightarrow> stack \<Rightarrow> gas_result" where
  "required_memory opn s =
     (case op_memorySize opn of
        None \<Rightarrow> Inr 0
      | Some f \<Rightarrow>
          (case f s of
             None \<Rightarrow> Inl VmPanic
           | Some v \<Rightarrow>
               (case bigUint64 v of
                  (memSize, overflow) \<Rightarrow>
                    if overflow then Inl ErrGasUintOverflow else mul_gas (toWordSize memSize) 32)))"

text \<open>Memory size, gas and expansion, up to the execution of the instruction.\<close>

definition prepare :: "'s operation \<Rightarrow> 's vst \<Rightarrow> 's vst \<times> vm_error option" where
  "prepare opn st =
     (case required_memory opn (vs_stack st) of
        Inl e \<Rightarrow> (st, Some e)
      | Inr memorySize \<Rightarrow>
          (case op_gasCost opn st memorySize of
             (st1, Inl e) \<Rightarrow> (st1, Some (if fatal e then e else ErrOutOfGas))
           | (st1, Inr cost) \<Rightarrow>
               (case UseGas cost (vs_contract st1) of
                  (c, paid) \<Rightarrow>
                    if \<not> paid then (st1, Some ErrOutOfGas)
                    else (st1\<lparr>vs_contract := c,
                             vs_mem := (if memorySize > 0 then mem_Resize memorySize (vs_mem st1) else vs_mem st1)\<rparr>,
                          None))))"

datatype outcome = Continue | Finished bytes "vm_error option"

definition run_step :: "'s env \<Rightarrow> 's calls \<Rightarrow> 's vst \<Rightarrow> 's vst \<times> outcome" where
  "run_step E C st =
     (let opc = GetOp (vs_contract st) (vs_pc st)
      in case map_of (JumpTable E C) opc of
           None \<Rightarrow> (st, Finished [] (Some (ErrInvalidOpcode opc)))
         | Some opn \<Rightarrow>
             (case op_validateStack opn (vs_stack st) of
                Some e \<Rightarrow> (st, Finished [] (Some e))
              | None \<Rightarrow>
                  (case enforceRestrictions E opc opn st of
                     Some e \<Rightarrow> (st, Finished [] (Some e))
                   | None \<Rightarrow>
                       (case prepare opn st of
                          (st2, Some e) \<Rightarrow> (st2, Finished [] (Some e))
                        | (st2, None) \<Rightarrow>
                            (case op_execute opn st2 of
                               (st3, r, err) \<Rightarrow>
                                 (let st4 = (if op_returns opn
                                             then st3\<lparr>vs_evm := (vs_evm st3)\<lparr>ev_returnData := r\<rparr>\<rparr> else st3)
                                  in case err of
                                       Some e \<Rightarrow> (st4, Finished [] (Some e))
                                     | None \<Rightarrow>
                                         if op_reverts opn then (st4, Finished r (Some ErrExecutionReverted))
                                         else if op_halts opn then (st4, Finished r None)
                                         else if op_jumps opn then (st4, Continue)
                                         else (st4\<lparr>vs_pc := vs_pc st4 + 1\<rparr>, Continue)))))))"

text \<open>\<open>Run\<close> over a given loop; the depth and the read-only flag are restored on return.\<close>

type_synonym 's loop = "'s vst \<Rightarrow> 's vst \<times> bytes \<times> vm_error option"

definition Run ::
  "'s loop \<Rightarrow> 's evm \<Rightarrow> contract \<Rightarrow> bytes \<Rightarrow> bool \<Rightarrow> 's evm \<times> contract \<times> bytes \<times> vm_error option" where
  "Run loop ev c input readOnly =
     (let ev1 = ev\<lparr>ev_depth := Suc (ev_depth ev), ev_readOnly := ev_readOnly ev \<or> readOnly, ev_returnData := []\<rparr>
      in case (if ct_Code c = [] then (ev1, c, [], None)
               else (case loop \<lparr>vs_pc = 0, vs_evm = ev1, vs_contract = c\<lparr>ct_Input := input\<rparr>, vs_mem = NewMemory,
                                vs_stack = []\<rparr> of
                       (st, ret, err) \<Rightarrow> (vs_evm st, vs_contract st, ret, err))) of
           (ev2, c2, ret, err) \<Rightarrow>
             (ev2\<lparr>ev_depth := ev_depth ev2 - 1, ev_readOnly := (if readOnly \<and> \<not> ev_readOnly ev then False else ev_readOnly ev2)\<rparr>,
              c2, ret, err))"

section \<open>Calls between contracts\<close>

definition run ::
  "'s loop \<Rightarrow> 's env \<Rightarrow> 's evm \<Rightarrow> contract \<Rightarrow> bytes \<Rightarrow> bool \<Rightarrow> 's evm \<times> contract \<times> bytes \<times> vm_error option" where
  "run loop E ev c input readOnly =
     (case (case ct_CodeAddr c of None \<Rightarrow> None | Some a \<Rightarrow> en_precompiles E a) of
        Some p \<Rightarrow> (case RunPrecompiledContract p input c of (c', ret, err) \<Rightarrow> (ev, c', ret, err))
      | None \<Rightarrow> Run loop ev c input readOnly)"

definition CallCreateDepth :: nat where "CallCreateDepth = 1024"

text \<open>
  The common end of the calls: on an error the state goes back to the snapshot, and all gas is lost
  unless the contract reverted.
\<close>

definition settle ::
  "'s env \<Rightarrow> nat \<Rightarrow> 's evm \<times> contract \<times> bytes \<times> vm_error option \<Rightarrow> 's evm \<times> bytes \<times> uint64 \<times> vm_error option" where
  "settle E snapshot r =
     (case r of
        (ev, c, ret, err) \<Rightarrow>
          (case err of
             None \<Rightarrow> (ev, ret, ct_Gas c, None)
           | Some e \<Rightarrow>
               if fatal e then (ev, ret, ct_Gas c, Some e)
               else (case db_RevertToSnapshot (en_db E) snapshot (ev_StateDB ev) of
                       None \<Rightarrow> (ev, ret, ct_Gas c, Some VmPanic)
                     | Some d \<Rightarrow>
                         (ev\<lparr>ev_StateDB := d\<rparr>, ret, (if e \<noteq> ErrExecutionReverted then 0 else ct_Gas c), Some e))))"

definition with_code :: "'s env \<Rightarrow> 's evm \<Rightarrow> address \<Rightarrow> contract \<Rightarrow> 's evm \<times> contract" where
  "with_code E ev addr c =
     (case db_GetCodeHash (en_db E) addr (ev_StateDB ev) of
        (d1, h) \<Rightarrow>
          (case db_GetCode (en_db E) addr d1 of
             (d2, code) \<Rightarrow> (ev\<lparr>ev_StateDB := d2\<rparr>, SetCallCode addr h code c)))"

definition evm_Call ::
  "'s loop \<Rightarrow> 's env \<Rightarrow> 's evm \<Rightarrow> address \<Rightarrow> address \<Rightarrow> bytes \<Rightarrow> uint64 \<Rightarrow> int \<Rightarrow> 's evm \<times> bytes \<times> uint64 \<times> vm_error option" where
  "evm_Call loop E ev caller addr input gas value =
     (if en_NoRecursion E \<and> ev_depth ev > 0 then (ev, [], gas, None)
      else if ev_depth ev > CallCreateDepth then (ev, [], gas, Some ErrDepth)
      else case en_CanTransfer E caller value (ev_StateDB ev) of
        (d0, can) \<Rightarrow>
          (let ev0 = ev\<lparr>ev_StateDB := d0\<rparr>
           in if \<not> can then (ev0, [], gas, Some ErrInsufficientBalance)
              else let snapshot = db_Snapshot (en_db E) d0
                   in case db_Exist (en_db E) addr d0 of
                        (d1, ex) \<Rightarrow>
                          if \<not> ex \<and> en_precompiles E addr = None \<and> en_IsEIP158 E \<and> value = 0
                          then (ev\<lparr>ev_StateDB := d1\<rparr>, [], gas, None)
                          else let d2 = (if ex then d1 else db_CreateAccount (en_db E) addr d1);
                                   d3 = en_Transfer E caller addr value d2;
                                   (ev3, c) = with_code E (ev\<lparr>ev_StateDB := d3\<rparr>) addr (NewContract caller addr value gas)
                               in settle E snapshot (run loop E ev3 c input False)))"

definition evm_CallCode ::
  "'s loop \<Rightarrow> 's env \<Rightarrow> 's evm \<Rightarrow> address \<Rightarrow> address \<Rightarrow> bytes \<Rightarrow> uint64 \<Rightarrow> int \<Rightarrow> 's evm \<times> bytes \<times> uint64 \<times> vm_error option" where
  "evm_CallCode loop E ev caller addr input gas value =
     (if en_NoRecursion E \<and> ev_depth ev > 0 then (ev, [], gas, None)
      else if ev_depth ev > CallCreateDepth then (ev, [], gas, Some ErrDepth)
      else case en_CanTransfer E caller value (ev_StateDB ev) of
        (d0, can) \<Rightarrow>
          (let ev0 = ev\<lparr>ev_StateDB := d0\<rparr>
           in if \<not> can then (ev0, [], gas, Some ErrInsufficientBalance)
              else let snapshot = db_Snapshot (en_db E) d0;
                       (ev1, c) = with_code E ev0 addr (NewContract caller caller value gas)
                   in settle E snapshot (run loop E ev1 c input False)))"

definition evm_DelegateCall ::
  "'s loop \<Rightarrow> 's env \<Rightarrow> 's evm \<Rightarrow> contract \<Rightarrow> address \<Rightarrow> bytes \<Rightarrow> uint64 \<Rightarrow> 's evm \<times> bytes \<times> uint64 \<times> vm_error option" where
  "evm_DelegateCall loop E ev parent addr input gas =
     (if en_NoRecursion E \<and> ev_depth ev > 0 then (ev, [], gas, None)
      else if ev_depth ev > CallCreateDepth then (ev, [], gas, Some ErrDepth)
      else let snapshot = db_Snapshot (en_db E) (ev_StateDB ev);
               (ev1, c) = with_code E ev addr (AsDelegate parent (NewContract (ct_self parent) (ct_self parent) 0 gas))
           in settle E snapshot (run loop E ev1 c input False))"

definition evm_StaticCall ::
  "'s loop \<Rightarrow> 's env \<Rightarrow> 's evm \<Rightarrow> address \<Rightarrow> address \<Rightarrow> bytes \<Rightarrow> uint64 \<Rightarrow> 's evm \<times> bytes \<times> uint64 \<times> vm_error option" where
  "evm_StaticCall loop E ev caller addr input gas =
     (if en_NoRecursion E \<and> ev_depth ev > 0 then (ev, [], gas, None)
      else if ev_depth ev > CallCreateDepth then (ev, [], gas, Some ErrDepth)
      else let snapshot = db_Snapshot (en_db E) (ev_StateDB ev);
               (ev1, c) = with_code E ev addr (NewContract caller addr 0 gas)
           in settle E snapshot (run loop E ev1 c input True))"

definition CreateDataGas :: uint64 where "CreateDataGas = 200"
definition MaxCodeSize :: nat where "MaxCodeSize = 24576"

definition emptyCodeHash :: "'s env \<Rightarrow> hash" where "emptyCodeHash E = HashBytes (en_keccak E) []"

text \<open>The end of \<open>create\<close>: the price of storing the code, the errors and the snapshot.\<close>

definition finish_create ::
  "'s env \<Rightarrow> nat \<Rightarrow> address \<Rightarrow> 's evm \<times> contract \<times> bytes \<times> vm_error option \<Rightarrow>
     's evm \<times> bytes \<times> address \<times> uint64 \<times> vm_error option" where
  "finish_create E snapshot address r =
     (case r of
        (ev, c, ret, err0) \<Rightarrow>
          (let exceeded = (en_IsEIP158 E \<and> length ret > MaxCodeSize);
               (ev1, c1, err) =
                 (if err0 = None \<and> \<not> exceeded
                  then (case UseGas (word_of_nat (length ret) * CreateDataGas) c of
                          (c', paid) \<Rightarrow>
                            if paid then (ev\<lparr>ev_StateDB := db_SetCode (en_db E) address ret (ev_StateDB ev)\<rparr>, c', None)
                            else (ev, c', Some ErrCodeStoreOutOfGas))
                  else (ev, c, err0));
               err' = (if exceeded \<and> err = None then Some ErrMaxCodeSizeExceeded else err)
           in case err of
                Some e \<Rightarrow>
                  if fatal e then (ev1, ret, address, ct_Gas c1, Some e)
                  else if exceeded \<or> en_IsHomestead E \<or> e \<noteq> ErrCodeStoreOutOfGas
                  then (case db_RevertToSnapshot (en_db E) snapshot (ev_StateDB ev1) of
                          None \<Rightarrow> (ev1, ret, address, ct_Gas c1, Some VmPanic)
                        | Some d \<Rightarrow>
                            (ev1\<lparr>ev_StateDB := d\<rparr>, ret, address,
                             (if e \<noteq> ErrExecutionReverted then 0 else ct_Gas c1), err'))
                  else (ev1, ret, address, ct_Gas c1, err')
              | None \<Rightarrow>
                  if exceeded
                  then (case db_RevertToSnapshot (en_db E) snapshot (ev_StateDB ev1) of
                          None \<Rightarrow> (ev1, ret, address, ct_Gas c1, Some VmPanic)
                        | Some d \<Rightarrow> (ev1\<lparr>ev_StateDB := d\<rparr>, ret, address, 0, err'))
                  else (ev1, ret, address, ct_Gas c1, err')))"

definition evm_create ::
  "'s loop \<Rightarrow> 's env \<Rightarrow> 's evm \<Rightarrow> address \<Rightarrow> bytes \<Rightarrow> hash \<Rightarrow> uint64 \<Rightarrow> int \<Rightarrow> address \<Rightarrow>
     's evm \<times> bytes \<times> address \<times> uint64 \<times> vm_error option" where
  "evm_create loop E ev caller code codeHash gas value address =
     (if ev_depth ev > CallCreateDepth then (ev, [], EmptyAddress, gas, Some ErrDepth)
      else case en_CanTransfer E caller value (ev_StateDB ev) of
        (d0, can) \<Rightarrow>
          if \<not> can then (ev\<lparr>ev_StateDB := d0\<rparr>, [], EmptyAddress, gas, Some ErrInsufficientBalance)
          else let (d1, nonce) = db_GetNonce (en_db E) caller d0;
                   (d2, count) = db_GetTxCount (en_db E) caller d1;
                   d3 = db_SetNonce2 (en_db E) caller (nonce + 1) (count + 1) d2;
                   (d4, contractHash) = db_GetCodeHash (en_db E) address d3;
                   (d5, nonce') = db_GetNonce (en_db E) address d4
               in if nonce' \<noteq> 0 \<or> (contractHash \<noteq> EmptyHash \<and> contractHash \<noteq> emptyCodeHash E)
                  then (ev\<lparr>ev_StateDB := d5\<rparr>, [], EmptyAddress, 0, Some ErrContractAddressCollision)
                  else let snapshot = db_Snapshot (en_db E) d5;
                           d6 = db_CreateAccount (en_db E) address d5;
                           d7 = (if en_IsEIP158 E then db_SetNonce2 (en_db E) address 1 1 d6 else d6);
                           d8 = en_Transfer E caller address value d7;
                           ev8 = ev\<lparr>ev_StateDB := d8\<rparr>;
                           c = SetCallCode address codeHash code (NewContract caller address value gas)
                       in if en_NoRecursion E \<and> ev_depth ev > 0 then (ev8, [], address, gas, None)
                          else finish_create E snapshot address (run loop E ev8 c [] False))"

definition evm_Create ::
  "'s loop \<Rightarrow> 's env \<Rightarrow> 's evm \<Rightarrow> address \<Rightarrow> bytes \<Rightarrow> uint64 \<Rightarrow> int \<Rightarrow> 's evm \<times> bytes \<times> address \<times> uint64 \<times> vm_error option" where
  "evm_Create loop E ev caller code gas value =
     (case db_GetNonce (en_db E) caller (ev_StateDB ev) of
        (d, nonce) \<Rightarrow>
          evm_create loop E (ev\<lparr>ev_StateDB := d\<rparr>) caller code EmptyHash gas value
            (CreateAddress (en_ShardCount E) (en_keccak E) caller nonce))"

definition evm_Create2 ::
  "'s loop \<Rightarrow> 's env \<Rightarrow> 's evm \<Rightarrow> address \<Rightarrow> bytes \<Rightarrow> uint64 \<Rightarrow> int \<Rightarrow> int \<Rightarrow> 's evm \<times> bytes \<times> address \<times> uint64 \<times> vm_error option" where
  "evm_Create2 loop E ev caller code gas endowment salt =
     (let h = HashBytes (en_keccak E) code
      in evm_create loop E ev caller code h gas endowment
           (CreateAddress2 (en_ShardCount E) (en_keccak E) caller (BigToHash salt) h))"

definition evm_calls :: "'s loop \<Rightarrow> 's env \<Rightarrow> 's calls" where
  "evm_calls loop E =
     \<lparr>ca_Call = evm_Call loop E, ca_CallCode = evm_CallCode loop E, ca_DelegateCall = evm_DelegateCall loop E,
      ca_StaticCall = evm_StaticCall loop E, ca_Create = evm_Create loop E, ca_Create2 = evm_Create2 loop E\<rparr>"

text \<open>The interpreter loop; a round is one instruction, of this contract or of one it calls.\<close>

primrec interp :: "nat \<Rightarrow> 's env \<Rightarrow> 's loop" where
  "interp 0 E st = (st, [], Some VmFuel)"
| "interp (Suc n) E st =
     (case run_step E (evm_calls (interp n E) E) st of
        (st', Finished ret err) \<Rightarrow> (st', ret, err)
      | (st', Continue) \<Rightarrow> interp n E st')"

definition NewEVM :: "'s \<Rightarrow> 's evm" where
  "NewEVM d = \<lparr>ev_StateDB = d, ev_depth = 0, ev_callGasTemp = 0, ev_readOnly = False, ev_returnData = [],
     ev_jumpdests = Map.empty\<rparr>"

section \<open>The database and context of the chain\<close>

text \<open>\<open>src/core/svm/evm/statedb.go\<close>: the state database as the machine sees it.\<close>

definition evm_db :: "'t trie_ops \<Rightarrow> (bytes \<Rightarrow> bytes) \<Rightarrow> 't statedb db_ops" where
  "evm_db T sha =
     \<lparr>db_CreateAccount = CreateAccount T sha, db_SubBalance = SubBalance T sha, db_AddBalance = AddBalance T sha,
      db_GetBalance = GetBalance T sha, db_GetNonce = GetNonce T sha, db_GetTxCount = GetTxCount T sha,
      db_SetNonce2 = SetNonce2 T sha, db_GetCodeHash = GetCodeHash T sha,
      db_GetCode = (\<lambda>a s. case GetCode T sha a s of (s', c) \<Rightarrow> (s', opt_bytes c)),
      db_SetCode = (\<lambda>a c. SetCode T sha a (Some c)), db_GetCodeSize = GetCodeSize T sha,
      db_AddRefund = AddRefund,
      db_SubRefund = (\<lambda>g s. case SubRefund g s of (s', None) \<Rightarrow> Some s' | (s', Some e) \<Rightarrow> None),
      db_GetCommittedState = (\<lambda>a k s. case GetCommittedData T sha a k s of (s', v) \<Rightarrow> (s', BytesToHash v)),
      db_GetState = (\<lambda>a k s. case GetData T sha a k s of (s', v) \<Rightarrow> (s', BytesToHash v)),
      db_SetState = (\<lambda>a k v. SetData T sha a k v),
      db_Suicide = (\<lambda>a s. fst (Suicide T sha a s)), db_HasSuicided = HasSuicided T sha, db_Exist = Exist T sha,
      db_Empty = Empty T sha, db_Snapshot = Snapshot,
      db_RevertToSnapshot = (\<lambda>n s. case RevertToSnapshot T sha n s of Inl e \<Rightarrow> None | Inr s' \<Rightarrow> Some s'),
      db_AddLog = AddLog\<rparr>"

text \<open>\<open>newEVMContext\<close> of \<open>src/core/svm/evm/evm.go\<close>.\<close>

definition canTransferFunc :: "'t trie_ops \<Rightarrow> (bytes \<Rightarrow> bytes) \<Rightarrow> address \<Rightarrow> int \<Rightarrow> 't statedb \<Rightarrow> 't statedb \<times> bool" where
  "canTransferFunc T sha addr amount s = (case GetBalance T sha addr s of (s', b) \<Rightarrow> (s', b \<ge> amount))"

definition transferFunc ::
  "nat \<Rightarrow> 't trie_ops \<Rightarrow> (bytes \<Rightarrow> bytes) \<Rightarrow> address \<Rightarrow> address \<Rightarrow> int \<Rightarrow> 't statedb \<Rightarrow> 't statedb" where
  "transferFunc ShardCount T sha sender recipient amount s =
     (let s' = SubBalance T sha sender amount s
      in if Shard ShardCount sender = Shard ShardCount recipient then AddBalance T sha recipient amount s' else s')"

text \<open>
  The rules \<open>NewEVMByDefaultConfig\<close> sets: everything up to Byzantium from block 0, no Constantinople;
  neither the gas price nor the gas limit is set.
\<close>

definition defaultEnv ::
  "nat \<Rightarrow> 't trie_ops \<Rightarrow> (bytes \<Rightarrow> bytes) \<Rightarrow> (uint64 \<Rightarrow> hash) \<Rightarrow> address \<Rightarrow> address \<Rightarrow> uint64 \<Rightarrow> int \<Rightarrow> int \<Rightarrow>
     crypto_ops \<Rightarrow> 't statedb env" where
  "defaultEnv ShardCount T sha getHash origin coinbase height time difficulty K =
     \<lparr>en_db = evm_db T sha, en_CanTransfer = canTransferFunc T sha, en_Transfer = transferFunc ShardCount T sha,
      en_GetHash = getHash, en_Origin = origin, en_GasPrice = None, en_Coinbase = coinbase, en_GasLimit = 0,
      en_BlockNumber = uint height, en_Time = time, en_Difficulty = difficulty, en_IsHomestead = True,
      en_IsEIP150 = True, en_IsEIP158 = True, en_IsByzantium = True, en_IsConstantinople = False,
      en_gasTable = GasTableEIP158, en_NoRecursion = False, en_ShardCount = ShardCount, en_keccak = sha,
      en_precompiles = PrecompiledContractsByzantium K\<rparr>"

end
