(* ===== verification/Evm_Arith.thy ===== *)
theory Evm_Arith
  imports Evm_Run "HOL-Library.Signed_Division"
begin

text \<open>
  The arithmetic instructions compute the operations of 256-bit words: the code works on unbounded
  integers and reduces where it must; the reference is the word library.
\<close>

type_synonym word256 = "256 word"

section \<open>From integers to words\<close>

lemma U256_word: "U256 k = uint (word_of_int k :: word256)"
  by (simp add: U256_def uint_word_of_int)

lemma U256_uint [simp]: "U256 (uint (x :: word256)) = uint x"
  by (simp add: U256_word)

lemma uint_lt_256: "uint (x :: word256) < 2 ^ 256"
  using uint_lt2p [of x] by simp

lemma S256_sint: "S256 (uint (x :: word256)) = sint x"
proof (cases "uint x < 2 ^ 255")
  case True
  then show ?thesis
    by (simp add: S256_def sint_uint signed_take_bit_eq_take_bit_shift take_bit_eq_mod)
next
  case False
  have "(uint x + 2 ^ 255) mod 2 ^ 256 = (uint x - 2 ^ 255 + 2 ^ 256) mod 2 ^ 256"
    by (simp add: add.commute)
  also have "\<dots> = (uint x - 2 ^ 255) mod 2 ^ 256"
    by (rule mod_add_self2)
  also have "\<dots> = uint x - 2 ^ 255"
    using False uint_lt_256 [of x] by (intro mod_pos_pos_trivial) simp_all
  finally show ?thesis
    using False by (simp add: S256_def sint_uint signed_take_bit_eq_take_bit_shift take_bit_eq_mod)
qed

lemma b2i_uint: "b2i P = uint (of_bool P :: word256)"
  by (simp add: b2i_def)

lemma big_Div_pos: "0 \<le> y \<Longrightarrow> y \<noteq> 0 \<Longrightarrow> big_Div x y = x div y"
  by (simp add: big_Div_def)

lemma Exp_loop_eq: "0 \<le> r \<Longrightarrow> r < 2 ^ 256 \<Longrightarrow> Exp_loop r b e = (r * b ^ e) mod 2 ^ 256"
proof (induction r b e rule: Exp_loop.induct)
  case (1 r b e)
  show ?case
  proof (cases "e = 0")
    case True
    with 1 show ?thesis by (simp add: Exp_loop.simps [of r b 0])
  next
    case False
    let ?r = "if odd e then U256 (r * b) else r"
    have r: "0 \<le> ?r" "?r < 2 ^ 256"
      using 1 by (simp_all add: U256_def)
    have split: "b ^ e = (if odd e then b else 1) * (b * b) ^ (e div 2)"
    proof (cases "odd e")
      case True
      then obtain k where "e = Suc (2 * k)" by (auto elim: oddE)
      then show ?thesis by (simp add: power_mult power2_eq_square)
    next
      case False
      then obtain k where "e = 2 * k" by (auto elim: evenE)
      then show ?thesis by (simp add: power_mult power2_eq_square)
    qed
    have "Exp_loop r b e = Exp_loop ?r (U256 (b * b)) (e div 2)"
      using False by (simp add: Exp_loop.simps [of r b e])
    also have "\<dots> = (?r * U256 (b * b) ^ (e div 2)) mod 2 ^ 256"
      by (rule 1(1) [OF False r])
    also have "\<dots> = ((r * (if odd e then b else 1)) * (b * b) ^ (e div 2)) mod 2 ^ 256"
    proof -
      have "(?r * U256 (b * b) ^ (e div 2)) mod 2 ^ 256
          = (?r mod 2 ^ 256) * ((U256 (b * b) ^ (e div 2)) mod 2 ^ 256) mod 2 ^ 256"
        by (rule mod_mult_eq [symmetric])
      also have "(U256 (b * b) ^ (e div 2)) mod 2 ^ 256 = ((b * b) ^ (e div 2)) mod 2 ^ 256"
        unfolding U256_def by (rule power_mod)
      also have "?r mod 2 ^ 256 = (r * (if odd e then b else 1)) mod 2 ^ 256"
        by (simp add: U256_def)
      finally show ?thesis by (simp only: mod_mult_eq)
    qed
    also have "\<dots> = (r * b ^ e) mod 2 ^ 256"
      by (simp only: split mult.assoc)
    finally show ?thesis .
  qed
qed

section \<open>The reference operations\<close>

definition binary_spec :: "(('s vst \<Rightarrow> 's res) \<times> (word256 \<Rightarrow> word256 \<Rightarrow> word256)) list" where
  "binary_spec =
     [(opAdd, (+)), (opSub, (-)), (opMul, (*)), (opDiv, (div)),
      (opMod, \<lambda>x y. if y = 0 then 0 else x mod y),
      (opSdiv, \<lambda>x y. word_of_int (sint x sdiv sint y)),
      (opSmod, \<lambda>x y. if y = 0 then 0 else word_of_int (sint x smod sint y)),
      (opExp, \<lambda>x y. x ^ unat y),
      (opLt, \<lambda>x y. of_bool (x < y)), (opGt, \<lambda>x y. of_bool (x > y)),
      (opSlt, \<lambda>x y. of_bool (x <s y)), (opSgt, \<lambda>x y. of_bool (y <s x)),
      (opEq, \<lambda>x y. of_bool (x = y)),
      (opAnd, (AND)), (opOr, (OR)), (opXor, (XOR)),
      (opByte, \<lambda>i x. if i < 32 then take_bit 8 (drop_bit (8 * (31 - unat i)) x) else 0),
      (opSignExtend, \<lambda>i x. if i < 31 then signed_take_bit (unat i * 8 + 7) x else x),
      (opSHL, \<lambda>i x. push_bit (unat i) x), (opSHR, \<lambda>i x. drop_bit (unat i) x),
      (opSAR, \<lambda>i x. signed_drop_bit (unat i) x)]"

definition unary_spec :: "(('s vst \<Rightarrow> 's res) \<times> (word256 \<Rightarrow> word256)) list" where
  "unary_spec = [(opNot, NOT), (opIszero, \<lambda>x. of_bool (x = 0))]"

definition ternary_spec :: "(('s vst \<Rightarrow> 's res) \<times> (word256 \<Rightarrow> word256 \<Rightarrow> word256 \<Rightarrow> word256)) list" where
  "ternary_spec =
     [(opAddmod, \<lambda>x y z. if z = 0 then 0 else word_of_int ((uint x + uint y) mod uint z)),
      (opMulmod, \<lambda>x y z. if z = 0 then 0 else word_of_int ((uint x * uint y) mod uint z))]"

lemma binop_word:
  "vs_stack st = uint x # uint y # s \<Longrightarrow> f (uint x) (uint y) = uint (g x y) \<Longrightarrow>
   binop f st = ok (st\<lparr>vs_stack := uint (g x y :: word256) # s\<rparr>)"
  for x y :: word256
  by (simp add: binop_def)

lemma uint_zero_iff: "uint (x :: word256) = 0 \<longleftrightarrow> x = 0"
  by (simp add: uint_0_iff)

lemma add_word: "U256 (uint x + uint y) = uint (x + y)" for x y :: word256
  by (simp add: U256_word)

lemma sub_word: "U256 (uint x - uint y) = uint (x - y)" for x y :: word256
  by (simp add: U256_word)

lemma mul_word: "U256 (uint x * uint y) = uint (x * y)" for x y :: word256
  by (simp add: U256_word)

lemma div_word: "(if uint y \<noteq> 0 then U256 (big_Div (uint x) (uint y)) else 0) = uint (x div y)" for x y :: word256
proof (cases "y = 0")
  case False
  then have "big_Div (uint x) (uint y) = uint (x div y)"
    by (simp add: big_Div_def uint_div_distrib uint_0_iff order_less_le)
  with False show ?thesis by (simp add: uint_0_iff)
qed simp

lemma mod_word:
  "(if uint y = 0 then 0 else U256 (big_Mod (uint x) (uint y))) = uint (if y = 0 then 0 else x mod y)"
  for x y :: word256
  by (simp add: uint_0_iff big_Mod_def uint_mod_distrib [symmetric])

lemma exp_word:
  "(if uint y < 1 then 1 else if uint x = 0 then 0 else if uint y = 1 then uint x
    else math_Exp (uint x) (uint y)) = uint (x ^ unat y)"
  for x y :: word256
proof -
  have "nat (uint y) = unat y"
    by (simp only: unat_eq_nat_uint)
  then have "math_Exp (uint x) (uint y) = U256 (uint x ^ unat y)"
    unfolding math_Exp_def by (simp add: Exp_loop_eq U256_def del: unat_eq_nat_uint)
  also have "\<dots> = uint (x ^ unat y)"
    by (simp add: U256_word word_of_int_power_hom [symmetric])
  finally have e: "math_Exp (uint x) (uint y) = uint (x ^ unat y)" .
  show ?thesis
  proof (cases "y = 0")
    case False
    then have "unat y \<noteq> 0" "uint y \<noteq> 0" by (simp_all add: unat_eq_zero uint_0_iff)
    moreover from this have "\<not> uint y < 1" using uint_ge_0 [of y] by linarith
    moreover have "unat y = 1" if "uint y = 1" using that by (simp add: unat_eq_nat_uint)
    ultimately show ?thesis by (simp add: e power_0_left uint_0_iff)
  qed simp
qed

lemma less_word: "b2i (uint x < uint y) = uint (of_bool (x < y) :: word256)" for x y :: word256
  by (simp add: b2i_def word_less_def)

lemma eq_word: "b2i (uint x = uint y) = uint (of_bool (x = y) :: word256)" for x y :: word256
  by (simp add: b2i_def word_uint_eq_iff)

lemma sint_cases: "sint x = (if uint x < tt255 then uint x else uint x - 2 ^ 256)" for x :: word256
  using S256_sint [of x] by (simp add: S256_def tt255_def)

lemma signed_less:
  fixes a b :: int
  assumes "0 \<le> a" "a < 2 ^ 256" "0 \<le> b" "b < 2 ^ 256"
  shows "(if a \<ge> tt255 \<and> b < tt255 then True else if a < tt255 \<and> b \<ge> tt255 then False else a < b)
     \<longleftrightarrow> (if a < tt255 then a else a - 2 ^ 256) < (if b < tt255 then b else b - 2 ^ 256)"
  using assms by (auto simp: tt255_def)

lemma slt_word:
  "(if uint x \<ge> tt255 \<and> uint y < tt255 then 1 else if uint x < tt255 \<and> uint y \<ge> tt255 then 0
    else b2i (uint x < uint y)) = uint (of_bool (x <s y) :: word256)"
  for x y :: word256
  unfolding word_sless_alt sint_cases
  using signed_less [OF uint_ge_0 uint_lt_256 uint_ge_0 uint_lt_256, of x y] by (simp add: b2i_def split: if_splits)

lemma sgt_word:
  "(if uint x \<ge> tt255 \<and> uint y < tt255 then 0 else if uint x < tt255 \<and> uint y \<ge> tt255 then 1
    else b2i (uint x > uint y)) = uint (of_bool (y <s x) :: word256)"
  for x y :: word256
  unfolding word_sless_alt sint_cases
  using signed_less [OF uint_ge_0 uint_lt_256 uint_ge_0 uint_lt_256, of y x] by (simp add: b2i_def split: if_splits)

lemma bit_word:
  "uint x AND uint y = uint (x AND y)" "uint x OR uint y = uint (x OR y)" "uint x XOR uint y = uint (x XOR y)"
  for x y :: word256
  by (simp_all add: uint_and uint_or uint_xor)

lemma sdiv_word:
  "(let a = S256 (uint x); b = S256 (uint y)
    in if b = 0 \<or> a = 0 then 0
       else if sgn a \<noteq> sgn b then U256 (- big_Div \<bar>a\<bar> \<bar>b\<bar>)
       else U256 (big_Div \<bar>a\<bar> \<bar>b\<bar>)) = uint (word_of_int (sint x sdiv sint y) :: word256)"
  for x y :: word256
  unfolding S256_sint Let_def U256_word by (auto simp: big_Div_def signed_divide_int_def sgn_if)

lemma smod_word:
  "(let a = S256 (uint x); b = S256 (uint y)
    in if b = 0 then 0 else if a < 0 then U256 (- big_Mod \<bar>a\<bar> \<bar>b\<bar>) else U256 (big_Mod \<bar>a\<bar> \<bar>b\<bar>))
   = uint (if y = 0 then 0 else word_of_int (sint x smod sint y) :: word256)"
  for x y :: word256
proof -
  have *: "sint x smod sint y = sgn (sint x) * (\<bar>sint x\<bar> mod \<bar>sint y\<bar>)"
    by (simp add: signed_modulo_int_def signed_divide_int_def minus_div_mult_eq_mod [symmetric] algebra_simps sgn_if abs_if)
  show ?thesis
    unfolding S256_sint Let_def U256_word * by (auto simp: big_Mod_def sgn_if signed_eq_0_iff)
qed


lemma take_bit_256 [simp]: "take_bit 256 (uint (x :: word256)) = uint x"
  using uint_lt_256 [of x] by (intro take_bit_int_eq_self) simp_all

lemma U256_take_bit: "U256 k = take_bit 256 k"
  by (simp add: U256_def take_bit_eq_mod)

lemma not_word: "U256 (NOT (uint x)) = uint (NOT x)" for x :: word256
  by (simp add: U256_take_bit unsigned_not_eq)

lemma iszero_word: "(if uint x > 0 then 0 else 1) = uint (of_bool (x = 0) :: word256)" for x :: word256
proof (cases "x = 0")
  case False
  then have "uint x \<noteq> 0" by (simp add: uint_0_iff)
  with uint_ge_0 [of x] have "uint x > 0" by linarith
  with False show ?thesis by simp
qed simp

lemma small_Int64: "0 \<le> v \<Longrightarrow> v < 2 ^ 63 \<Longrightarrow> Int64 v = v"
  unfolding Int64_def by (subst sint_uint, simp add: uint_word_of_int signed_take_bit_int_eq_self_iff)

lemma byte_word:
  "(if uint i < 32 then math_Byte (uint x) (nat (Int64 (uint i))) else 0)
     = uint (if i < 32 then take_bit 8 (drop_bit (8 * (31 - unat i)) x) else 0)"
  for i x :: word256
proof (cases "i < 32")
  case True
  then have u: "uint i < 32" by (simp add: word_less_def)
  then have i: "Int64 (uint i) = uint i" by (simp add: small_Int64)
  have n: "unat i < 32" using True by (simp add: word_less_nat_alt)
  have "math_Byte (uint x) (unat i) = take_bit 8 (drop_bit (8 * (31 - unat i)) (uint x))"
    using n by (simp add: math_Byte_def take_bit_eq_mod drop_bit_eq_div power_mult)
  also have "\<dots> = uint (take_bit 8 (drop_bit (8 * (31 - unat i)) x))"
    by (simp add: unsigned_take_bit_eq unsigned_drop_bit_eq)
  finally show ?thesis using True u by (simp add: i)
next
  case False
  then show ?thesis by (simp add: word_less_def)
qed

lemma signextend_word:
  fixes x :: word256
  assumes "n < 255"
  shows "U256 (if bit (uint x) n then uint x OR NOT (2 ^ n - 1) else uint x AND (2 ^ n - 1))
     = uint (signed_take_bit n x)"
  unfolding U256_take_bit mask_eq_exp_minus_1 [symmetric]
proof (rule bit_eqI)
  fix k
  show "bit (take_bit 256 (if bit (uint x) n then uint x OR NOT (mask n) else uint x AND mask n)) k
    = bit (uint (signed_take_bit n x)) k"
    using assms
    by (cases "k < n"; cases "k < 256")
      (auto simp: bit_take_bit_iff bit_or_iff bit_and_iff bit_not_iff bit_mask_iff bit_signed_take_bit_iff
        bit_uint_iff min_def not_less)
qed

lemma big_shift: "uint i \<ge> 256 \<Longrightarrow> 256 \<le> unat i" for i :: word256
  by (simp add: nat_uint_eq [symmetric] del: nat_uint_eq)

lemma shl_word:
  "(let shift = U256 (uint i); value = U256 (uint x)
    in if shift \<ge> 256 then 0 else U256 (push_bit (nat shift) value)) = uint (push_bit (unat i) x)"
  for i x :: word256
proof -
  have "push_bit (unat i) x = 0" if "uint i \<ge> 256"
    using big_shift [OF that] by (simp add: push_bit_word_beyond)
  moreover have "U256 (push_bit (unat i) (uint x)) = uint (push_bit (unat i) x)"
    by (simp add: U256_take_bit unsigned_push_bit_eq)
  ultimately show ?thesis by (simp add: Let_def)
qed

lemma shr_word:
  "(let shift = U256 (uint i); value = U256 (uint x)
    in if shift \<ge> 256 then 0 else U256 (drop_bit (nat shift) value)) = uint (drop_bit (unat i) x)"
  for i x :: word256
proof -
  have "drop_bit (unat i) x = 0" if "uint i \<ge> 256"
    using big_shift [OF that] by (simp add: drop_bit_word_beyond)
  moreover have "U256 (drop_bit (unat i) (uint x)) = uint (drop_bit (unat i) x)"
    using U256_uint [of "drop_bit (unat i) x"] by (simp add: unsigned_drop_bit_eq)
  ultimately show ?thesis by (simp add: Let_def)
qed

lemma sar_word:
  "(let shift = U256 (uint i); value = S256 (uint x)
    in if shift \<ge> 256 then if value \<ge> 0 then U256 0 else U256 (- 1) else U256 (drop_bit (nat shift) value))
   = uint (signed_drop_bit (unat i) x)"
  for i x :: word256
proof -
  have *: "U256 (drop_bit (unat i) (sint x)) = uint (signed_drop_bit (unat i) x)"
    unfolding U256_word sint_signed_drop_bit_eq [symmetric] by simp
  have "drop_bit (unat i) (sint x) = (if sint x \<ge> 0 then 0 else - 1)" if "uint i \<ge> 256"
  proof -
    have n: "256 \<le> unat i" using that by (rule big_shift)
    have "\<bar>sint x\<bar> \<le> 2 ^ 255" using sint_greater_eq [of x] sint_lt [of x] by simp
    also have "(2 :: int) ^ 255 < 2 ^ unat i" using n by (intro power_strict_increasing) auto
    finally have "\<bar>sint x\<bar> < 2 ^ unat i" .
    moreover from this have "sint x div 2 ^ unat i = - 1" if "sint x < 0"
      using that by (intro int_div_pos_eq [where r = "sint x + 2 ^ unat i"]) auto
    ultimately show ?thesis by (auto simp: drop_bit_eq_div)
  qed
  with * show ?thesis unfolding S256_sint by (auto simp: Let_def)
qed

lemma addmod_word:
  "(if uint z > 0 then U256 (big_Mod k (uint z)) else 0)
     = uint (if z = 0 then 0 else word_of_int (k mod uint z) :: word256)"
  for z :: word256
proof (cases "z = 0")
  case False
  then have "uint z \<noteq> 0" by (simp add: uint_0_iff)
  with uint_ge_0 [of z] have "uint z > 0" by linarith
  with False show ?thesis by (simp add: U256_word big_Mod_def)
qed simp


section \<open>The instructions\<close>

text \<open>Each instruction replaces its operands by the word its reference gives.\<close>

definition computes_binary :: "('s vst \<Rightarrow> 's res) \<times> (word256 \<Rightarrow> word256 \<Rightarrow> word256) \<Rightarrow> bool" where
  "computes_binary p \<longleftrightarrow>
     (\<forall>st x y s. fst p (st\<lparr>vs_stack := uint x # uint y # s\<rparr>) = ok (st\<lparr>vs_stack := uint (snd p x y) # s\<rparr>))"

definition computes_unary :: "('s vst \<Rightarrow> 's res) \<times> (word256 \<Rightarrow> word256) \<Rightarrow> bool" where
  "computes_unary p \<longleftrightarrow>
     (\<forall>st x s. fst p (st\<lparr>vs_stack := uint x # s\<rparr>) = ok (st\<lparr>vs_stack := uint (snd p x) # s\<rparr>))"

definition computes_ternary :: "('s vst \<Rightarrow> 's res) \<times> (word256 \<Rightarrow> word256 \<Rightarrow> word256 \<Rightarrow> word256) \<Rightarrow> bool" where
  "computes_ternary p \<longleftrightarrow>
     (\<forall>st x y z s. fst p (st\<lparr>vs_stack := uint x # uint y # uint z # s\<rparr>)
        = ok (st\<lparr>vs_stack := uint (snd p x y z) # s\<rparr>))"

lemma computes_binop: "(\<And>x y. f (uint x) (uint y) = uint (g x y)) \<Longrightarrow> computes_binary (binop f, g)"
  by (simp add: computes_binary_def binop_def)

lemma computes_unop: "(\<And>x. f (uint x) = uint (g x)) \<Longrightarrow> computes_unary (unop f, g)"
  by (simp add: computes_unary_def unop_def)

lemma computes_triop: "(\<And>x y z. f (uint x) (uint y) (uint z) = uint (g x y z)) \<Longrightarrow> computes_ternary (triop f, g)"
  by (simp add: computes_ternary_def triop_def)

lemma computes_signextend:
  "computes_binary (opSignExtend :: 's vst \<Rightarrow> _, \<lambda>i x. if i < 31 then signed_take_bit (unat i * 8 + 7) x else x)"
proof -
  have "opSignExtend (st\<lparr>vs_stack := uint i # uint x # s\<rparr>)
      = ok (st\<lparr>vs_stack := uint (if i < 31 then signed_take_bit (unat i * 8 + 7) x else x) # s\<rparr>)"
    for st :: "'s vst" and i x :: word256 and s
  proof (cases "i < 31")
    case True
    then have "unat i < 31" by (simp add: word_less_nat_alt)
    then show ?thesis
      using True signextend_word [of "unat i * 8 + 7" x]
      by (simp add: opSignExtend_def word_less_def Let_def split: if_splits)
  next
    case False
    then show ?thesis by (simp add: opSignExtend_def word_less_def)
  qed
  then show "computes_binary (opSignExtend :: 's vst \<Rightarrow> _, \<lambda>i x. if i < 31 then signed_take_bit (unat i * 8 + 7) x else x)"
    unfolding computes_binary_def fst_conv snd_conv by blast
qed

text \<open>
  C16: the arithmetic, comparison, bit and shift instructions compute the operations of 256-bit words.
  Addition, subtraction, multiplication and exponentiation wrap around; division and remainder by
  zero give zero; the signed instructions read two's complement and divide towards zero; shifts by
  256 or more leave nothing or the sign; the modular instructions do not lose the high bits of the
  intermediate result.
\<close>

theorem arithmetic_words:
  "list_all computes_binary binary_spec \<and> list_all computes_unary unary_spec \<and> list_all computes_ternary ternary_spec"
proof (intro conjI)
  show "list_all computes_binary binary_spec"
    unfolding binary_spec_def opAdd_def opSub_def opMul_def opDiv_def opMod_def opSdiv_def opSmod_def opExp_def
      opLt_def opGt_def opSlt_def opSgt_def opEq_def opAnd_def opOr_def opXor_def opByte_def opSHL_def opSHR_def
      opSAR_def
    by (simp only: list.pred_inject, intro conjI computes_signextend computes_binop add_word sub_word mul_word div_word mod_word sdiv_word
        smod_word exp_word less_word slt_word sgt_word eq_word bit_word byte_word shl_word shr_word sar_word TrueI)
  show "list_all computes_unary unary_spec"
    unfolding unary_spec_def opNot_def opIszero_def
    by (simp only: list.pred_inject, intro conjI computes_unop not_word iszero_word TrueI)
  show "list_all computes_ternary ternary_spec"
    unfolding ternary_spec_def opAddmod_def opMulmod_def
    by (simp only: list.pred_inject, intro conjI computes_triop addmod_word TrueI)
qed

end
