(* ===== verification/Evm_Jump.thy ===== *)
theory Evm_Jump
  imports Evm_Run
begin

text \<open>
  Correctness of the jump destination analysis (\<open>src/core/vm/analysis.go\<close> and \<open>validJumpdest\<close> of
  \<open>src/core/vm/contract.go\<close>): the bit map marks exactly the operand bytes of the pushes, is long enough for
  every code, and the cached analyses give the answer a fresh one would.
\<close>

lemma BitLen_le: "BitLen n \<le> k \<longleftrightarrow> n < 2 ^ k"
proof (induction k arbitrary: n)
  case 0
  then show ?case by (simp add: BitLen.simps [of n])
next
  case (Suc k)
  show ?case
  proof (cases "n = 0")
    case True
    then show ?thesis by (simp add: BitLen.simps [of 0])
  next
    case False
    then have "BitLen n = Suc (BitLen (n div 2))" by (simp add: BitLen.simps [of n])
    then show ?thesis using Suc [of "n div 2"] by (simp add: div_less_iff_less_mult mult.commute)
  qed
qed

lemma big_BitLen_le: "0 \<le> v \<Longrightarrow> big_BitLen v \<le> k \<longleftrightarrow> v < 2 ^ k"
  by (simp add: big_BitLen_def BitLen_le nat_less_iff)

lemma Uint64_small: "0 \<le> v \<Longrightarrow> v < 2 ^ 64 \<Longrightarrow> unat (Uint64 v) = nat v"
  by (simp add: Uint64_def unat_eq_nat_uint uint_word_of_int del: nat_uint_eq)

lemma div8_bound: "j \<le> L + 8 * k \<Longrightarrow> j div 8 \<le> L div 8 + k" for j L k :: nat
  using div_le_mono [of j "L + 8 * k" 8] by simp

section \<open>Bit vectors\<close>

definition marked :: "bitvec \<Rightarrow> nat \<Rightarrow> bool" where
  "marked bits i \<longleftrightarrow> bit (bits ! (i div 8)) (7 - i mod 8)"

lemma less_8_cases: "(k :: nat) < 8 \<Longrightarrow> k = 0 \<or> k = 1 \<or> k = 2 \<or> k = 3 \<or> k = 4 \<or> k = 5 \<or> k = 6 \<or> k = 7"
  by linarith

lemma byte_masks:
  assumes "k < 8" "r < 8"
  shows "bit (drop_bit k 0x80 :: byte) (7 - r) \<longleftrightarrow> r = k"
    and "bit (drop_bit k 0xFF :: byte) (7 - r) \<longleftrightarrow> k \<le> r"
    and "bit (NOT (drop_bit k 0xFF) :: byte) (7 - r) \<longleftrightarrow> r < k"
  using less_8_cases [OF assms(1)] less_8_cases [OF assms(2)] by (elim disjE; simp)+

lemma bitvec_or_marks:
  assumes "bitvec_or i m bits = Some bits'"
  shows "length bits' = length bits" "j div 8 < length bits \<Longrightarrow> marked bits' j \<longleftrightarrow> marked bits j \<or> (j div 8 = i \<and> bit m (7 - j mod 8))"
  using assms by (auto simp: bitvec_or_def marked_def nth_list_update bit_or_iff split: if_splits)

lemma bitvec_set_marks:
  assumes "pos div 8 < length bits"
  shows "\<exists>bits'. bitvec_set pos bits = Some bits' \<and> length bits' = length bits
     \<and> (\<forall>j. j div 8 < length bits \<longrightarrow> marked bits' j \<longleftrightarrow> marked bits j \<or> j = pos)"
proof -
  obtain bits' where b: "bitvec_or (pos div 8) (drop_bit (pos mod 8) 0x80) bits = Some bits'"
    using assms by (simp add: bitvec_or_def)
  have "j div 8 = pos div 8 \<and> j mod 8 = pos mod 8 \<longleftrightarrow> j = pos" for j by (metis div_mult_mod_eq)
  then show ?thesis
    using b bitvec_or_marks [OF b] byte_masks(1) [of "pos mod 8"] by (simp add: bitvec_set_def)
qed

lemma bitvec_set8_marks:
  assumes "Suc (pos div 8) < length bits"
  shows "\<exists>bits'. bitvec_set8 pos bits = Some bits' \<and> length bits' = length bits
     \<and> (\<forall>j. j div 8 < length bits \<longrightarrow> marked bits' j \<longleftrightarrow> marked bits j \<or> (pos \<le> j \<and> j < pos + 8))"
proof -
  obtain bits1 where b: "bitvec_or (pos div 8) (drop_bit (pos mod 8) 0xFF) bits = Some bits1"
    using assms by (simp add: bitvec_or_def)
  obtain bits2 where c: "bitvec_or (Suc (pos div 8)) (NOT (drop_bit (pos mod 8) 0xFF)) bits1 = Some bits2"
    using assms bitvec_or_marks(1) [OF b] by (simp add: bitvec_or_def)
  have "(j div 8 = pos div 8 \<and> pos mod 8 \<le> j mod 8) \<or> (j div 8 = Suc (pos div 8) \<and> j mod 8 < pos mod 8)
      \<longleftrightarrow> pos \<le> j \<and> j < pos + 8" for j
  proof -
    define q r p s where d: "q = j div 8" "r = j mod 8" "p = pos div 8" "s = pos mod 8"
    have "j = 8 * q + r" "pos = 8 * p + s" "r < 8" "s < 8" by (simp_all add: d)
    then show ?thesis unfolding d [symmetric] by linarith
  qed
  then show ?thesis
    using b c bitvec_or_marks [OF b] bitvec_or_marks [OF c] byte_masks(2,3) [of "pos mod 8"]
    by (auto simp: bitvec_set8_def)
qed

lemma codeSegment_marked: "n div 8 < length bits \<Longrightarrow> codeSegment n bits = Some (\<not> marked bits n)"
proof -
  have "(w AND drop_bit k 0x80 = 0) \<longleftrightarrow> \<not> bit w (7 - k)" if "k < 8" for w :: byte and k
  proof -
    have m: "bit (drop_bit k 0x80 :: byte) j \<longleftrightarrow> j = 7 - k" for j
    proof (cases "j < 8")
      case True
      then show ?thesis using byte_masks(1) [OF that, of "7 - j"] that by auto
    next
      case False
      then show ?thesis using that bit_imp_le_length [of "drop_bit k 0x80 :: byte" j] by auto
    qed
    show ?thesis
    proof
      assume "w AND drop_bit k 0x80 = 0"
      then have "\<not> bit (w AND drop_bit k 0x80) (7 - k)" by (simp only: bit_0_eq bot_apply bot_bool_def not_False_eq_True)
      then show "\<not> bit w (7 - k)" by (simp only: bit_and_iff m) blast
    next
      assume a: "\<not> bit w (7 - k)"
      show "w AND drop_bit k 0x80 = 0"
      proof (rule bit_word_eqI)
        fix j
        show "bit (w AND drop_bit k 0x80) j = bit (0 :: byte) j"
          using a by (simp only: bit_and_iff m bit_0_eq bot_apply bot_bool_def) blast
      qed
    qed
  qed
  then show "n div 8 < length bits \<Longrightarrow> ?thesis" by (simp add: codeSegment_def marked_def)
qed

section \<open>The analysis\<close>

lemma mark_push_marks:
  assumes "numbits \<le> 32" "pc + numbits \<le> L + 32" "length bits = L div 8 + 5"
  shows "\<exists>bits'. mark_push numbits pc bits = Some bits' \<and> length bits' = length bits
     \<and> (\<forall>j. j div 8 < length bits \<longrightarrow> marked bits' j \<longleftrightarrow> marked bits j \<or> (pc \<le> j \<and> j < pc + numbits))"
  using assms
proof (induction numbits arbitrary: pc bits rule: less_induct)
  case (less n)
  consider (eight) "8 \<le> n" | (one) "0 < n" "n < 8" | (none) "n = 0" by linarith
  then show ?case
  proof cases
    case eight
    then have "Suc (pc div 8) < length bits" using less.prems div8_bound [of pc L 3] by simp
    then obtain b where b: "bitvec_set8 pc bits = Some b" "length b = length bits"
      "\<And>j. j div 8 < length bits \<Longrightarrow> marked b j \<longleftrightarrow> marked bits j \<or> (pc \<le> j \<and> j < pc + 8)"
      using bitvec_set8_marks by blast
    moreover have "\<exists>b'. mark_push (n - 8) (pc + 8) b = Some b' \<and> length b' = length b
      \<and> (\<forall>j. j div 8 < length b \<longrightarrow> marked b' j \<longleftrightarrow> marked b j \<or> (pc + 8 \<le> j \<and> j < pc + n))"
      using less.IH [of "n - 8" "pc + 8" b] less.prems eight b(2) by simp
    moreover have "mark_push n pc bits = mark_push (n - 8) (pc + 8) b"
      using eight b(1) by (subst mark_push.simps) simp
    ultimately show ?thesis using eight by auto
  next
    case one
    then have "pc div 8 < length bits" using less.prems div8_bound [of pc L 4] by simp
    then obtain b where b: "bitvec_set pc bits = Some b" "length b = length bits"
      "\<And>j. j div 8 < length bits \<Longrightarrow> marked b j \<longleftrightarrow> marked bits j \<or> j = pc"
      using bitvec_set_marks by blast
    moreover have "\<exists>b'. mark_push (n - 1) (pc + 1) b = Some b' \<and> length b' = length b
      \<and> (\<forall>j. j div 8 < length b \<longrightarrow> marked b' j \<longleftrightarrow> marked b j \<or> (pc + 1 \<le> j \<and> j < pc + n))"
      using less.IH [of "n - 1" "pc + 1" b] less.prems one b(2) by simp
    moreover have "mark_push n pc bits = mark_push (n - 1) (pc + 1) b"
      using one b(1) by (subst mark_push.simps) simp
    ultimately show ?thesis using one by auto
  next
    case none
    then show ?thesis by (subst mark_push.simps) auto
  qed
qed

text \<open>The positions of the instructions of a code, read in sequence.\<close>

definition operand_bytes :: "byte \<Rightarrow> nat" where
  "operand_bytes opc = (if is_push opc then unat (opc - PUSH1) + 1 else 0)"

function instruction_starts :: "bytes \<Rightarrow> nat \<Rightarrow> nat list" where
  "instruction_starts code pc =
     (if pc < length code then pc # instruction_starts code (pc + 1 + operand_bytes (code ! pc)) else [])"
  by pat_completeness auto
termination
  by (relation "measure (\<lambda>(code, pc). length code - pc)") auto

declare instruction_starts.simps [simp del]

lemma operand_bytes_bound: "operand_bytes opc \<le> 32"
proof -
  have "unat (opc - PUSH1) \<le> 31" if "PUSH1 \<le> opc" "opc \<le> PUSH32"
    using that by (simp add: PUSH1_def PUSH32_def word_le_nat_alt unat_sub)
  then show ?thesis by (auto simp: operand_bytes_def is_push_def)
qed

lemma starts_ge: "n \<in> set (instruction_starts code pc) \<Longrightarrow> pc \<le> n"
  by (induction code pc rule: instruction_starts.induct) (subst (asm) (2) instruction_starts.simps, fastforce split: if_splits)

lemma codeBitmap_loop_marks:
  assumes "length bits = length code div 8 + 5" "\<And>j. pc \<le> j \<Longrightarrow> j < length code \<Longrightarrow> \<not> marked bits j"
  shows "\<exists>bits'. codeBitmap_loop code pc bits = Some bits' \<and> length bits' = length bits
     \<and> (\<forall>j < length code. if j < pc then marked bits' j = marked bits j
                          else marked bits' j \<longleftrightarrow> j \<notin> set (instruction_starts code pc))"
  using assms
proof (induction "length code - pc" arbitrary: pc bits rule: less_induct)
  case less
  show ?case
  proof (cases "pc < length code")
    case False
    then show ?thesis by (subst codeBitmap_loop.simps) simp
  next
    case True
    define n where "n = operand_bytes (code ! pc)"
    have n: "n \<le> 32" by (simp add: n_def operand_bytes_bound)
    obtain b where b: "mark_push n (pc + 1) bits = Some b" "length b = length bits"
      "\<And>j. j div 8 < length bits \<Longrightarrow> marked b j \<longleftrightarrow> marked bits j \<or> (pc + 1 \<le> j \<and> j < pc + 1 + n)"
      using mark_push_marks [of n "pc + 1" "length code" bits] n True less.prems(1) by auto
    have small: "j div 8 < length bits" if "j < length code" for j
      using that less.prems(1) div8_bound [of j "length code" 0] by simp
    obtain bits' where r: "codeBitmap_loop code (pc + 1 + n) b = Some bits'" "length bits' = length b"
      "\<And>j. j < length code \<Longrightarrow> if j < pc + 1 + n then marked bits' j = marked b j
          else marked bits' j \<longleftrightarrow> j \<notin> set (instruction_starts code (pc + 1 + n))"
    proof -
      have "\<not> marked b j" if "pc + 1 + n \<le> j" "j < length code" for j
        using b(3) [OF small [OF that(2)]] less.prems(2) that by auto
      then have "\<exists>bits'. codeBitmap_loop code (pc + 1 + n) b = Some bits' \<and> length bits' = length b
        \<and> (\<forall>j < length code. if j < pc + 1 + n then marked bits' j = marked b j
             else marked bits' j \<longleftrightarrow> j \<notin> set (instruction_starts code (pc + 1 + n)))"
        using less.hyps [of "pc + 1 + n" b] True b(2) less.prems(1) by simp
      then show ?thesis using that by blast
    qed
    have "codeBitmap_loop code pc bits = Some bits'"
      using r(1) b(1) True by (subst codeBitmap_loop.simps) (auto simp: n_def operand_bytes_def Let_def mark_push.simps [of 0])
    moreover have "if j < pc then marked bits' j = marked bits j else marked bits' j \<longleftrightarrow> j \<notin> set (instruction_starts code pc)"
      if j: "j < length code" for j
    proof -
      have "instruction_starts code pc = pc # instruction_starts code (pc + 1 + n)"
        using True by (subst instruction_starts.simps) (simp add: n_def)
      then show ?thesis
        using r(3) [OF j] b(3) [OF small [OF j]] less.prems(2) [of j] j starts_ge [of j code "pc + 1 + n"]
        by (auto split: if_splits)
    qed
    ultimately show ?thesis using r(2) b(2) by auto
  qed
qed

lemma codeBitmap_segments:
  obtains bits where "codeBitmap code = Some bits"
    "\<And>n. n < length code \<Longrightarrow> codeSegment n bits = Some (n \<in> set (instruction_starts code 0))"
proof -
  define z where "z = (replicate (length code div 8 + 5) 0 :: bitvec)"
  have z: "\<not> marked z j" if "j < length code" for j
  proof -
    have "j div 8 < length code div 8 + 5" using that div8_bound [of j "length code" 0] by simp
    then show ?thesis by (simp add: z_def marked_def)
  qed
  have l: "length z = length code div 8 + 5" by (simp add: z_def)
  obtain bits where b: "codeBitmap_loop code 0 z = Some bits" "length bits = length z"
    "\<forall>j < length code. marked bits j \<longleftrightarrow> j \<notin> set (instruction_starts code 0)"
    using codeBitmap_loop_marks [of z code 0, OF l] z by auto
  have "codeBitmap code = Some bits" using b(1) by (simp add: codeBitmap_def z_def add.commute)
  moreover have "codeSegment n bits = Some (n \<in> set (instruction_starts code 0))" if "n < length code" for n
  proof -
    have "n div 8 < length bits" using that b(2) l div8_bound [of n "length code" 0] by simp
    then show ?thesis using codeSegment_marked b(3) that by auto
  qed
  ultimately show ?thesis by (rule that)
qed

section \<open>Jump destinations\<close>

text \<open>Every cached analysis of this contract's code is the one its code gives.\<close>

definition analyses_ok :: "(hash \<rightharpoonup> bitvec) \<Rightarrow> contract \<Rightarrow> bool" where
  "analyses_ok jumpdests c \<longleftrightarrow>
     (\<forall>an. jumpdests (ct_CodeHash c) = Some an \<longrightarrow> codeBitmap (ct_Code c) = Some an)
     \<and> (\<forall>an. ct_analysis c = Some an \<longrightarrow> codeBitmap (ct_Code c) = Some an)"

definition jump_target :: "bytes \<Rightarrow> int \<Rightarrow> bool" where
  "jump_target code dest \<longleftrightarrow>
     (nat dest < length code \<and> code ! nat dest = JUMPDEST \<and> nat dest \<in> set (instruction_starts code 0))"

text \<open>
  C18: A jump destination is accepted exactly when it is the position of a \<open>JUMPDEST\<close> that is an instruction
  of the code, not an operand byte of a push. The bit map is long enough for every code, so the check
  never panics, and the analyses it leaves in the caches are those of the code.
\<close>

theorem validJumpdest_correct:
  assumes "0 \<le> dest" and "length (ct_Code c) < 2 ^ 62" and "analyses_ok jumpdests c"
  shows "\<exists>jumpdests' an. validJumpdest jumpdests c dest
           = Some (jumpdests', c\<lparr>ct_analysis := an\<rparr>, jump_target (ct_Code c) dest)
         \<and> analyses_ok jumpdests' (c\<lparr>ct_analysis := an\<rparr>)"
proof -
  let ?L = "ct_Code c"
  obtain bits where b: "codeBitmap ?L = Some bits"
    "\<And>n. n < length ?L \<Longrightarrow> codeSegment n bits = Some (n \<in> set (instruction_starts ?L 0))"
    by (rule codeBitmap_segments [of ?L]) blast
  show ?thesis
  proof (cases "nat dest < length ?L")
    case False
    have "unat (Uint64 dest) = nat dest" if "\<not> big_BitLen dest \<ge> 63"
      using that big_BitLen_le [OF assms(1), of 62] Uint64_small [OF assms(1)] by simp
    then have "big_BitLen dest \<ge> 63 \<or> unat (Uint64 dest) \<ge> length ?L" using False by fastforce
    then show ?thesis
      using False assms(3) by (intro exI [of _ jumpdests] exI [of _ "ct_analysis c"]) (simp add: validJumpdest_def jump_target_def Let_def)
  next
    case True
    then have "dest < 2 ^ 62" using assms(1,2) by (simp add: nat_less_iff)
    then have d: "unat (Uint64 dest) = nat dest" "big_BitLen dest < 63"
      using big_BitLen_le [OF assms(1), of 62] Uint64_small [OF assms(1)] by simp_all
    have an: "\<And>an. jumpdests (ct_CodeHash c) = Some an \<Longrightarrow> an = bits" "\<And>an. ct_analysis c = Some an \<Longrightarrow> an = bits"
      using assms(3) b(1) by (auto simp: analyses_ok_def)
    have r: "validJumpdest jumpdests c dest =
       (if ?L ! nat dest \<noteq> JUMPDEST then Some (jumpdests, c, False)
        else if ct_CodeHash c \<noteq> EmptyHash
        then Some (jumpdests(ct_CodeHash c \<mapsto> bits), c, nat dest \<in> set (instruction_starts ?L 0))
        else Some (jumpdests, c\<lparr>ct_analysis := Some bits\<rparr>, nat dest \<in> set (instruction_starts ?L 0)))"
      using True d b(1) b(2) [OF True] an by (auto simp: validJumpdest_def Let_def split: option.splits)
    show ?thesis
      using assms(3) b(1) True unfolding r
      by (intro exI [of _ "if ?L ! nat dest = JUMPDEST \<and> ct_CodeHash c \<noteq> EmptyHash then jumpdests(ct_CodeHash c \<mapsto> bits) else jumpdests"]
          exI [of _ "if ?L ! nat dest = JUMPDEST \<and> ct_CodeHash c = EmptyHash then Some bits else ct_analysis c"])
        (auto simp: analyses_ok_def jump_target_def)
  qed
qed


text \<open>Code \<open>JUMPDEST PUSH1 0x5B JUMPDEST\<close>: position 2 holds the byte of a \<open>JUMPDEST\<close>, but as an operand.\<close>

theorem validJumpdest_correct_witness:
  "(let c = SetCallCode [9] EmptyHash [0x5B, 0x60, 0x5B, 0x5B] (NewContract [1] [9] 0 100)
    in (\<forall>d \<in> {0, 3}. \<exists>jumpdests an. validJumpdest Map.empty c d = Some (jumpdests, c\<lparr>ct_analysis := an\<rparr>, True))
     \<and> (\<forall>d \<in> {1, 2, 4}. \<exists>jumpdests an. validJumpdest Map.empty c d = Some (jumpdests, c\<lparr>ct_analysis := an\<rparr>, False)))"
proof -
  define c where "c = SetCallCode [9] EmptyHash [0x5B, 0x60, 0x5B, 0x5B] (NewContract [1] [9] 0 100)"
  have code: "ct_Code c = [0x5B, 0x60, 0x5B, 0x5B]" by (simp add: c_def SetCallCode_def)
  have "analyses_ok Map.empty c" by (simp add: analyses_ok_def c_def SetCallCode_def NewContract_def)
  then have r: "\<exists>jumpdests an. validJumpdest Map.empty c d = Some (jumpdests, c\<lparr>ct_analysis := an\<rparr>, jump_target (ct_Code c) d)" if "0 \<le> d" for d
    using validJumpdest_correct [OF that, of c Map.empty] code by auto
  have "jump_target (ct_Code c) 0" "jump_target (ct_Code c) 3" "\<not> jump_target (ct_Code c) 1"
    "\<not> jump_target (ct_Code c) 2" "\<not> jump_target (ct_Code c) 4"
    unfolding code by code_simp+
  then show ?thesis
    using r [of 0] r [of 1] r [of 2] r [of 3] r [of 4] by (simp add: Let_def flip: c_def)
qed

end
