(* ===== verification/Evm_Term.thy ===== *)
theory Evm_Term
  imports Evm_Run
begin

text \<open>
  Gas bounds execution. Every instruction that does not end the run costs gas, a call passes on less
  gas than its caller had, and no contract ends with more gas than it was given; so a number of
  rounds above the gas of a contract is enough for its whole execution, nested calls included.
\<close>

section \<open>Plain instructions\<close>

text \<open>Instructions that do not call: they leave the gas of the contract alone.\<close>

abbreviation gas_of :: "'s vst \<Rightarrow> nat" where "gas_of st \<equiv> unat (ct_Gas (vs_contract st))"

definition plain :: "('s vst \<Rightarrow> 's res) \<Rightarrow> bool" where
  "plain f \<longleftrightarrow> (\<forall>st. ct_Gas (vs_contract (fst (f st))) = ct_Gas (vs_contract st) \<and> snd (snd (f st)) \<noteq> Some VmFuel)"

lemma plain_shapes [simp]:
  "plain ok" "plain (push v)" "plain (unop g)" "plain (binop h)" "plain (triop k)" "plain (dbop d)" "plain (copy_op b)"
  by (auto simp: plain_def ok_def fail_def push_def unop_def binop_def triop_def dbop_def copy_op_def set_mem_def
      set_db_def split: list.splits option.splits prod.splits)

lemma plain_arith [simp]:
  "plain opAdd" "plain opSub" "plain opMul" "plain opDiv" "plain opSdiv" "plain opMod" "plain opSmod" "plain opExp"
  "plain opNot" "plain opLt" "plain opGt" "plain opSlt" "plain opSgt" "plain opEq" "plain opIszero" "plain opAnd"
  "plain opOr" "plain opXor" "plain opByte" "plain opAddmod" "plain opMulmod" "plain opSHL" "plain opSHR" "plain opSAR"
  by (simp_all add: opAdd_def opSub_def opMul_def opDiv_def opSdiv_def opMod_def opSmod_def opExp_def opNot_def opLt_def
      opGt_def opSlt_def opSgt_def opEq_def opIszero_def opAnd_def opOr_def opXor_def opByte_def opAddmod_def
      opMulmod_def opSHL_def opSHR_def opSAR_def)

lemma plain_env [simp]:
  "plain (opBalance E)" "plain (opOrigin E)" "plain (opExtCodeSize E)" "plain (opExtCodeHash E)"
  "plain (opBlockhash E)" "plain (opCoinbase E)" "plain (opTimestamp E)" "plain (opNumber E)" "plain (opDifficulty E)"
  "plain (opGasLimit E)" "plain opJumpdest"
  by (simp_all add: opBalance_def opOrigin_def opExtCodeSize_def opExtCodeHash_def opBlockhash_def
      opCoinbase_def opTimestamp_def opNumber_def opDifficulty_def opGasLimit_def)
    (simp add: plain_def opJumpdest_def ok_def)

lemma validJumpdest_gas: "validJumpdest jd c pos = Some (jd', c', b) \<Longrightarrow> ct_Gas c' = ct_Gas c"
  by (auto simp: validJumpdest_def Let_def split: if_splits option.splits)

lemma plain_more [simp]:
  "plain opSignExtend" "plain (opSha3 E)" "plain opAddress" "plain opCaller" "plain opCallValue" "plain opCallDataLoad"
  "plain opCallDataSize" "plain opCallDataCopy" "plain opReturnDataSize" "plain opReturnDataCopy" "plain opCodeSize"
  "plain opCodeCopy" "plain (opExtCodeCopy E)" "plain (opGasprice E)" "plain opPop" "plain opMload" "plain opMstore"
  "plain opMstore8" "plain (opSload E)" "plain (opSstore E)" "plain opPc" "plain opMsize" "plain opGas"
  by (auto simp: plain_def ok_def fail_def push_def unop_def dbop_def copy_op_def set_mem_def set_db_def
      opSignExtend_def opSha3_def opAddress_def opCaller_def opCallValue_def opCallDataLoad_def opCallDataSize_def
      opCallDataCopy_def opReturnDataSize_def opReturnDataCopy_def opCodeSize_def opCodeCopy_def opExtCodeCopy_def
      opGasprice_def opPop_def opMload_def opMstore_def opMstore8_def opSload_def opSstore_def opPc_def opMsize_def
      opGas_def Let_def split: list.splits option.splits prod.splits)

lemma plain_last [simp]:
  "plain opJump" "plain opJumpi" "plain opReturn" "plain opRevert" "plain opStop" "plain (opSuicide E)"
  "plain (makeLog E n)" "plain (makePush sz n)" "plain (makeDup n)" "plain (makeSwap n)"
  by (auto simp: plain_def ok_def fail_def push_def set_db_def jump_to_def opJump_def opJumpi_def opReturn_def
      opRevert_def opStop_def opSuicide_def makeLog_def makePush_def makeDup_def makeSwap_def mem_result_def Let_def
      dest: validJumpdest_gas split: list.splits option.splits prod.splits if_splits)


section \<open>Prices\<close>

lemma unat_max_minus: "unat (- 1 - x :: uint64) = 2 ^ 64 - 1 - unat x"
proof -
  have "x \<le> - 1" by simp
  then show ?thesis by (simp add: unat_sub unsigned_minus_1_eq_mask mask_eq_exp_minus_1)
qed

lemma unat64: "unat (x :: uint64) < 2 ^ 64"
proof -
  have "unat x < 2 ^ LENGTH(64)" by (rule unsigned_less)
  then show ?thesis by simp
qed

lemma SafeAdd_exact: "SafeAdd x y = (s, False) \<Longrightarrow> unat s = unat x + unat y"
proof -
  assume *: "SafeAdd x y = (s, False)"
  then have "y \<le> - 1 - x" by (simp add: SafeAdd_def not_less)
  then have "unat y \<le> 2 ^ 64 - 1 - unat x" by (simp add: word_le_nat_alt unat_max_minus)
  then have "unat x + unat y < 2 ^ 64" using unat64 [of x] by simp
  with * show ?thesis by (auto simp: SafeAdd_def unat_word_ariths)
qed

lemma add_gas_exact: "add_gas x y = Inr s \<Longrightarrow> unat s = unat x + unat y"
  by (auto simp: add_gas_def split: prod.splits if_splits dest: SafeAdd_exact)

lemma gas_errors [simp]:
  "add_gas x y = Inl e \<Longrightarrow> e = ErrGasUintOverflow" "mul_gas x y = Inl e \<Longrightarrow> e = ErrGasUintOverflow"
  by (auto simp: add_gas_def mul_gas_def split: prod.splits if_splits)

text \<open>
  A gas function with a least price: it does not touch the contract, and if it succeeds the price is
  at least the given one.
\<close>

definition price_ok :: "nat \<Rightarrow> gas_result \<Rightarrow> bool" where
  "price_ok n r \<longleftrightarrow> (case r of Inl e \<Rightarrow> e \<noteq> VmFuel | Inr c \<Rightarrow> n \<le> unat c)"

definition priced :: "nat \<Rightarrow> ('s vst \<Rightarrow> uint64 \<Rightarrow> 's vst \<times> gas_result) \<Rightarrow> bool" where
  "priced n gc \<longleftrightarrow>
     (\<forall>st m. vs_contract (fst (gc st m)) = vs_contract st \<and> vs_stack (fst (gc st m)) = vs_stack st
        \<and> price_ok n (snd (gc st m)))"

lemma pricedD:
  "priced n gc \<Longrightarrow> gc st m = (st1, r) \<Longrightarrow> vs_contract st1 = vs_contract st \<and> vs_stack st1 = vs_stack st \<and> price_ok n r"
  by (metis priced_def fst_conv snd_conv)

lemma price_ok_simps [simp]: "price_ok n (Inl e) \<longleftrightarrow> e \<noteq> VmFuel" "price_ok n (Inr c) \<longleftrightarrow> n \<le> unat c"
  by (simp_all add: price_ok_def)

lemma price_ok_add: "n \<le> unat x \<or> n \<le> unat y \<Longrightarrow> price_ok n (add_gas x y)"
  by (cases "add_gas x y") (auto dest: add_gas_exact gas_errors)

lemma price_ok_bind: "price_ok 0 r \<Longrightarrow> (\<And>g. r = Inr g \<Longrightarrow> price_ok n (f g)) \<Longrightarrow> price_ok n (bind_gas r f)"
  by (cases r) (auto simp: bind_gas_def)

lemma price_ok_mul: "price_ok 0 (mul_gas x y)"
  by (cases "mul_gas x y") (auto dest: gas_errors)

lemma price_ok_back: "(\<And>v. price_ok n (f v)) \<Longrightarrow> price_ok n (back_gas i st f)"
  by (auto simp: back_gas_def split: option.splits)

lemma memoryGasCost_ok: "memoryGasCost m sz = (m', r) \<Longrightarrow> price_ok 0 r"
  by (auto simp: memoryGasCost_def Let_def split: if_splits)

lemma priced_const [simp]: "n \<le> unat g \<Longrightarrow> priced n (constGasFunc g)"
  by (simp add: priced_def constGasFunc_def)

lemma priced_with_mem': "(\<And>(st :: 's vst) g. price_ok n (f st g)) \<Longrightarrow> priced n (\<lambda>st. with_mem_gas (f st) st)"
  unfolding priced_def with_mem_gas_def
proof (intro allI)
  fix st :: "'s vst" and m
  assume f: "\<And>st g. price_ok n (f st g)"
  obtain m' r where r: "memoryGasCost (vs_mem st) m = (m', r)" by fastforce
  have "price_ok n (bind_gas r (f st))" by (rule price_ok_bind [OF memoryGasCost_ok [OF r] f])
  then show "vs_contract (fst (case memoryGasCost (vs_mem st) m of (m, r) \<Rightarrow> (st\<lparr>vs_mem := m\<rparr>, bind_gas r (f st)))) = vs_contract st
      \<and> vs_stack (fst (case memoryGasCost (vs_mem st) m of (m, r) \<Rightarrow> (st\<lparr>vs_mem := m\<rparr>, bind_gas r (f st)))) = vs_stack st
      \<and> price_ok n (snd (case memoryGasCost (vs_mem st) m of (m, r) \<Rightarrow> (st\<lparr>vs_mem := m\<rparr>, bind_gas r (f st))))"
    using r by simp
qed

lemma priced_with_mem: "(\<And>g. price_ok n (f g)) \<Longrightarrow> priced n (with_mem_gas f)"
  by (rule priced_with_mem' [of n "\<lambda>_. f"])

lemma priced_per_word: "n \<le> unat base \<Longrightarrow> priced n (per_word_gas base i price)"
proof -
  assume n: "n \<le> unat base"
  have "price_ok n (bind_gas (add_gas gas base) (\<lambda>gas1.
       back_gas i st (\<lambda>w. case bigUint64 w of (words, overflow) \<Rightarrow>
         if overflow then Inl ErrGasUintOverflow
         else bind_gas (mul_gas (toWordSize words) price) (\<lambda>wg. add_gas gas1 wg))))" for gas and st :: "'s vst"
    using n by (intro price_ok_bind price_ok_back)
      (auto simp: bigUint64_def intro!: price_ok_bind price_ok_add price_ok_mul dest: add_gas_exact)
  then show ?thesis
    unfolding per_word_gas_def by (rule priced_with_mem')
qed

lemma gas_constants [simp]:
  "unat GasQuickStep = 2" "unat GasFastestStep = 3" "unat GasFastStep = 5" "unat GasMidStep = 8" "unat GasSlowStep = 10"
  "unat GasExtStep = 20" "unat JumpdestGas = 1" "unat CreateGas = 32000" "unat Create2Gas = 32000" "unat Sha3Gas = 30"
  "unat LogGas = 375" "unat CallValueTransferGas = 9000" "unat CallNewAccountGas = 25000" "unat CallStipend = 2300"
  "unat SstoreSetGas = 20000" "unat SstoreResetGas = 5000" "unat SstoreClearGas = 5000" "unat NetSstoreNoopGas = 200"
  "unat NetSstoreInitGas = 20000" "unat NetSstoreCleanGas = 5000" "unat NetSstoreDirtyGas = 200"
  by (simp_all add: GasQuickStep_def GasFastestStep_def GasFastStep_def GasMidStep_def GasSlowStep_def GasExtStep_def
      JumpdestGas_def CreateGas_def Create2Gas_def Sha3Gas_def LogGas_def CallValueTransferGas_def CallNewAccountGas_def
      CallStipend_def SstoreSetGas_def SstoreResetGas_def SstoreClearGas_def NetSstoreNoopGas_def NetSstoreInitGas_def
      NetSstoreCleanGas_def NetSstoreDirtyGas_def)

text \<open>The prices of a chain: positive, and the price of a call far from the end of 64 bits.\<close>

definition prices_ok :: "'s env \<Rightarrow> bool" where
  "prices_ok E \<longleftrightarrow>
     (let t = en_gasTable E
      in 0 < gt_ExtcodeSize t \<and> 0 < gt_ExtcodeCopy t \<and> (en_IsConstantinople E \<longrightarrow> 0 < gt_ExtcodeHash t) \<and> 0 < gt_Balance t
         \<and> 0 < gt_SLoad t \<and> 0 < gt_Calls t \<and> gt_Calls t < 2 ^ 63)"

lemma priced_table:
  assumes "prices_ok E"
  shows "priced 1 (gasExtCodeCopy E)" "priced 1 (gasBalance E)" "priced 1 (gasExtCodeSize E)" "priced 1 (gasSLoad E)"
    "en_IsConstantinople E \<Longrightarrow> priced 1 (gasExtCodeHash E)" "priced 1 (gasExp E)" "priced 1 (gasSStore E)"
proof -
  have pos: "Suc 0 \<le> unat w \<longleftrightarrow> 0 < w" for w :: uint64 by (simp add: Suc_le_eq unat_gt_0 word_neq_0_conv)
  show "priced 1 (gasExtCodeCopy E)" "priced 1 (gasBalance E)" "priced 1 (gasExtCodeSize E)" "priced 1 (gasSLoad E)"
    "en_IsConstantinople E \<Longrightarrow> priced 1 (gasExtCodeHash E)"
    using assms
    by (simp_all add: prices_ok_def Let_def pos gasExtCodeCopy_def priced_per_word)
      (simp_all add: priced_def gasBalance_def gasExtCodeSize_def gasSLoad_def gasExtCodeHash_def pos)
  show "priced 1 (gasExp E)"
    by (auto simp: priced_def gasExp_def Let_def intro!: price_ok_back price_ok_add)
  show "priced 1 (gasSStore E)"
    by (auto simp: priced_def gasSStore_def set_db_def Let_def split: option.splits prod.splits)
qed

lemma priced_plain [simp]:
  "priced 1 gasCallDataCopy" "priced 1 gasReturnDataCopy" "priced 1 gasCodeCopy" "priced 1 gasSha3"
  "priced 32000 gasCreate2" "priced 1 gasMLoad" "priced 1 gasMStore8" "priced 1 gasMStore" "priced 32000 gasCreate"
  "priced 0 gasReturn" "priced 0 gasRevert" "priced 1 gasPush" "priced 1 gasSwap" "priced 1 gasDup"
  by (simp_all add: gasCallDataCopy_def gasReturnDataCopy_def gasCodeCopy_def gasSha3_def gasCreate2_def priced_per_word
      gasMLoad_def gasMStore8_def gasMStore_def gasCreate_def gasReturn_def gasRevert_def priced_with_mem price_ok_add)
    (simp_all add: priced_def gasPush_def gasSwap_def gasDup_def)

lemma priced_suicide [simp]: "priced 0 (gasSuicide E)"
  by (simp add: priced_def gasSuicide_def set_db_def Let_def split: option.splits prod.splits)

lemma priced_log [simp]: "priced 1 (makeGasLog w :: 's vst \<Rightarrow> _)"
proof -
  have "price_ok 1 (bind_gas (add_gas gas LogGas) (\<lambda>gas1. bind_gas (add_gas gas1 (w * LogTopicGas)) (\<lambda>gas2.
      bind_gas (mul_gas sz LogDataGas) (\<lambda>memorySizeGas. add_gas gas2 memorySizeGas))))" for gas sz
    by (intro price_ok_bind price_ok_add price_ok_mul) (auto dest!: add_gas_exact)
  then have "priced 1 (with_mem_gas (\<lambda>gas. bind_gas (add_gas gas LogGas) (\<lambda>gas1. bind_gas (add_gas gas1 (w * LogTopicGas))
      (\<lambda>gas2. bind_gas (mul_gas sz LogDataGas) (\<lambda>memorySizeGas. add_gas gas2 memorySizeGas)))) :: 's vst \<Rightarrow> _)" for sz
    by (rule priced_with_mem)
  then show ?thesis
    by (simp add: priced_def makeGasLog_def bigUint64_def split: option.splits)
qed

lemmas priced_Suc [simp] = priced_plain [unfolded One_nat_def] priced_log [unfolded One_nat_def]

section \<open>The instruction table\<close>

definition simple_op :: "'s operation \<Rightarrow> bool" where
  "simple_op opn \<longleftrightarrow> plain (op_execute opn) \<and> priced (if op_halts opn \<or> op_reverts opn then 0 else 1) (op_gasCost opn)"

definition stack_errors :: "'s operation \<Rightarrow> bool" where
  "stack_errors opn \<longleftrightarrow> (\<forall>s. op_validateStack opn s \<noteq> Some VmFuel)"

lemma makeStackFunc_errors [simp]:
  "makeStackFunc a b s \<noteq> Some VmFuel" "makeDupStackFunc a s \<noteq> Some VmFuel" "makeSwapStackFunc a s \<noteq> Some VmFuel"
  by (simp_all add: makeStackFunc_def makeDupStackFunc_def makeSwapStackFunc_def stack_require_def)

text \<open>The six entries that call other contracts.\<close>

definition op_create :: "'s env \<Rightarrow> 's calls \<Rightarrow> 's operation" where
  "op_create E C = (oper (opCreate E C) gasCreate (makeStackFunc 3 1))
     \<lparr>op_memorySize := Some memoryCreate, op_writes := True, op_returns := True\<rparr>"

definition op_create2 :: "'s calls \<Rightarrow> 's operation" where
  "op_create2 C = (oper (opCreate2 C) gasCreate2 (makeStackFunc 4 1))
     \<lparr>op_memorySize := Some memoryCreate2, op_writes := True, op_returns := True\<rparr>"

definition op_call :: "'s env \<Rightarrow> 's calls \<Rightarrow> 's operation" where
  "op_call E C = (oper (opCall C) (gasCall E) (makeStackFunc 7 1))
     \<lparr>op_memorySize := Some memoryCall, op_returns := True\<rparr>"

definition op_callcode :: "'s env \<Rightarrow> 's calls \<Rightarrow> 's operation" where
  "op_callcode E C = (oper (opCallCode C) (gasCallCode E) (makeStackFunc 7 1))
     \<lparr>op_memorySize := Some memoryCall, op_returns := True\<rparr>"

definition op_delegatecall :: "'s env \<Rightarrow> 's calls \<Rightarrow> 's operation" where
  "op_delegatecall E C = (oper (opDelegateCall C) (gasDelegateCall E) (makeStackFunc 6 1))
     \<lparr>op_memorySize := Some memoryDelegateCall, op_returns := True\<rparr>"

definition op_staticcall :: "'s env \<Rightarrow> 's calls \<Rightarrow> 's operation" where
  "op_staticcall E C = (oper (opStaticCall C) (gasStaticCall E) (makeStackFunc 6 1))
     \<lparr>op_memorySize := Some memoryStaticCall, op_returns := True\<rparr>"

lemmas call_ops = op_create_def op_create2_def op_call_def op_callcode_def op_delegatecall_def op_staticcall_def

definition is_call_op :: "'s env \<Rightarrow> 's calls \<Rightarrow> 's operation \<Rightarrow> bool" where
  "is_call_op E C opn \<longleftrightarrow> opn \<in> {op_create E C, op_create2 C, op_call E C, op_callcode E C, op_delegatecall E C, op_staticcall E C}"

lemma oper_simps [simp]:
  "op_execute (oper ex gas v) = ex" "op_gasCost (oper ex gas v) = gas" "op_validateStack (oper ex gas v) = v"
  "op_memorySize (oper ex gas v) = None" "op_halts (oper ex gas v) = False" "op_jumps (oper ex gas v) = False"
  "op_writes (oper ex gas v) = False" "op_reverts (oper ex gas v) = False" "op_returns (oper ex gas v) = False"
  by (simp_all add: oper_def)

lemma frontier_simple:
  assumes "prices_ok E"
  shows "list_all (\<lambda>p. simple_op (snd p) \<and> stack_errors (snd p))
    (frontier_arith E @ frontier_compare E @ frontier_env E @ frontier_block E @ frontier_mem E @ frontier_push
     @ frontier_dup @ frontier_swap @ frontier_log E)"
  using priced_table [OF assms]
  unfolding frontier_arith_def frontier_compare_def frontier_env_def frontier_block_def frontier_mem_def
    frontier_push_def frontier_dup_def frontier_swap_def frontier_log_def
  by (simp add: simple_op_def stack_errors_def list_all_iff ball_Un del: upt_Suc)


definition entry_ok :: "'s env \<Rightarrow> 's calls \<Rightarrow> 's operation \<Rightarrow> bool" where
  "entry_ok E C opn \<longleftrightarrow> (simple_op opn \<or> is_call_op E C opn) \<and> stack_errors opn"

lemma entry_ok_calls:
  "entry_ok E C (op_create E C)" "entry_ok E C (op_create2 C)" "entry_ok E C (op_call E C)" "entry_ok E C (op_callcode E C)"
  "entry_ok E C (op_delegatecall E C)" "entry_ok E C (op_staticcall E C)"
  by (simp_all add: entry_ok_def is_call_op_def) (simp_all add: stack_errors_def call_ops)

lemma entry_ok_simple: "simple_op opn \<Longrightarrow> stack_errors opn \<Longrightarrow> entry_ok E C opn"
  by (simp add: entry_ok_def)

lemma frontier_entries:
  assumes "prices_ok E"
  shows "list_all (\<lambda>p. entry_ok E C (snd p)) (newFrontierInstructionSet E C)"
proof -
  have "list_all (\<lambda>p. entry_ok E C (snd p))
    (frontier_arith E @ frontier_compare E @ frontier_env E @ frontier_block E @ frontier_mem E @ frontier_push
     @ frontier_dup @ frontier_swap @ frontier_log E)"
    by (rule list.pred_mono_strong [OF frontier_simple [OF assms]]) (simp add: entry_ok_simple)
  moreover have "list_all (\<lambda>p. entry_ok E C (snd p)) (frontier_call E C)"
    using entry_ok_calls [of E C]
    by (simp add: frontier_call_def call_ops) (simp add: entry_ok_def simple_op_def stack_errors_def)
  ultimately show ?thesis by (simp add: newFrontierInstructionSet_def)
qed

lemma table_entries:
  assumes "prices_ok E"
  shows "list_all (\<lambda>p. entry_ok E C (snd p)) (JumpTable E C)"
proof -
  note f = frontier_entries [OF assms, of C]
  have h: "list_all (\<lambda>p. entry_ok E C (snd p)) (newHomesteadInstructionSet E C)"
    using f entry_ok_calls(5) [of E C] by (simp add: newHomesteadInstructionSet_def call_ops)
  have b: "list_all (\<lambda>p. entry_ok E C (snd p)) (newByzantiumInstructionSet E C)"
    using h entry_ok_calls(6) [of E C]
    by (simp add: newByzantiumInstructionSet_def call_ops) (simp add: entry_ok_def simple_op_def stack_errors_def)
  have "list_all (\<lambda>p. entry_ok E C (snd p)) (newConstantinopleInstructionSet E C)" if "en_IsConstantinople E"
    using b entry_ok_calls(2) [of E C] priced_table(5) [OF assms that]
    by (simp add: newConstantinopleInstructionSet_def call_ops) (simp add: entry_ok_def simple_op_def stack_errors_def)
  then show ?thesis using f h b by (simp add: JumpTable_def)
qed


section \<open>One round\<close>

lemma UseGas_paid: "UseGas g c = (c', True) \<Longrightarrow> unat g \<le> unat (ct_Gas c) \<and> unat (ct_Gas c') = unat (ct_Gas c) - unat g"
  by (auto simp: UseGas_def word_less_nat_alt not_less unat_sub word_le_nat_alt split: if_splits)

lemma UseGas_left: "UseGas g c = (c', b) \<Longrightarrow> unat (ct_Gas c') \<le> unat (ct_Gas c)"
  by (auto simp: UseGas_def word_less_nat_alt not_less unat_sub word_le_nat_alt split: if_splits)

lemma required_memory_errors: "required_memory opn s \<noteq> Inl VmFuel"
  by (auto simp: required_memory_def bigUint64_def dest: gas_errors split: option.splits)

lemma prepare_done:
  assumes "prepare opn st = (st2, None)"
  obtains m st1 cost where "op_gasCost opn st m = (st1, Inr cost)" "unat cost \<le> gas_of st1" "gas_of st2 = gas_of st1 - unat cost"
    "vs_stack st2 = vs_stack st1" "vs_evm st2 = vs_evm st1"
  using assms
  by (auto simp: prepare_def split: sum.splits prod.splits if_splits dest: UseGas_paid)

lemma prepare_failed:
  assumes "prepare opn st = (st2, Some e)" "priced n (op_gasCost opn)"
  shows "gas_of st2 = gas_of st \<and> e \<noteq> VmFuel"
proof (cases "required_memory opn (vs_stack st)")
  case (Inl x)
  then show ?thesis using assms(1) required_memory_errors [of opn "vs_stack st"] by (auto simp: prepare_def)
next
  case (Inr m)
  obtain st1 r where g: "op_gasCost opn st m = (st1, r)" by fastforce
  then have "vs_contract st1 = vs_contract st" "price_ok n r" using pricedD [OF assms(2)] by auto
  then show ?thesis using assms(1) Inr g
    by (auto simp: prepare_def fatal_def split: sum.splits prod.splits if_splits)
qed

text \<open>What the calls owe: they give back no more gas than they got, and do not run out of rounds.\<close>

definition call_ok :: "uint64 \<Rightarrow> 's evm \<times> bytes \<times> uint64 \<times> vm_error option \<Rightarrow> bool" where
  "call_ok g r \<longleftrightarrow> (case r of (ev, ret, g', err) \<Rightarrow> unat g' \<le> unat g \<and> err \<noteq> Some VmFuel)"

definition create_ok :: "uint64 \<Rightarrow> 's evm \<times> bytes \<times> address \<times> uint64 \<times> vm_error option \<Rightarrow> bool" where
  "create_ok g r \<longleftrightarrow> (case r of (ev, ret, ad, g', err) \<Rightarrow> unat g' \<le> unat g \<and> err \<noteq> Some VmFuel)"

definition calls_ok :: "nat \<Rightarrow> 's calls \<Rightarrow> bool" where
  "calls_ok n C \<longleftrightarrow>
     (\<forall>g. unat g < n \<longrightarrow>
        (\<forall>ev a b i v. call_ok g (ca_Call C ev a b i g v)) \<and> (\<forall>ev a b i v. call_ok g (ca_CallCode C ev a b i g v))
        \<and> (\<forall>ev c b i. call_ok g (ca_DelegateCall C ev c b i g)) \<and> (\<forall>ev a b i. call_ok g (ca_StaticCall C ev a b i g))
        \<and> (\<forall>ev a i v. create_ok g (ca_Create C ev a i g v)) \<and> (\<forall>ev a i v w. create_ok g (ca_Create2 C ev a i g v w)))"

lemma charge_call_cost:
  assumes "mem_charge_call E base st m = (st1, Inr cost)"
  shows "vs_contract st1 = vs_contract st \<and> unat base + unat (ev_callGasTemp (vs_evm st1)) \<le> unat cost"
  using assms
  by (auto simp: mem_charge_call_def charge_call_def bind_gas_def Let_def dest!: add_gas_exact
      split: prod.splits sum.splits option.splits)

lemma callGas_errors: "callGas gt a b c = Inl e \<Longrightarrow> e = ErrGasUintOverflow"
  by (auto simp: callGas_def Let_def split: if_splits)

lemma charge_call_priced: "priced 0 (mem_charge_call E base)"
proof -
  have "vs_contract (fst (mem_charge_call E base st m)) = vs_contract st \<and> vs_stack (fst (mem_charge_call E base st m)) = vs_stack st
      \<and> price_ok 0 (snd (mem_charge_call E base st m))" for st m
    using memoryGasCost_ok [of "vs_mem st" m]
    by (auto simp: mem_charge_call_def charge_call_def bind_gas_def price_ok_add Let_def dest!: gas_errors callGas_errors
        split: prod.splits sum.splits option.splits)
  then show ?thesis by (simp add: priced_def)
qed

lemma call_prices:
  "priced 0 (gasCall E)" "priced 0 (gasCallCode E)" "priced 0 (gasDelegateCall E)" "priced 0 (gasStaticCall E)"
proof -
  have p: "vs_contract (fst (mem_charge_call E base st m)) = vs_contract st"
    "vs_stack (fst (mem_charge_call E base st m)) = vs_stack st" "price_ok 0 (snd (mem_charge_call E base st m))" for base st m
    using charge_call_priced [of E base] by (auto simp: priced_def)
  show "priced 0 (gasCall E)" "priced 0 (gasCallCode E)" "priced 0 (gasDelegateCall E)" "priced 0 (gasStaticCall E)"
    by (auto simp: priced_def gasCall_def gasCallCode_def gasDelegateCall_def gasStaticCall_def Let_def p set_db_def
        split: option.splits prod.splits)
qed

lemma finish_call_gas:
  assumes "finish_call st s ro rs r = (st', ret, err)" "call_ok g r" "gas_of st + unat g < 2 ^ 64"
  shows "gas_of st' \<le> gas_of st + unat g \<and> err \<noteq> Some VmFuel"
proof -
  obtain ev rt g' e where r: "r = (ev, rt, g', e)" by (cases r) auto
  have "unat (ct_Gas (vs_contract st) + g') = gas_of st + unat g'"
    using assms(2,3) r by (simp add: call_ok_def unat_word_ariths)
  then show ?thesis
    using assms(1,2) r
    by (auto simp: finish_call_def call_ok_def fail_def Let_def split: option.splits if_splits)
qed


lemma call_base:
  assumes "prices_ok E"
  shows "0 < unat (gt_Calls (en_gasTable E) + (if new then CallNewAccountGas else 0) + (if tv then CallValueTransferGas else 0))"
    "tv \<Longrightarrow> 9000 \<le> unat (gt_Calls (en_gasTable E) + (if new then CallNewAccountGas else 0) + (if tv then CallValueTransferGas else 0))"
    "0 < unat (gt_Calls (en_gasTable E) + (if tv then CallValueTransferGas else 0))"
    "tv \<Longrightarrow> 9000 \<le> unat (gt_Calls (en_gasTable E) + (if tv then CallValueTransferGas else 0))"
proof -
  let ?c = "gt_Calls (en_gasTable E)"
  have c: "0 < unat ?c" "unat ?c < 2 ^ 63"
    using assms by (simp_all add: prices_ok_def Let_def word_less_nat_alt)
  show "0 < unat (?c + (if new then CallNewAccountGas else 0) + (if tv then CallValueTransferGas else 0))"
    "tv \<Longrightarrow> 9000 \<le> unat (?c + (if new then CallNewAccountGas else 0) + (if tv then CallValueTransferGas else 0))"
    "0 < unat (?c + (if tv then CallValueTransferGas else 0))"
    "tv \<Longrightarrow> 9000 \<le> unat (?c + (if tv then CallValueTransferGas else 0))"
    using c by (auto simp: unat_word_ariths)
qed

text \<open>A call: what the callee gets and gives back is less than what the caller had.\<close>

lemma call_budget:
  assumes cost: "unat base + unat temp \<le> cost" "cost \<le> gas" and gas: "gas < 2 ^ 64" and base: "0 < unat base" "v \<Longrightarrow> 9000 \<le> unat base"
    and g: "g = temp + (if v then CallStipend else 0)"
  shows "unat g < gas" "gas - cost + unat g < gas"
proof -
  have "unat g = unat temp + (if v then 2300 else 0)"
    using cost gas base(2) g by (auto simp: unat_word_ariths)
  then show "unat g < gas" "gas - cost + unat g < gas" using cost base by auto
qed


definition thrifty :: "nat \<Rightarrow> 's operation \<Rightarrow> bool" where
  "thrifty n opn \<longleftrightarrow>
     (\<forall>st st2 st3 r err. gas_of st \<le> n \<longrightarrow> prepare opn st = (st2, None) \<longrightarrow> op_execute opn st2 = (st3, r, err) \<longrightarrow>
        gas_of st3 < gas_of st \<and> err \<noteq> Some VmFuel)"

lemma callee_gas_less:
  assumes fin: "finish_call st2 s ro rs res = (st3, r, err)" and res: "unat g < gas_of st \<Longrightarrow> call_ok g res"
    and cost: "unat base + unat temp \<le> cost" "cost \<le> gas_of st" "gas_of st2 = gas_of st - cost"
    and base: "0 < unat base" "v \<Longrightarrow> 9000 \<le> unat base" and g: "g = temp + (if v then CallStipend else 0)"
  shows "gas_of st3 < gas_of st \<and> err \<noteq> Some VmFuel"
proof -
  note b = call_budget [OF cost(1,2) unat64 base g]
  then show ?thesis
    using finish_call_gas [OF fin res [OF b(1)]] cost(3) unat64 [of "ct_Gas (vs_contract st)"] by auto
qed

lemma U256_nonzero: "U256 v \<noteq> 0 \<Longrightarrow> v \<noteq> 0"
  by (auto simp: U256_def)

lemma gasCall_cost:
  assumes e: "prices_ok E" and g: "gasCall E st m = (st1, Inr cost)"
  shows "\<exists>base :: uint64. (\<exists>v. stack_Back (vs_stack st) 2 = Some v \<and> (v \<noteq> 0 \<longrightarrow> 9000 \<le> unat base))
    \<and> unat base + unat (ev_callGasTemp (vs_evm st1)) \<le> unat cost \<and> 0 < unat base"
proof -
  obtain a v where av: "stack_Back (vs_stack st) 1 = Some a" "stack_Back (vs_stack st) 2 = Some v"
    using g by (auto simp: gasCall_def split: option.splits)
  define p where "p = (if en_IsEIP158 E
      then if v \<noteq> 0 then db_Empty (en_db E) (BigToAddress a) (db st) else (db st, False)
      else (case db_Exist (en_db E) (BigToAddress a) (db st) of (d, b) \<Rightarrow> (d, \<not> b)))"
  obtain d new where dn: "p = (d, new)" by fastforce
  have *: "mem_charge_call E (gt_Calls (en_gasTable E) + (if new then CallNewAccountGas else 0)
      + (if v \<noteq> 0 then CallValueTransferGas else 0)) (set_db d st) m = (st1, Inr cost)"
    using g dn unfolding gasCall_def av option.case prod.case Let_def p_def [symmetric] by simp
  have w: "\<exists>w. stack_Back (vs_stack st) 2 = Some w \<and> (w \<noteq> 0 \<longrightarrow> 9000 \<le> unat (gt_Calls (en_gasTable E)
      + (if new then CallNewAccountGas else 0) + (if v \<noteq> 0 then CallValueTransferGas else 0)))"
    using av(2) call_base(2) [OF e, of "v \<noteq> 0" new] by simp
  show ?thesis by (rule exI, rule conjI [OF w conjI [OF conjunct2 [OF charge_call_cost [OF *]] call_base(1) [OF e]]])
qed

lemma gasCallCode_cost:
  assumes e: "prices_ok E" and g: "gasCallCode E st m = (st1, Inr cost)"
  shows "\<exists>base :: uint64. (\<exists>v. stack_Back (vs_stack st) 2 = Some v \<and> (v \<noteq> 0 \<longrightarrow> 9000 \<le> unat base))
    \<and> unat base + unat (ev_callGasTemp (vs_evm st1)) \<le> unat cost \<and> 0 < unat base"
proof -
  obtain v where v: "stack_Back (vs_stack st) 2 = Some v"
    using g by (auto simp: gasCallCode_def split: option.splits)
  then have *: "mem_charge_call E (gt_Calls (en_gasTable E) + (if v \<noteq> 0 then CallValueTransferGas else 0)) st m = (st1, Inr cost)"
    using g by (simp add: gasCallCode_def)
  have w: "\<exists>w. stack_Back (vs_stack st) 2 = Some w \<and> (w \<noteq> 0 \<longrightarrow> 9000 \<le> unat (gt_Calls (en_gasTable E)
      + (if v \<noteq> 0 then CallValueTransferGas else 0)))"
    using v call_base(4) [OF e, of "v \<noteq> 0"] by simp
  show ?thesis by (rule exI, rule conjI [OF w conjI [OF conjunct2 [OF charge_call_cost [OF *]] call_base(3) [OF e]]])
qed

lemma thriftyI:
  fixes P :: "uint64 \<Rightarrow> 's vst \<Rightarrow> bool"
  assumes gas: "priced 0 (op_gasCost opn)"
    and cost: "\<And>st m st1 cost. op_gasCost opn st m = (st1, Inr cost) \<Longrightarrow>
      \<exists>base. P base st \<and> unat base + unat (ev_callGasTemp (vs_evm st1)) \<le> unat cost \<and> 0 < unat base"
    and exec: "\<And>st st2 st3 r err base cost. P base st \<Longrightarrow> gas_of st \<le> n \<Longrightarrow> vs_stack st2 = vs_stack st \<Longrightarrow>
      unat base + unat (ev_callGasTemp (vs_evm st2)) \<le> cost \<Longrightarrow> cost \<le> gas_of st \<Longrightarrow> gas_of st2 = gas_of st - cost \<Longrightarrow>
      0 < unat base \<Longrightarrow> op_execute opn st2 = (st3, r, err) \<Longrightarrow> gas_of st3 < gas_of st \<and> err \<noteq> Some VmFuel"
  shows "thrifty n opn"
  unfolding thrifty_def
proof (intro allI impI)
  fix st st2 st3 r err
  assume n: "gas_of st \<le> n" and p: "prepare opn st = (st2, None)" and x: "op_execute opn st2 = (st3, r, err)"
  obtain m st1 cost where g: "op_gasCost opn st m = (st1, Inr cost)" and k: "unat cost \<le> gas_of st1"
    "gas_of st2 = gas_of st1 - unat cost" "vs_stack st2 = vs_stack st1" "vs_evm st2 = vs_evm st1"
    using prepare_done [OF p] by blast
  have s1: "vs_contract st1 = vs_contract st" "vs_stack st1 = vs_stack st" using pricedD [OF gas g] by auto
  obtain base where b: "P base st" "unat base + unat (ev_callGasTemp (vs_evm st1)) \<le> unat cost" "0 < unat base"
    using cost [OF g] by blast
  show "gas_of st3 < gas_of st \<and> err \<noteq> Some VmFuel"
    by (rule exec [OF b(1) n, of st2 "unat cost"]) (use k s1 b x in simp_all)
qed

lemma opCall_exec:
  assumes c: "calls_ok n C" and v: "\<exists>v. stack_Back (vs_stack st) 2 = Some v \<and> (v \<noteq> 0 \<longrightarrow> 9000 \<le> unat base)"
    and k: "gas_of st \<le> n" "vs_stack st2 = vs_stack st" "unat base + unat (ev_callGasTemp (vs_evm st2)) \<le> cost"
    "cost \<le> gas_of st" "gas_of st2 = gas_of st - cost" "0 < unat base"
    and x: "opCall C st2 = (st3, r, err) \<or> opCallCode C st2 = (st3, r, err)"
  shows "gas_of st3 < gas_of st \<and> err \<noteq> Some VmFuel"
proof (cases "vs_stack st2")
  case Nil
  then show ?thesis using x k by (auto simp: opCall_def opCallCode_def fail_def)
next
  case (Cons g0 l)
  show ?thesis
  proof (cases "\<exists>addr v io is ro rs s args. vs_stack st2 = g0 # addr # v # io # is # ro # rs # s
      \<and> mem_Get (Int64 io) (Int64 is) (vs_mem st2) = Some args")
    case False
    then have "st3 = st2 \<and> err = Some VmPanic"
      using x Cons by (auto simp: opCall_def opCallCode_def fail_def split: list.splits option.splits)
    then show ?thesis using k by auto
  next
    case True
    then obtain addr v' io "is" ro rs s args where s: "vs_stack st2 = g0 # addr # v' # io # is # ro # rs # s"
      "mem_Get (Int64 io) (Int64 is) (vs_mem st2) = Some args" by blast
    let ?g = "ev_callGasTemp (vs_evm st2) + (if U256 v' \<noteq> 0 then CallStipend else 0)"
    have b: "U256 v' \<noteq> 0 \<Longrightarrow> 9000 \<le> unat base"
      using v s(1) k(2) U256_nonzero [of v'] by (auto simp: stack_Back_def)
    have fin: "gas_of st3 < gas_of st \<and> err \<noteq> Some VmFuel"
      if "finish_call st2 s ro rs res = (st3, r, err)" "unat ?g < gas_of st \<Longrightarrow> call_ok ?g res" for res
      by (rule callee_gas_less [OF that k(3-6) b refl])
    have "call_ok ?g (ca_Call C (vs_evm st2) (self st2) (BigToAddress addr) args ?g (U256 v'))"
      "call_ok ?g (ca_CallCode C (vs_evm st2) (self st2) (BigToAddress addr) args ?g (U256 v'))" if "unat ?g < gas_of st"
      using c that k(1) by (auto simp: calls_ok_def)
    then show ?thesis
      using x fin unfolding opCall_def opCallCode_def s(1) list.case s(2) option.case Let_def by blast
  qed
qed

lemma call_thrifty:
  fixes E :: "'s env"
  assumes e: "prices_ok E" and c: "calls_ok n C"
  shows "thrifty n (op_call E C)" "thrifty n (op_callcode E C)"
proof -
  let ?P = "\<lambda>base (st :: 's vst). \<exists>v. stack_Back (vs_stack st) 2 = Some v \<and> (v \<noteq> 0 \<longrightarrow> 9000 \<le> unat base)"
  show "thrifty n (op_call E C)"
    unfolding op_call_def
  proof (rule thriftyI [where P = ?P], goal_cases)
    case 2
    then show ?case using gasCall_cost [OF e] by simp
  next
    case 3
    show ?case by (rule opCall_exec [OF c 3(1-7) disjI1]) (use 3(8) in simp)
  qed (simp add: call_prices)
  show "thrifty n (op_callcode E C)"
    unfolding op_callcode_def
  proof (rule thriftyI [where P = ?P], goal_cases)
    case 2
    then show ?case using gasCallCode_cost [OF e] by simp
  next
    case 3
    show ?case by (rule opCall_exec [OF c 3(1-7) disjI2]) (use 3(8) in simp)
  qed (simp add: call_prices)
qed


lemma delegate_exec:
  assumes c: "calls_ok n C"
    and k: "gas_of st \<le> n" "vs_stack st2 = vs_stack st" "unat base + unat (ev_callGasTemp (vs_evm st2)) \<le> cost"
    "cost \<le> gas_of st" "gas_of st2 = gas_of st - cost" "0 < unat (base :: uint64)"
    and x: "opDelegateCall C st2 = (st3, r, err) \<or> opStaticCall C st2 = (st3, r, err)"
  shows "gas_of st3 < gas_of st \<and> err \<noteq> Some VmFuel"
proof (cases "\<exists>g0 addr io is ro rs s args. vs_stack st2 = g0 # addr # io # is # ro # rs # s
    \<and> mem_Get (Int64 io) (Int64 is) (vs_mem st2) = Some args")
  case False
  then have "st3 = st2 \<and> err = Some VmPanic"
    using x by (auto simp: opDelegateCall_def opStaticCall_def fail_def split: list.splits option.splits)
  then show ?thesis using k by auto
next
  case True
  then obtain g0 addr io "is" ro rs s args where s: "vs_stack st2 = g0 # addr # io # is # ro # rs # s"
    "mem_Get (Int64 io) (Int64 is) (vs_mem st2) = Some args" by blast
  let ?g = "ev_callGasTemp (vs_evm st2)"
  have fin: "gas_of st3 < gas_of st \<and> err \<noteq> Some VmFuel"
    if "finish_call st2 s ro rs res = (st3, r, err)" "unat ?g < gas_of st \<Longrightarrow> call_ok ?g res" for res
    by (rule callee_gas_less [where v = False, OF that k(3-6)]) simp_all
  have "call_ok ?g (ca_DelegateCall C (vs_evm st2) (vs_contract st2) (BigToAddress addr) args ?g)"
    "call_ok ?g (ca_StaticCall C (vs_evm st2) (self st2) (BigToAddress addr) args ?g)" if "unat ?g < gas_of st"
    using c that k(1) by (auto simp: calls_ok_def)
  then show ?thesis
    using x fin unfolding opDelegateCall_def opStaticCall_def s(1) list.case s(2) option.case Let_def by blast
qed

lemma delegate_thrifty:
  fixes E :: "'s env"
  assumes e: "prices_ok E" and c: "calls_ok n C"
  shows "thrifty n (op_delegatecall E C)" "thrifty n (op_staticcall E C)"
proof -
  have b: "\<exists>base :: uint64. True \<and> unat base + unat (ev_callGasTemp (vs_evm st1)) \<le> unat cost \<and> 0 < unat base"
    if "gasDelegateCall E st m = (st1, Inr cost) \<or> gasStaticCall E st m = (st1, Inr cost)" for st :: "'s vst" and m st1 cost
    using that charge_call_cost [of E "gt_Calls (en_gasTable E)" st m st1 cost] call_base(3) [OF e, of False]
    by (auto simp: gasDelegateCall_def gasStaticCall_def)
  show "thrifty n (op_delegatecall E C)"
    unfolding op_delegatecall_def
  proof (rule thriftyI [where P = "\<lambda>_ _. True"], goal_cases)
    case 2
    show ?case by (rule b [OF disjI1]) (use 2 in simp)
  next
    case 3
    show ?case by (rule delegate_exec [OF c 3(2-7) disjI1]) (use 3(8) in simp)
  qed (simp add: call_prices)
  show "thrifty n (op_staticcall E C)"
    unfolding op_staticcall_def
  proof (rule thriftyI [where P = "\<lambda>_ _. True"], goal_cases)
    case 2
    show ?case by (rule b [OF disjI2]) (use 2 in simp)
  next
    case 3
    show ?case by (rule delegate_exec [OF c 3(2-7) disjI2]) (use 3(8) in simp)
  qed (simp add: call_prices)
qed

text \<open>The creations pass on all but one 64th of the gas.\<close>

lemma create_gas:
  assumes "UseGas g c = (c1, paid)" "unat g \<le> unat (ct_Gas c)" "unat g' \<le> unat g"
  shows "unat (ct_Gas c1 + g') \<le> unat (ct_Gas c)"
proof -
  have "c1 = c\<lparr>ct_Gas := ct_Gas c - g\<rparr>" using assms by (auto simp: UseGas_def word_less_nat_alt split: if_splits)
  then have "unat (ct_Gas c1) = unat (ct_Gas c) - unat g" using assms(2) by (simp add: unat_sub word_le_nat_alt)
  then show ?thesis using assms(2,3) unat64 [of "ct_Gas c"] by (simp add: unat_word_ariths)
qed

lemma all_but_one_64th: "unat (g - g div 64) \<le> unat (g :: uint64)"
proof -
  have "unat (g div 64) \<le> unat g" by (simp add: unat_div)
  then show ?thesis by (simp add: unat_sub word_le_nat_alt)
qed

lemma create_settle:
  assumes g: "unat g \<le> gas_of st" and r: "create_ok g (ev, ret, ad, g', suberr)" and u: "UseGas g (vs_contract st) = (c1, paid)"
    and st': "ct_Gas (vs_contract st') = ct_Gas c1 + g'"
  shows "gas_of st' \<le> gas_of st \<and> suberr \<noteq> Some VmFuel"
  using create_gas [OF u g] r st' by (simp add: create_ok_def)

lemma opCreate_exec:
  assumes c: "calls_ok n C" and k: "gas_of st < n" and x: "opCreate E C st = (st3, r, err)"
  shows "gas_of st3 \<le> gas_of st \<and> err \<noteq> Some VmFuel"
proof (cases "\<exists>value offset sz s args. vs_stack st = value # offset # sz # s
    \<and> mem_Get (Int64 offset) (Int64 sz) (vs_mem st) = Some args")
  case False
  then have "st3 = st \<and> err = Some VmPanic"
    using x by (auto simp: opCreate_def fail_def split: list.splits option.splits)
  then show ?thesis by auto
next
  case True
  then obtain "value" offset sz s args where s: "vs_stack st = value # offset # sz # s"
    "mem_Get (Int64 offset) (Int64 sz) (vs_mem st) = Some args" by blast
  define g where "g = (if en_IsEIP150 E then ct_Gas (vs_contract st) - ct_Gas (vs_contract st) div 64 else ct_Gas (vs_contract st))"
  have g: "unat g \<le> gas_of st" using all_but_one_64th by (simp add: g_def)
  obtain c1 paid where u: "UseGas g (vs_contract st) = (c1, paid)" by fastforce
  obtain ev ret ad g' suberr where res: "ca_Create C (vs_evm st) (self st) args g value = (ev, ret, ad, g', suberr)"
    by (metis prod_cases5)
  have ok: "create_ok g (ev, ret, ad, g', suberr)" using c k g res [symmetric] by (simp add: calls_ok_def)
  note x' = x [unfolded opCreate_def s(1) list.case s(2) option.case Let_def, folded g_def, unfolded res u prod.case fst_conv]
  have "ct_Gas (vs_contract st3) = ct_Gas c1 + g'" "err \<noteq> None \<Longrightarrow> err = suberr"
    using x' by (auto simp: fail_def ok_def split: option.splits if_splits)
  with create_settle [OF g ok u this(1)] show ?thesis by auto
qed

lemma opCreate2_exec:
  assumes c: "calls_ok n C" and k: "gas_of st < n" and x: "opCreate2 C st = (st3, r, err)"
  shows "gas_of st3 \<le> gas_of st \<and> err \<noteq> Some VmFuel"
proof (cases "\<exists>value offset sz salt s args. vs_stack st = value # offset # sz # salt # s
    \<and> mem_Get (Int64 offset) (Int64 sz) (vs_mem st) = Some args")
  case False
  then have "st3 = st \<and> err = Some VmPanic"
    using x by (auto simp: opCreate2_def fail_def split: list.splits option.splits)
  then show ?thesis by auto
next
  case True
  then obtain "value" offset sz salt s args where s: "vs_stack st = value # offset # sz # salt # s"
    "mem_Get (Int64 offset) (Int64 sz) (vs_mem st) = Some args" by blast
  define g where "g = ct_Gas (vs_contract st) - ct_Gas (vs_contract st) div 64"
  have g: "unat g \<le> gas_of st" using all_but_one_64th by (simp add: g_def)
  obtain c1 paid where u: "UseGas g (vs_contract st) = (c1, paid)" by fastforce
  obtain ev ret ad g' suberr where res: "ca_Create2 C (vs_evm st) (self st) args g value salt = (ev, ret, ad, g', suberr)"
    by (metis prod_cases5)
  have ok: "create_ok g (ev, ret, ad, g', suberr)" using c k g res [symmetric] by (simp add: calls_ok_def)
  note x' = x [unfolded opCreate2_def s(1) list.case s(2) option.case Let_def, folded g_def, unfolded res u prod.case fst_conv]
  have "ct_Gas (vs_contract st3) = ct_Gas c1 + g'" "err \<noteq> None \<Longrightarrow> err = suberr"
    using x' by (auto simp: fail_def ok_def split: option.splits if_splits)
  with create_settle [OF g ok u this(1)] show ?thesis by auto
qed

lemma create_thrifty:
  assumes c: "calls_ok n C"
  shows "thrifty n (op_create E C)" "thrifty n (op_create2 C)"
proof -
  have k: "gas_of st2 < gas_of st" if p: "prepare opn st = (st2, None)" and g: "priced 32000 (op_gasCost opn)" for opn st st2
  proof -
    obtain m st1 cost where "op_gasCost opn st m = (st1, Inr cost)" "unat cost \<le> gas_of st1" "gas_of st2 = gas_of st1 - unat cost"
      using prepare_done [OF p] by blast
    then show ?thesis using pricedD [OF g] by fastforce
  qed
  show "thrifty n (op_create E C)"
    unfolding thrifty_def
  proof (intro allI impI)
    fix st st2 st3 r err
    assume a: "gas_of st \<le> n" "prepare (op_create E C) st = (st2, None)" "op_execute (op_create E C) st2 = (st3, r, err)"
    have "gas_of st2 < gas_of st" by (rule k [OF a(2)]) (simp add: op_create_def)
    then show "gas_of st3 < gas_of st \<and> err \<noteq> Some VmFuel"
      using opCreate_exec [OF c, of st2 E st3 r err] a(1,3) by (simp add: op_create_def)
  qed
  show "thrifty n (op_create2 C)"
    unfolding thrifty_def
  proof (intro allI impI)
    fix st st2 st3 r err
    assume a: "gas_of st \<le> n" "prepare (op_create2 C) st = (st2, None)" "op_execute (op_create2 C) st2 = (st3, r, err)"
    have "gas_of st2 < gas_of st" by (rule k [OF a(2)]) (simp add: op_create2_def)
    then show "gas_of st3 < gas_of st \<and> err \<noteq> Some VmFuel"
      using opCreate2_exec [OF c, of st2 st3 r err] a(1,3) by (simp add: op_create2_def)
  qed
qed


lemma call_op_thrifty:
  assumes "prices_ok E" "calls_ok n C" "is_call_op E C opn"
  shows "thrifty n opn \<and> priced 0 (op_gasCost opn) \<and> \<not> op_halts opn"
  using assms(3) call_thrifty [OF assms(1,2)] delegate_thrifty [OF assms(1,2)] create_thrifty [OF assms(2)] call_prices
  by (auto simp: is_call_op_def) (simp_all add: call_ops priced_per_word gasCreate_def gasCreate2_def priced_with_mem price_ok_add)

lemma price_ok_less: "price_ok n r \<Longrightarrow> price_ok 0 r"
  by (cases r) simp_all

lemma priced_less: "priced n gc \<Longrightarrow> priced 0 gc"
  by (simp add: priced_def price_ok_less [of n])

lemma simple_round:
  assumes s: "simple_op opn" and p: "prepare opn st = (st2, None)" and x: "op_execute opn st2 = (st3, r, err)"
  shows "gas_of st3 \<le> gas_of st \<and> err \<noteq> Some VmFuel \<and> (\<not> op_halts opn \<longrightarrow> \<not> op_reverts opn \<longrightarrow> gas_of st3 < gas_of st)"
proof -
  obtain m st1 cost where g: "op_gasCost opn st m = (st1, Inr cost)" "unat cost \<le> gas_of st1" "gas_of st2 = gas_of st1 - unat cost"
    using prepare_done [OF p] by blast
  have "vs_contract st1 = vs_contract st" "(if op_halts opn \<or> op_reverts opn then 0 else 1) \<le> unat cost"
    using pricedD [of "if op_halts opn \<or> op_reverts opn then 0 else 1" "op_gasCost opn", OF _ g(1)] s
    by (simp_all add: simple_op_def)
  moreover have "gas_of st3 = gas_of st2 \<and> err \<noteq> Some VmFuel"
    using s x unfolding simple_op_def plain_def by (metis fst_conv snd_conv)
  ultimately show ?thesis using g by (auto split: if_splits)
qed

lemma enforce_errors: "enforceRestrictions E opc opn st \<noteq> Some VmFuel"
  by (auto simp: enforceRestrictions_def split: option.splits)

definition round_ok :: "'s vst \<Rightarrow> 's vst \<times> outcome \<Rightarrow> bool" where
  "round_ok st r \<longleftrightarrow>
     (case r of (st', Continue) \<Rightarrow> gas_of st' < gas_of st
      | (st', Finished ret e) \<Rightarrow> gas_of st' \<le> gas_of st \<and> e \<noteq> Some VmFuel)"

lemma run_step_gas:
  assumes e: "prices_ok E" and c: "calls_ok n C" and n: "gas_of st \<le> n"
  shows "round_ok st (run_step E C st)"
proof (cases "map_of (JumpTable E C) (GetOp (vs_contract st) (vs_pc st))")
  case None
  then show ?thesis by (simp add: run_step_def round_ok_def)
next
  case (Some opn)
  then have en: "entry_ok E C opn"
    using table_entries [OF e, of C] by (auto simp: list_all_iff dest!: map_of_SomeD)
  then have pr: "priced 0 (op_gasCost opn)"
    using call_op_thrifty [OF e c, of opn] priced_less by (auto simp: entry_ok_def simple_op_def)
  obtain st2 pe where p: "prepare opn st = (st2, pe)" by fastforce
  show ?thesis
  proof (cases "op_validateStack opn (vs_stack st) \<noteq> None \<or> enforceRestrictions E (GetOp (vs_contract st) (vs_pc st)) opn st \<noteq> None")
    case True
    then show ?thesis
      using en enforce_errors [of E "GetOp (vs_contract st) (vs_pc st)" opn st] Some
      by (auto simp: run_step_def round_ok_def entry_ok_def stack_errors_def split: option.splits)
  next
    case ok: False
    show ?thesis
    proof (cases pe)
      case (Some x)
      then show ?thesis
        using ok prepare_failed [OF p [unfolded Some] pr] p \<open>map_of _ _ = Some opn\<close>
        by (simp add: run_step_def round_ok_def)
    next
      case None
      obtain st3 r err where x: "op_execute opn st2 = (st3, r, err)" by (metis prod_cases3)
      have g: "gas_of st3 \<le> gas_of st \<and> err \<noteq> Some VmFuel \<and> (\<not> op_halts opn \<longrightarrow> \<not> op_reverts opn \<longrightarrow> gas_of st3 < gas_of st)"
        using en call_op_thrifty [OF e c, of opn] simple_round [OF _ p [unfolded None] x] n p [unfolded None] x
        by (fastforce simp: entry_ok_def thrifty_def)
      then show ?thesis
        using ok p None x \<open>map_of _ _ = Some opn\<close>
        by (auto simp: run_step_def round_ok_def Let_def split: option.splits)
    qed
  qed
qed


section \<open>Calls\<close>

text \<open>What the calls need of the loop, and of the precompiled contracts.\<close>

definition loop_ok :: "nat \<Rightarrow> 's loop \<Rightarrow> bool" where
  "loop_ok n loop \<longleftrightarrow>
     (\<forall>st. gas_of st < n \<longrightarrow> (case loop st of (st', ret, err) \<Rightarrow> gas_of st' \<le> gas_of st \<and> err \<noteq> Some VmFuel))"

lemma loop_okD:
  "loop_ok n loop \<Longrightarrow> gas_of st < n \<Longrightarrow> loop st = (st', ret, err) \<Longrightarrow> gas_of st' \<le> gas_of st \<and> err \<noteq> Some VmFuel"
  by (fastforce simp: loop_ok_def)

definition precompiles_ok :: "'s env \<Rightarrow> bool" where
  "precompiles_ok E \<longleftrightarrow> (\<forall>a p input. en_precompiles E a = Some p \<longrightarrow> snd (snd p input) \<noteq> Some VmFuel)"

definition frame_ok :: "uint64 \<Rightarrow> 's evm \<times> contract \<times> bytes \<times> vm_error option \<Rightarrow> bool" where
  "frame_ok g r \<longleftrightarrow> (case r of (ev, c, ret, err) \<Rightarrow> unat (ct_Gas c) \<le> unat g \<and> err \<noteq> Some VmFuel)"

lemma RunPrecompiled_ok:
  assumes "snd (snd p input) \<noteq> Some VmFuel"
  shows "frame_ok (ct_Gas c) (case RunPrecompiledContract p input c of (c', ret, err) \<Rightarrow> (ev, c', ret, err))"
  using assms by (auto simp: frame_ok_def RunPrecompiledContract_def split: prod.splits if_splits dest: UseGas_left)

lemma Run_ok:
  assumes "loop_ok n loop" "unat (ct_Gas c) < n"
  shows "frame_ok (ct_Gas c) (Run loop ev c input ro)"
proof (cases "ct_Code c = []")
  case True
  then show ?thesis by (simp add: Run_def frame_ok_def Let_def)
next
  case False
  define st0 where "st0 = \<lparr>vs_pc = 0, vs_evm = ev\<lparr>ev_depth := Suc (ev_depth ev), ev_readOnly := ev_readOnly ev \<or> ro, ev_returnData := []\<rparr>,
    vs_contract = c\<lparr>ct_Input := input\<rparr>, vs_mem = NewMemory, vs_stack = []\<rparr>"
  obtain st ret err where l: "loop st0 = (st, ret, err)" by (metis prod_cases3)
  have "gas_of st0 = unat (ct_Gas c)" by (simp add: st0_def)
  then have "unat (ct_Gas (vs_contract st)) \<le> unat (ct_Gas c) \<and> err \<noteq> Some VmFuel"
    using loop_okD [OF assms(1) _ l] assms(2) by simp
  then show ?thesis
    using False l by (simp add: Run_def frame_ok_def Let_def st0_def)
qed

lemma run_ok:
  assumes "loop_ok n loop" "precompiles_ok E" "unat (ct_Gas c) < n"
  shows "frame_ok (ct_Gas c) (run loop E ev c input ro)"
  using Run_ok [OF assms(1,3)] RunPrecompiled_ok [where input = input and c = c and ev = ev] assms(2)
  by (cases "case ct_CodeAddr c of None \<Rightarrow> None | Some a \<Rightarrow> en_precompiles E a")
    (auto simp: run_def precompiles_ok_def split: option.splits)

lemma settle_ok: "frame_ok g r \<Longrightarrow> call_ok g (settle E sn r)"
  by (auto simp: frame_ok_def call_ok_def settle_def split: prod.splits option.splits)

lemma finish_create_ok:
  assumes "frame_ok g r"
  shows "create_ok g (finish_create E sn ad r)"
proof -
  obtain ev c ret err where r: "r = (ev, c, ret, err)" by (metis prod_cases4)
  obtain c' p where u: "UseGas (word_of_nat (length ret) * CreateDataGas) c = (c', p)" by fastforce
  show ?thesis
    using assms UseGas_left [OF u] u unfolding r
    by (auto simp: frame_ok_def create_ok_def finish_create_def Let_def split: prod.splits option.splits if_splits)
qed

lemma with_code_gas: "with_code E ev a c = (ev', c') \<Longrightarrow> ct_Gas c' = ct_Gas c"
  by (auto simp: with_code_def SetCallCode_def split: prod.splits)

lemma call_ok_unchanged: "err \<noteq> Some VmFuel \<Longrightarrow> call_ok g (ev, ret, g, err)"
  by (simp add: call_ok_def)

lemma create_ok_unchanged: "err \<noteq> Some VmFuel \<Longrightarrow> create_ok g (ev, ret, ad, g, err)"
  by (simp add: create_ok_def)

lemma new_contract_gas [simp]: "ct_Gas (NewContract a b v g) = g" "ct_Gas (AsDelegate p c) = ct_Gas c" "ct_Gas (SetCallCode a h co c) = ct_Gas c"
  by (simp_all add: NewContract_def AsDelegate_def SetCallCode_def)

lemma run_with_code:
  assumes "loop_ok n loop" "precompiles_ok E" "unat (ct_Gas c) < n"
  shows "call_ok (ct_Gas c) (case with_code E ev a c of (ev1, c1) \<Rightarrow> settle E sn (run loop E ev1 c1 input ro))"
proof -
  obtain ev1 c1 where w: "with_code E ev a c = (ev1, c1)" by fastforce
  show ?thesis
    using settle_ok [OF run_ok [OF assms(1,2), of c1 ev1 input ro]] with_code_gas [OF w] assms(3) by (simp add: w)
qed

lemma evm_calls_ok:
  assumes l: "loop_ok n loop" and p: "precompiles_ok E" and g: "unat g < n"
  shows "call_ok g (evm_Call loop E ev a b i g v)" "call_ok g (evm_CallCode loop E ev a b i g v)"
    "call_ok g (evm_DelegateCall loop E ev pc b i g)" "call_ok g (evm_StaticCall loop E ev a b i g)"
    "create_ok g (evm_create loop E ev a i h g v ad)"
proof -
  have rc: "call_ok g (case with_code E ev a c of (ev1, c1) \<Rightarrow> settle E sn (run loop E ev1 c1 input ro))"
    if "ct_Gas c = g" for c :: contract and ev :: "'a evm" and a sn input ro
    using run_with_code [OF l p, where c = c and ev = ev and a = a and sn = sn and input = input and ro = ro] that g by simp
  show "call_ok g (evm_DelegateCall loop E ev pc b i g)" "call_ok g (evm_StaticCall loop E ev a b i g)"
    "call_ok g (evm_CallCode loop E ev a b i g v)"
    by (simp_all add: evm_DelegateCall_def evm_StaticCall_def evm_CallCode_def Let_def call_ok_unchanged rc split: prod.split)
  show "call_ok g (evm_Call loop E ev a b i g v)"
    by (simp add: evm_Call_def Let_def call_ok_unchanged rc split: prod.split)
  show "create_ok g (evm_create loop E ev a i h g v ad)"
    using run_ok [OF l p, of "SetCallCode ad h i (NewContract a ad v g)"] g
    by (auto simp: evm_create_def Let_def create_ok_unchanged finish_create_ok split: prod.split) (simp_all add: create_ok_def)
qed

lemma calls_ok_evm:
  assumes "loop_ok n loop" "precompiles_ok E"
  shows "calls_ok n (evm_calls loop E)"
  using evm_calls_ok [OF assms]
  by (simp add: calls_ok_def evm_calls_def evm_Create_def evm_Create2_def Let_def split: prod.split)

lemma interp_gas:
  assumes "prices_ok E" "precompiles_ok E"
  shows "loop_ok n (interp n E)"
proof (induction n)
  case 0
  then show ?case by (simp add: loop_ok_def)
next
  case (Suc n)
  show ?case
    unfolding loop_ok_def
  proof (intro allI impI)
    fix st :: "'a vst"
    assume g: "gas_of st < Suc n"
    obtain st' out where s: "run_step E (evm_calls (interp n E) E) st = (st', out)" by fastforce
    have r: "round_ok st (st', out)"
      using run_step_gas [OF assms(1) calls_ok_evm [OF Suc assms(2)], of st] g by (simp add: s)
    show "case interp (Suc n) E st of (st', ret, err) \<Rightarrow> gas_of st' \<le> gas_of st \<and> err \<noteq> Some VmFuel"
    proof (cases out)
      case Continue
      then have "gas_of st' < gas_of st" "gas_of st' < n" using r g by (simp_all add: round_ok_def)
      then show ?thesis
        using loop_okD [OF Suc, of st'] by (auto simp: s Continue split: prod.split)
    next
      case (Finished ret e)
      then show ?thesis using r by (simp add: s round_ok_def)
    qed
  qed
qed

lemma default_env_ok:
  "prices_ok (defaultEnv k T sha gh origin cb ht tm df K)" "precompiles_ok (defaultEnv k T sha gh origin cb ht tm df K)"
proof -
  show "prices_ok (defaultEnv k T sha gh origin cb ht tm df K)"
    by (simp add: prices_ok_def defaultEnv_def GasTableEIP158_def Let_def)
  have "snd (ecrecover_Run K i) \<noteq> Some VmFuel" "snd (bigModExp_Run i) \<noteq> Some VmFuel" "snd (bn256Add_Run K i) \<noteq> Some VmFuel"
    "snd (bn256ScalarMul_Run K i) \<noteq> Some VmFuel" "snd (bn256Pairing_Run K i) \<noteq> Some VmFuel" for i
    by (simp_all add: ecrecover_Run_def bigModExp_Run_def bn256Add_Run_def bn256ScalarMul_Run_def bn256Pairing_Run_def Let_def
        split: option.split)
  then show "precompiles_ok (defaultEnv k T sha gh origin cb ht tm df K)"
    by (auto simp: precompiles_ok_def defaultEnv_def PrecompiledContractsByzantium_def sha256hash_Run_def ripemd160hash_Run_def dataCopy_Run_def
        split: if_splits)
qed

text \<open>
  C17: Gas bounds execution. With the chain's rules, and for any database, callee code and input, a call or a
  creation with \<open>gas\<close> units of gas executes at most \<open>gas + 1\<close> rounds of the interpreter on any path of nested
  calls: with that many rounds it never runs out of them, so it returns, and it returns no more gas than it was given.
\<close>

theorem gas_bounds_execution:
  fixes ev :: "'t statedb evm"
  assumes "E = defaultEnv shards T sha getHash origin coinbase height time difficulty K" and "unat gas < rounds"
  shows "(case evm_Call (interp rounds E) E ev caller addr input gas val of
            (ev', ret, left, err) \<Rightarrow> err \<noteq> Some VmFuel \<and> left \<le> gas)
       \<and> (case evm_Create (interp rounds E) E ev caller code gas val of
            (ev', ret, contractAddr, left, err) \<Rightarrow> err \<noteq> Some VmFuel \<and> left \<le> gas)"
proof -
  have E: "prices_ok E" "precompiles_ok E" using default_env_ok by (simp_all add: assms(1))
  have "calls_ok rounds (evm_calls (interp rounds E) E)" by (rule calls_ok_evm [OF interp_gas [OF E] E(2)])
  then have "call_ok gas (evm_Call (interp rounds E) E ev caller addr input gas val)"
    "create_ok gas (evm_Create (interp rounds E) E ev caller code gas val)"
    using assms(2) by (simp_all add: calls_ok_def evm_calls_def)
  then show ?thesis by (auto simp: call_ok_def create_ok_def word_le_nat_alt split: prod.splits)
qed


text \<open>A contract that jumps back to its start forever, called with 20 units of gas.\<close>

definition sample_crypto :: crypto_ops where
  "sample_crypto = \<lparr>cr_keccak = sample_hash, cr_sha256 = sample_hash, cr_ripemd160 = sample_hash, cr_RecoverPubkey = (\<lambda>_ _. None),
     cr_isG1 = (\<lambda>_. False), cr_isG2 = (\<lambda>_. False), cr_Add = (\<lambda>a b. []), cr_ScalarMult = (\<lambda>a b. []),
     cr_PairingCheck = (\<lambda>a b. False)\<rparr>"

definition sample_env :: "trie statedb env" where
  "sample_env = defaultEnv 4 (mpt_ops sample_hash) sample_hash (\<lambda>_. EmptyHash) [1] [2] 1 0 0 sample_crypto"

definition looping_db :: "trie statedb" where
  "looping_db = fold (sdb_exec (mpt_ops sample_hash) sample_hash)
     [OpCreateAccount [9], OpSetCode [9] (Some [0x5B, 0x60, 0, 0x56])] (NewEmptyStatedb Map.empty)"

theorem gas_bounds_execution_witness:
  "unat (20 :: uint64) < 21
   \<and> (case evm_Call (interp 21 sample_env) sample_env (NewEVM looping_db) [1] [9] [] 20 0 of
      (ev', ret, left, err) \<Rightarrow> err \<noteq> Some VmFuel \<and> left \<le> 20)"
  using gas_bounds_execution [OF sample_env_def, of 20 21 "NewEVM looping_db" "[1]" "[9]" "[]" 0] by simp

end
