(* ===== verification/Evm_Frame.thy ===== *)
theory Evm_Frame
  imports Evm_Term
begin

text \<open>
  What an execution may do to the database. The interface \<open>evm_host\<close> states what the machine relies on:
  a relation \<open>reach\<close> between databases that every operation of the database keeps and that a revert to a
  snapshot undoes, a smaller one, \<open>quiet\<close>, that transfers of nothing and new accounts of precompiled contracts
  keep, and \<open>same\<close>, which readers keep. Over it, every execution stays within \<open>reach\<close>, a read-only one within
  \<open>quiet\<close>, and a failed call within \<open>same\<close>.
\<close>

section \<open>The interface\<close>

locale evm_host =
  fixes E :: "'s env" and reach quiet same :: "'s \<Rightarrow> 's \<Rightarrow> bool"
  assumes reach_trans: "reach d d' \<Longrightarrow> reach d' d'' \<Longrightarrow> reach d d''"
    and quiet_trans: "quiet d d' \<Longrightarrow> quiet d' d'' \<Longrightarrow> quiet d d''"
    and quiet_reach: "quiet d d' \<Longrightarrow> reach d d'"
    and same_refl: "same d d"
    and same_trans: "same d d' \<Longrightarrow> same d' d'' \<Longrightarrow> same d d''"
    and same_quiet: "same d d' \<Longrightarrow> quiet d d'"
    and readers: "same d (fst (db_GetBalance (en_db E) a d))" "same d (fst (db_GetNonce (en_db E) a d))"
      "same d (fst (db_GetTxCount (en_db E) a d))" "same d (fst (db_GetCodeHash (en_db E) a d))"
      "same d (fst (db_GetCode (en_db E) a d))" "same d (fst (db_GetCodeSize (en_db E) a d))"
      "same d (fst (db_GetState (en_db E) a k d))" "same d (fst (db_HasSuicided (en_db E) a d))"
      "same d (fst (db_Exist (en_db E) a d))" "same d (fst (db_Empty (en_db E) a d))"
      "same d (fst (en_CanTransfer E a v d))"
    and writers: "reach d (db_CreateAccount (en_db E) a d)" "reach d (db_AddBalance (en_db E) a v d)"
      "reach d (db_SetNonce2 (en_db E) a n c d)" "reach d (db_SetCode (en_db E) a code d)"
      "reach d (db_AddRefund (en_db E) g d)" "reach d (db_SetState (en_db E) a k h d)"
      "reach d (db_Suicide (en_db E) a d)" "reach d (db_AddLog (en_db E) l d)" "reach d (en_Transfer E a b v d)"
    and idle_transfer: "quiet d (en_Transfer E a b 0 d)"
    and new_precompile: "en_precompiles E a \<noteq> None \<Longrightarrow> quiet d (db_CreateAccount (en_db E) a d)"
    and revert: "reach d d' \<Longrightarrow> db_RevertToSnapshot (en_db E) (db_Snapshot (en_db E) d) d' = Some d'' \<Longrightarrow> same d d''"
    and rules: "en_IsByzantium E" "en_IsEIP158 E" "\<not> en_IsConstantinople E"
begin

lemmas reads = readers [THEN same_quiet]

lemma quiet_refl: "quiet d d"
  by (rule same_quiet [OF same_refl])

text \<open>A step in a read-only context, or in one that may write.\<close>

definition moves :: "bool \<Rightarrow> 's \<Rightarrow> 's \<Rightarrow> bool" where
  "moves ro d d' \<longleftrightarrow> (if ro then quiet d d' else reach d d')"

lemma quiet_moves: "quiet d d' \<Longrightarrow> moves ro d d'"
  by (simp add: moves_def quiet_reach)

lemma moves_refl [simp]: "moves ro d d"
  by (simp add: quiet_moves quiet_refl)

lemma moves_trans: "moves ro d d' \<Longrightarrow> moves ro d' d'' \<Longrightarrow> moves ro d d''"
  using reach_trans quiet_trans by (auto simp: moves_def split: if_splits)

lemma moves_reach: "moves ro d d' \<Longrightarrow> reach d d'"
  by (auto simp: moves_def quiet_reach split: if_splits)

lemma moves_weaken: "moves (ro \<or> b) d d' \<Longrightarrow> moves ro d d'"
  by (auto simp: moves_def quiet_reach split: if_splits)

text \<open>Instructions and gas functions that only read, and those that also write.\<close>

definition frame :: "('s \<Rightarrow> 's \<Rightarrow> bool) \<Rightarrow> 's vst \<Rightarrow> 's vst \<Rightarrow> bool" where
  "frame R st st' \<longleftrightarrow> ev_readOnly (vs_evm st') = ev_readOnly (vs_evm st) \<and> R (db st) (db st')"

definition framed :: "('s \<Rightarrow> 's \<Rightarrow> bool) \<Rightarrow> 's operation \<Rightarrow> bool" where
  "framed R opn \<longleftrightarrow> (\<forall>st. frame R st (fst (op_execute opn st))) \<and> (\<forall>st m. frame R st (fst (op_gasCost opn st m)))"

lemma frame_quiet_refl [simp]: "db st' = db st \<Longrightarrow> ev_readOnly (vs_evm st') = ev_readOnly (vs_evm st) \<Longrightarrow> frame quiet st st'"
  by (simp add: frame_def quiet_refl)

lemma db_updates [simp]:
  "db (st\<lparr>vs_stack := s\<rparr>) = db st" "db (st\<lparr>vs_mem := m\<rparr>) = db st" "db (st\<lparr>vs_pc := p\<rparr>) = db st"
  "db (st\<lparr>vs_contract := c\<rparr>) = db st" "db (set_db d st) = d"
  "db (st\<lparr>vs_evm := ev\<rparr>) = ev_StateDB ev"
  "vs_evm (set_db d st) = (vs_evm st)\<lparr>ev_StateDB := d\<rparr>"
  by (simp_all add: db_def set_db_def)

definition pure_op :: "('s vst \<Rightarrow> 's res) \<Rightarrow> bool" where
  "pure_op f \<longleftrightarrow> (\<forall>st. db (fst (f st)) = db st \<and> ev_readOnly (vs_evm (fst (f st))) = ev_readOnly (vs_evm st))"

definition pure_gas :: "('s vst \<Rightarrow> uint64 \<Rightarrow> 's vst \<times> gas_result) \<Rightarrow> bool" where
  "pure_gas g \<longleftrightarrow> (\<forall>st m. db (fst (g st m)) = db st \<and> ev_readOnly (vs_evm (fst (g st m))) = ev_readOnly (vs_evm st))"

lemma pure_shapes [simp]:
  "pure_op ok" "pure_op (push v)" "pure_op (unop g)" "pure_op (binop h)" "pure_op (triop k)" "pure_op (copy_op b)"
  by (auto simp: pure_op_def ok_def fail_def push_def unop_def binop_def triop_def copy_op_def set_mem_def
      split: list.splits option.splits)

lemma pure_arith [simp]:
  "pure_op opAdd" "pure_op opSub" "pure_op opMul" "pure_op opDiv" "pure_op opSdiv" "pure_op opMod" "pure_op opSmod"
  "pure_op opExp" "pure_op opNot" "pure_op opLt" "pure_op opGt" "pure_op opSlt" "pure_op opSgt" "pure_op opEq"
  "pure_op opIszero" "pure_op opAnd" "pure_op opOr" "pure_op opXor" "pure_op opByte" "pure_op opAddmod"
  "pure_op opMulmod" "pure_op opSHL" "pure_op opSHR" "pure_op opSAR" "pure_op (opOrigin F)" "pure_op (opBlockhash F)"
  "pure_op (opCoinbase F)" "pure_op (opTimestamp F)" "pure_op (opNumber F)" "pure_op (opDifficulty F)" "pure_op (opGasLimit F)"
  by (simp_all add: opAdd_def opSub_def opMul_def opDiv_def opSdiv_def opMod_def opSmod_def opExp_def opNot_def opLt_def
      opGt_def opSlt_def opSgt_def opEq_def opIszero_def opAnd_def opOr_def opXor_def opByte_def opAddmod_def
      opMulmod_def opSHL_def opSHR_def opSAR_def opOrigin_def opBlockhash_def opCoinbase_def opTimestamp_def
      opNumber_def opDifficulty_def opGasLimit_def)

lemma pure_more [simp]:
  "pure_op opSignExtend" "pure_op (opSha3 F)" "pure_op opAddress" "pure_op opCaller" "pure_op opCallValue"
  "pure_op opCallDataLoad" "pure_op opCallDataSize" "pure_op opCallDataCopy" "pure_op opReturnDataSize"
  "pure_op opReturnDataCopy" "pure_op opCodeSize" "pure_op opCodeCopy" "pure_op (opGasprice F)" "pure_op opPop"
  "pure_op opMload" "pure_op opMstore" "pure_op opMstore8" "pure_op opPc" "pure_op opMsize" "pure_op opGas" "pure_op opJumpdest"
  by (auto simp: pure_op_def ok_def fail_def push_def unop_def copy_op_def set_mem_def
      opSignExtend_def opSha3_def opAddress_def opCaller_def opCallValue_def opCallDataLoad_def opCallDataSize_def
      opCallDataCopy_def opReturnDataSize_def opReturnDataCopy_def opCodeSize_def opCodeCopy_def
      opGasprice_def opPop_def opMload_def opMstore_def opMstore8_def opPc_def opMsize_def
      opGas_def opJumpdest_def Let_def split: list.splits option.splits)

lemma pure_last [simp]:
  "pure_op opJump" "pure_op opJumpi" "pure_op opReturn" "pure_op opRevert" "pure_op opStop"
  "pure_op (makePush sz n)" "pure_op (makeDup n)" "pure_op (makeSwap n)"
  by (auto simp: pure_op_def ok_def fail_def push_def jump_to_def opJump_def opJumpi_def opReturn_def db_def
      opRevert_def opStop_def makePush_def makeDup_def makeSwap_def mem_result_def Let_def
      split: list.splits option.splits if_splits)

lemma pure_gas_simps [simp]:
  "pure_gas (constGasFunc g)" "pure_gas (with_mem_gas f)" "pure_gas (per_word_gas b n p)" "pure_gas (gasExp F)"
  "pure_gas (gasBalance F)" "pure_gas (gasExtCodeSize F)" "pure_gas (gasSLoad F)" "pure_gas (makeGasLog w)"
  "pure_gas gasPush" "pure_gas gasSwap" "pure_gas gasDup"
  by (auto simp: pure_gas_def constGasFunc_def with_mem_gas_def per_word_gas_def gasExp_def gasBalance_def gasExtCodeSize_def
      gasSLoad_def makeGasLog_def gasPush_def gasSwap_def gasDup_def db_def split: option.splits prod.splits)

lemma pure_gas_named [simp]:
  "pure_gas gasCallDataCopy" "pure_gas gasReturnDataCopy" "pure_gas gasCodeCopy" "pure_gas (gasExtCodeCopy F)"
  "pure_gas gasSha3" "pure_gas gasMLoad" "pure_gas gasMStore8" "pure_gas gasMStore" "pure_gas gasReturn" "pure_gas gasRevert"
  "pure_gas gasCreate"
  by (simp_all add: gasCallDataCopy_def gasReturnDataCopy_def gasCodeCopy_def gasExtCodeCopy_def gasSha3_def gasMLoad_def
      gasMStore8_def gasMStore_def gasReturn_def gasRevert_def gasCreate_def)

lemma pure_framed: "pure_op (op_execute opn) \<Longrightarrow> pure_gas (op_gasCost opn) \<Longrightarrow> framed quiet opn"
  by (simp add: framed_def pure_op_def pure_gas_def)

lemma dbop_framed: "(\<And>x d. quiet d (fst (f x d))) \<Longrightarrow> frame quiet st (fst (dbop f st))"
  by (auto simp: dbop_def frame_def ok_def fail_def quiet_refl split: list.splits prod.splits) (metis fst_conv)

lemma read_op:
  "frame quiet st (fst (opBalance E st))" "frame quiet st (fst (opExtCodeSize E st))" "frame quiet st (fst (opSload E st))"
  "frame quiet st (fst (opExtCodeCopy E st))"
proof -
  have s2: "quiet d (fst (case p of (d', n) \<Rightarrow> (d', f n)))" if "quiet d (fst p)" for d :: 's and p :: "'s \<times> nat" and f :: "nat \<Rightarrow> int"
    using that by (cases p) simp
  have s3: "quiet d (fst (case p of (d', n) \<Rightarrow> (d', f n)))" if "quiet d (fst p)" for d :: 's and p :: "'s \<times> hash" and f :: "hash \<Rightarrow> int"
    using that by (cases p) simp
  show "frame quiet st (fst (opBalance E st))" "frame quiet st (fst (opExtCodeSize E st))" "frame quiet st (fst (opSload E st))"
    by (simp_all add: opBalance_def opExtCodeSize_def opSload_def dbop_framed reads s2 s3)
  show "frame quiet st (fst (opExtCodeCopy E st))"
    using reads(5) [of "db st"]
    by (auto simp: opExtCodeCopy_def copy_op_def set_mem_def frame_def ok_def fail_def quiet_refl
        split: list.splits prod.splits option.splits) (metis fst_conv)+
qed

text \<open>Each entry of the table that does not call is framed by \<open>quiet\<close>, or writes and is framed by \<open>reach\<close>.\<close>

definition entry_framed :: "'s operation \<Rightarrow> bool" where
  "entry_framed opn \<longleftrightarrow> framed quiet opn \<or> (op_writes opn \<and> framed reach opn)"

lemma framed_oper [simp]:
  "framed R (oper ex g v\<lparr>op_memorySize := m\<rparr>) = framed R (oper ex g v)" "framed R (opn\<lparr>op_halts := b\<rparr>) = framed R opn"
  "framed R (opn\<lparr>op_jumps := b\<rparr>) = framed R opn" "framed R (opn\<lparr>op_writes := b\<rparr>) = framed R opn"
  "framed R (opn\<lparr>op_reverts := b\<rparr>) = framed R opn" "framed R (opn\<lparr>op_returns := b\<rparr>) = framed R opn"
  "framed R (opn\<lparr>op_memorySize := m\<rparr>) = framed R opn"
  by (simp_all add: framed_def)

lemma framed_read [simp]:
  "framed quiet (oper (opBalance E) (gasBalance E) v)" "framed quiet (oper (opExtCodeSize E) (gasExtCodeSize E) v)"
  "framed quiet (oper (opSload E) (gasSLoad E) v)" "framed quiet (oper (opExtCodeCopy E) (gasExtCodeCopy E) v)"
  using pure_gas_simps(5) [of E] pure_gas_simps(6) [of E] pure_gas_simps(7) [of E] pure_gas_named(4) [of E]
  by (simp_all add: framed_def oper_def read_op pure_gas_def)

lemma framed_pure [simp]: "pure_op ex \<Longrightarrow> pure_gas g \<Longrightarrow> framed quiet (oper ex g v)"
  by (simp add: pure_framed oper_def)

lemma framed_sstore [simp]: "framed reach (oper (opSstore E) (gasSStore E) v)"
proof -
  have g: "reach (db st) (db (fst (gasSStore E st m)))" for st m
  proof (cases "stack_Back (vs_stack st) 0 = None \<or> stack_Back (vs_stack st) 1 = None")
    case True
    then show ?thesis using quiet_refl [THEN quiet_reach] by (auto simp: gasSStore_def split: option.splits)
  next
    case False
    then obtain x y where xy: "stack_Back (vs_stack st) 0 = Some x" "stack_Back (vs_stack st) 1 = Some y" by auto
    obtain d c where d: "db_GetState (en_db E) (self st) (BigToHash x) (db st) = (d, c)" by fastforce
    have r: "reach (db st) d" using reads(7) [of "db st" "self st" "BigToHash x", THEN quiet_reach] d by simp
    then show ?thesis using reach_trans [OF r writers(5)] xy d by (simp add: gasSStore_def rules)
  qed
  have "ev_readOnly (vs_evm (fst (gasSStore E st m))) = ev_readOnly (vs_evm st)" for st m
    by (auto simp: gasSStore_def rules split: option.splits prod.splits)
  moreover have "frame reach st (fst (opSstore E st))" for st
    using writers(6) quiet_refl [THEN quiet_reach] by (auto simp: opSstore_def frame_def ok_def fail_def split: list.splits)
  ultimately show ?thesis using g by (simp add: framed_def oper_def frame_def)
qed

lemma framed_log [simp]: "framed reach (oper (makeLog E n) (makeGasLog w) v)"
proof -
  have "frame reach st (fst (makeLog E n st))" for st
    using writers(8) quiet_refl [THEN quiet_reach]
    by (auto simp: makeLog_def frame_def ok_def fail_def split: list.splits option.splits)
  moreover have "frame reach st (fst (makeGasLog w st m))" for st m
    using pure_gas_simps(8) [of w] quiet_refl [THEN quiet_reach] by (simp add: pure_gas_def frame_def)
  ultimately show ?thesis by (simp add: framed_def oper_def)
qed

lemma framed_suicide [simp]: "framed reach (oper (opSuicide E) (gasSuicide E) v)"
proof -
  have r: "reach d d" for d using quiet_refl [THEN quiet_reach] .
  have ex: "frame reach st (fst (opSuicide E st))" for st
  proof (cases "vs_stack st")
    case (Cons x s)
    obtain d b where d: "db_GetBalance (en_db E) (self st) (db st) = (d, b)" by fastforce
    have "reach (db st) d" using reads(1) [of "db st" "self st", THEN quiet_reach] d by simp
    then have "reach (db st) (db_Suicide (en_db E) (self st) (db_AddBalance (en_db E) (BigToAddress x) b d))"
      using reach_trans [OF reach_trans [OF _ writers(2)] writers(7)] by simp
    then show ?thesis using Cons d by (simp add: opSuicide_def frame_def ok_def)
  qed (simp add: opSuicide_def frame_def fail_def r)
  have "frame reach st (fst (gasSuicide E st m))" for st m
  proof (cases "stack_Back (vs_stack st) 0")
    case (Some x)
    define a where "a = BigToAddress x"
    obtain d1 em where d1: "db_Empty (en_db E) a (db st) = (d1, em)" by fastforce
    obtain d2 b where d2: "db_GetBalance (en_db E) (self st) d1 = (d2, b)" by fastforce
    have q1: "reach (db st) d1" using reads(10) [of "db st" a, THEN quiet_reach] d1 by simp
    then have q2: "reach (db st) d2" using reads(1) [of d1 "self st", THEN quiet_reach] d2 reach_trans by fastforce
    define d3 where "d3 = (if en_IsEIP150 E then if em then d2 else d1 else db st)"
    have q3: "reach (db st) d3" using q1 q2 r by (simp add: d3_def)
    obtain d4 gone where d4: "db_HasSuicided (en_db E) (self st) d3 = (d4, gone)" by fastforce
    have q4: "reach (db st) d4" using reads(8) [of d3 "self st", THEN quiet_reach] d4 reach_trans [OF q3] by simp
    have "fst (gasSuicide E st m) = set_db (if gone then d4 else db_AddRefund (en_db E) SuicideRefundGas d4) st"
      using Some d1 d2 d4 by (simp add: gasSuicide_def rules a_def d3_def Let_def split: prod.splits if_splits)
    then show ?thesis using reach_trans [OF q4 writers(5)] q4 by (simp add: frame_def)
  qed (simp add: gasSuicide_def frame_def r)
  with ex show ?thesis by (simp add: framed_def oper_def)
qed

section \<open>Instructions that call\<close>

definition call_frame :: "'s evm \<Rightarrow> 's evm \<Rightarrow> bool" where
  "call_frame ev ev' \<longleftrightarrow>
     ev_readOnly ev' = ev_readOnly ev \<and> moves (ev_readOnly ev) (ev_StateDB ev) (ev_StateDB ev')"

definition calls_framed :: "'s calls \<Rightarrow> bool" where
  "calls_framed C \<longleftrightarrow>
     (\<forall>ev a b i g v. (ev_readOnly ev \<longrightarrow> v = 0) \<longrightarrow> call_frame ev (fst (ca_Call C ev a b i g v)))
     \<and> (\<forall>ev a b i g v. call_frame ev (fst (ca_CallCode C ev a b i g v)))
     \<and> (\<forall>ev c b i g. call_frame ev (fst (ca_DelegateCall C ev c b i g)))
     \<and> (\<forall>ev a b i g. call_frame ev (fst (ca_StaticCall C ev a b i g)))
     \<and> (\<forall>ev a i g v. \<not> ev_readOnly ev \<longrightarrow> call_frame ev (fst (ca_Create C ev a i g v)))"

definition vframe :: "'s vst \<Rightarrow> 's vst \<Rightarrow> bool" where
  "vframe st st' \<longleftrightarrow> call_frame (vs_evm st) (vs_evm st')"

lemma call_frame_refl [simp]: "call_frame ev ev"
  by (simp add: call_frame_def)

lemma vframe_refl [simp]: "vs_evm st' = vs_evm st \<Longrightarrow> vframe st st'"
  by (simp add: vframe_def call_frame_def)

lemma finish_call_frame: "call_frame (vs_evm st) (fst r) \<Longrightarrow> vframe st (fst (finish_call st s ro rs r))"
  by (cases r) (auto simp: finish_call_def vframe_def fail_def Let_def split: option.splits)

lemma call_exec_frame:
  assumes "calls_framed C"
  shows "vframe st (fst (opCallCode C st))" "vframe st (fst (opDelegateCall C st))" "vframe st (fst (opStaticCall C st))"
    "(ev_readOnly (vs_evm st) \<Longrightarrow> stack_Back (vs_stack st) 2 = Some 0) \<Longrightarrow> vframe st (fst (opCall C st))"
    "\<not> ev_readOnly (vs_evm st) \<Longrightarrow> vframe st (fst (opCreate E C st))"
proof -
  show "vframe st (fst (opCallCode C st))" "vframe st (fst (opDelegateCall C st))" "vframe st (fst (opStaticCall C st))"
    using assms unfolding opCallCode_def opDelegateCall_def opStaticCall_def
    by (auto simp: calls_framed_def fail_def Let_def intro!: finish_call_frame split: list.split option.split)
  show "vframe st (fst (opCall C st))" if "ev_readOnly (vs_evm st) \<Longrightarrow> stack_Back (vs_stack st) 2 = Some 0"
    using assms that unfolding opCall_def
    by (auto simp: calls_framed_def fail_def Let_def stack_Back_def U256_def intro!: finish_call_frame split: list.split option.split)
  show "vframe st (fst (opCreate E C st))" if "\<not> ev_readOnly (vs_evm st)"
  proof -
    have c: "call_frame (vs_evm st) ev'" if "ca_Create C (vs_evm st) a i g v = (ev', r)" for a i g v ev' r
      using assms that \<open>\<not> ev_readOnly (vs_evm st)\<close> unfolding calls_framed_def by (metis fst_conv)
    have r: "vframe st st" by simp
    show ?thesis
      using r unfolding opCreate_def
      by (auto simp: fail_def ok_def vframe_def Let_def dest: c split: list.split option.split prod.split)
  qed
qed

text \<open>The entries of the table, by what they may do.\<close>

definition entry_kind :: "'s calls \<Rightarrow> byte \<times> 's operation \<Rightarrow> bool" where
  "entry_kind C p \<longleftrightarrow>
     entry_framed (snd p) \<or> snd p = op_create E C \<or> p = (CALL, op_call E C)
     \<or> snd p \<in> {op_callcode E C, op_delegatecall E C, op_staticcall E C}"

lemma table_kinds: "list_all (entry_kind C) (JumpTable E C)"
proof -
  have f: "list_all (entry_kind C) (frontier_arith E @ frontier_compare E @ frontier_env E @ frontier_block E @ frontier_mem E
     @ frontier_push @ frontier_dup @ frontier_swap @ frontier_log E)"
    unfolding frontier_arith_def frontier_compare_def frontier_env_def frontier_block_def frontier_mem_def
      frontier_push_def frontier_dup_def frontier_swap_def frontier_log_def
    by (simp add: entry_kind_def entry_framed_def list_all_iff ball_Un del: upt_Suc)
  have c: "list_all (entry_kind C) (frontier_call E C)"
    by (simp add: frontier_call_def entry_kind_def op_create_def op_call_def op_callcode_def) (simp add: entry_framed_def)
  have h: "list_all (entry_kind C) (newHomesteadInstructionSet E C)"
    using f c by (simp add: newHomesteadInstructionSet_def newFrontierInstructionSet_def)
      (simp add: entry_kind_def op_delegatecall_def)
  have "list_all (entry_kind C) (newByzantiumInstructionSet E C)"
    using h by (simp add: newByzantiumInstructionSet_def) (simp add: entry_kind_def op_staticcall_def entry_framed_def)
  then show ?thesis by (simp add: JumpTable_def rules)
qed

lemma call_gas_frame:
  "frame quiet st (fst (gasCall E st m))" "vs_stack (fst (gasCall E st m)) = vs_stack st"
  "frame quiet st (fst (gasCallCode E st m))" "frame quiet st (fst (gasDelegateCall E st m))"
  "frame quiet st (fst (gasStaticCall E st m))"
proof -
  have mc: "db (fst (mem_charge_call E base st m)) = db st"
    "ev_readOnly (vs_evm (fst (mem_charge_call E base st m))) = ev_readOnly (vs_evm st)"
    "vs_stack (fst (mem_charge_call E base st m)) = vs_stack st" for base st m
    by (auto simp: mem_charge_call_def charge_call_def Let_def db_def split: prod.split sum.split option.split)
  show "frame quiet st (fst (gasCallCode E st m))" "frame quiet st (fst (gasDelegateCall E st m))"
    "frame quiet st (fst (gasStaticCall E st m))"
    by (auto simp: gasCallCode_def gasDelegateCall_def gasStaticCall_def mc split: option.split)
  have q: "quiet (db st) (fst (db_Empty (en_db E) a (db st)))" for a by (rule reads)
  show "frame quiet st (fst (gasCall E st m))"
    using q by (auto simp: gasCall_def rules Let_def frame_def mc quiet_refl split: option.splits prod.splits) (metis fst_conv)+
  show "vs_stack (fst (gasCall E st m)) = vs_stack st"
    by (auto simp: gasCall_def Let_def mc set_db_def split: option.splits prod.splits)
qed

lemma frame_vframe: "frame quiet st st' \<Longrightarrow> vframe st st'" "frame reach st st' \<Longrightarrow> \<not> ev_readOnly (vs_evm st) \<Longrightarrow> vframe st st'"
  by (simp_all add: frame_def vframe_def call_frame_def quiet_moves db_def) (simp add: moves_def)

lemma vframe_trans: "vframe st st' \<Longrightarrow> vframe st' st'' \<Longrightarrow> vframe st st''"
  using moves_trans by (auto simp: vframe_def call_frame_def)

lemma prepare_frame:
  assumes "\<And>m. vframe st (fst (op_gasCost opn st m))" "prepare opn st = (st2, r)"
  shows "vframe st st2"
  using assms(2) assms(1) [unfolded vframe_def]
  by (auto simp: prepare_def vframe_def split: sum.splits prod.splits if_splits) (metis fst_conv)+

lemma entry_frame:
  assumes c: "calls_framed C" and k: "entry_kind C (opc, opn)" and w: "ev_readOnly (vs_evm st) \<Longrightarrow> \<not> op_writes opn"
    and call: "opc = CALL \<Longrightarrow> ev_readOnly (vs_evm st) \<Longrightarrow> stack_Back (vs_stack st) 2 = Some 0"
    and p: "prepare opn st = (st2, r)"
  shows "vframe st st2" "r = None \<Longrightarrow> vframe st (fst (op_execute opn st2))"
proof -
  have k': "entry_framed opn \<or> opn = op_create E C \<or> (opc = CALL \<and> opn = op_call E C)
      \<or> opn \<in> {op_callcode E C, op_delegatecall E C, op_staticcall E C}"
    using k by (simp add: entry_kind_def)
  have g: "vframe st (fst (op_gasCost opn st m))" for m
    using k' w call_gas_frame [of st m] pure_gas_named(11)
    by (auto simp: entry_framed_def framed_def call_ops pure_gas_def intro: frame_vframe)
  show s2: "vframe st st2" by (rule prepare_frame [OF g p])
  show "vframe st (fst (op_execute opn st2))" if "r = None"
  proof -
    have ro: "ev_readOnly (vs_evm st2) = ev_readOnly (vs_evm st)" using s2 by (simp add: vframe_def call_frame_def)
    have "vs_stack st2 = vs_stack st" if "opn = op_call E C"
      using p \<open>r = None\<close> call_gas_frame(2) that
      by (auto simp: prepare_def op_call_def split: sum.splits prod.splits if_splits) (metis fst_conv)+
    then have "vframe st2 (fst (op_execute opn st2))"
      using k' w call ro call_exec_frame [OF c, of st2]
      by (auto simp: entry_framed_def framed_def call_ops intro: frame_vframe)
    then show ?thesis using vframe_trans [OF s2] by simp
  qed
qed

lemma BitLen_0: "\<not> 0 < big_BitLen v \<Longrightarrow> v = 0"
  by (auto simp: big_BitLen_def BitLen.simps [of "nat \<bar>v\<bar>"] split: if_splits)

lemma run_step_frame:
  assumes c: "calls_framed C"
  shows "vframe st (fst (run_step E C st))"
proof (cases "map_of (JumpTable E C) (GetOp (vs_contract st) (vs_pc st))")
  case None
  then show ?thesis by (simp add: run_step_def)
next
  case (Some opn)
  define opc where "opc = GetOp (vs_contract st) (vs_pc st)"
  have k: "entry_kind C (opc, opn)"
    using table_kinds [of C] Some by (auto simp: list_all_iff opc_def dest!: map_of_SomeD)
  obtain st2 r where p: "prepare opn st = (st2, r)" by fastforce
  show ?thesis
  proof (cases "op_validateStack opn (vs_stack st) = None \<and> enforceRestrictions E opc opn st = None")
    case False
    then show ?thesis using Some by (auto simp: run_step_def opc_def Let_def split: option.split)
  next
    case True
    then have w: "ev_readOnly (vs_evm st) \<Longrightarrow> \<not> op_writes opn"
      "opc = CALL \<Longrightarrow> ev_readOnly (vs_evm st) \<Longrightarrow> stack_Back (vs_stack st) 2 = Some 0"
      using BitLen_0 by (auto simp: enforceRestrictions_def rules split: if_splits option.splits)
    note f = entry_frame [OF c k w p]
    obtain st3 d err where x: "op_execute opn st2 = (st3, d, err)" by (metis prod_cases3)
    have "r = None \<Longrightarrow> vframe st st3" using f(2) x by simp
    then show ?thesis
      using True Some p f(1) x unfolding run_step_def
      by (auto simp: opc_def Let_def vframe_def call_frame_def split: option.split)
  qed
qed

section \<open>Calls\<close>

definition loop_framed :: "'s loop \<Rightarrow> bool" where
  "loop_framed loop \<longleftrightarrow> (\<forall>st. vframe st (fst (loop st)))"

definition ran :: "bool \<Rightarrow> 's evm \<Rightarrow> 's evm \<Rightarrow> bool" where
  "ran ro ev ev' \<longleftrightarrow> ev_readOnly ev' = ev_readOnly ev \<and> moves (ev_readOnly ev \<or> ro) (ev_StateDB ev) (ev_StateDB ev')"

lemma Run_frame:
  assumes "loop_framed loop"
  shows "ran ro ev (fst (Run loop ev c input ro))"
proof (cases "ct_Code c = []")
  case True
  then show ?thesis by (auto simp: Run_def ran_def Let_def)
next
  case False
  define st0 where "st0 = \<lparr>vs_pc = 0, vs_evm = ev\<lparr>ev_depth := Suc (ev_depth ev), ev_readOnly := ev_readOnly ev \<or> ro, ev_returnData := []\<rparr>,
    vs_contract = c\<lparr>ct_Input := input\<rparr>, vs_mem = NewMemory, vs_stack = []\<rparr>"
  obtain st ret err where l: "loop st0 = (st, ret, err)" by (metis prod_cases3)
  have "vframe st0 st" using assms l unfolding loop_framed_def by (metis fst_conv)
  then have "ev_readOnly (vs_evm st) = (ev_readOnly ev \<or> ro)"
    "moves (ev_readOnly ev \<or> ro) (ev_StateDB ev) (ev_StateDB (vs_evm st))"
    by (simp_all add: vframe_def call_frame_def st0_def)
  then show ?thesis using False l by (auto simp: Run_def ran_def Let_def st0_def)
qed

lemma run_frame:
  assumes "loop_framed loop"
  shows "ran ro ev (fst (run loop E ev c input ro))"
  using Run_frame [OF assms] by (auto simp: run_def ran_def split: option.split prod.split)

lemma settle_frame:
  assumes s: "settle E (db_Snapshot (en_db E) d0) (ev, c, ret, err) = (ev', ret', g, err')"
    and d: "moves ro d0 (ev_StateDB ev)"
  shows "ev_readOnly ev' = ev_readOnly ev" "moves ro d0 (ev_StateDB ev')"
    "err' = Some e \<Longrightarrow> \<not> fatal e \<Longrightarrow> same d0 (ev_StateDB ev')"
proof -
  note r = revert [OF moves_reach [OF d]]
  show "ev_readOnly ev' = ev_readOnly ev" "moves ro d0 (ev_StateDB ev')"
    using s d r [THEN same_quiet, THEN quiet_moves] by (auto simp: settle_def split: option.splits if_splits)
  show "err' = Some e \<Longrightarrow> \<not> fatal e \<Longrightarrow> same d0 (ev_StateDB ev')"
    using s r by (auto simp: settle_def fatal_def split: option.splits if_splits)
qed

lemma with_code_frame:
  assumes "with_code E ev a c = (ev', c')"
  shows "ev_readOnly ev' = ev_readOnly ev" "same (ev_StateDB ev) (ev_StateDB ev')"
proof -
  obtain d1 h where 1: "db_GetCodeHash (en_db E) a (ev_StateDB ev) = (d1, h)" by fastforce
  obtain d2 co where 2: "db_GetCode (en_db E) a d1 = (d2, co)" by fastforce
  have "same (ev_StateDB ev) d1" "same d1 d2"
    using readers(4) [of "ev_StateDB ev" a] readers(5) [of d1 a] 1 2 by simp_all
  then show "ev_readOnly ev' = ev_readOnly ev" "same (ev_StateDB ev) (ev_StateDB ev')"
    using assms 1 2 same_trans by (auto simp: with_code_def)
qed

text \<open>The common part of the four calls: from a snapshot of \<open>d0\<close>, reads and the run of the code.\<close>

lemma call_body:
  assumes l: "loop_framed loop" and r: "(case with_code E ev a c of (ev1, c1) \<Rightarrow>
      settle E (db_Snapshot (en_db E) d0) (run loop E ev1 c1 input ro)) = (ev', ret, g, err)"
    and m: "moves (ev_readOnly ev) d0 (ev_StateDB ev)"
  shows "ev_readOnly ev' = ev_readOnly ev" "moves (ev_readOnly ev) d0 (ev_StateDB ev')"
    "err = Some e \<Longrightarrow> \<not> fatal e \<Longrightarrow> same d0 (ev_StateDB ev')"
proof -
  obtain ev1 c1 where w: "with_code E ev a c = (ev1, c1)" by fastforce
  obtain ev2 c2 ret2 err2 where u: "run loop E ev1 c1 input ro = (ev2, c2, ret2, err2)" by (metis prod_cases4)
  have x: "ran ro ev1 ev2" using run_frame [OF l, of ro ev1 c1 input] u by simp
  have ro: "ev_readOnly ev2 = ev_readOnly ev" using x with_code_frame(1) [OF w] by (simp add: ran_def)
  have "moves (ev_readOnly ev) (ev_StateDB ev1) (ev_StateDB ev2)"
    using x with_code_frame(1) [OF w] by (auto simp: ran_def intro: moves_weaken)
  then have d: "moves (ev_readOnly ev) d0 (ev_StateDB ev2)"
    using moves_trans [OF moves_trans [OF m quiet_moves [OF same_quiet [OF with_code_frame(2) [OF w]]]]] by blast
  have s: "settle E (db_Snapshot (en_db E) d0) (ev2, c2, ret2, err2) = (ev', ret, g, err)" using r w u by simp
  show "ev_readOnly ev' = ev_readOnly ev" "moves (ev_readOnly ev) d0 (ev_StateDB ev')"
    "err = Some e \<Longrightarrow> \<not> fatal e \<Longrightarrow> same d0 (ev_StateDB ev')"
    using settle_frame [OF s d] ro by simp_all
qed

text \<open>A call that moves within the frame, and leaves the database as it was if it fails.\<close>

definition sound_call :: "'s evm \<Rightarrow> 's evm \<times> bytes \<times> uint64 \<times> vm_error option \<Rightarrow> bool" where
  "sound_call ev r \<longleftrightarrow>
     (case r of (ev', ret, g, err) \<Rightarrow>
        call_frame ev ev' \<and> (\<forall>e. err = Some e \<longrightarrow> \<not> fatal e \<longrightarrow> same (ev_StateDB ev) (ev_StateDB ev')))"

lemma sound_body:
  assumes l: "loop_framed loop" and s: "same (ev_StateDB ev) d0" and m: "moves (ev_readOnly ev) d0 d1"
  shows "sound_call ev (case with_code E (ev\<lparr>ev_StateDB := d1\<rparr>) a c of (ev1, c1) \<Rightarrow>
      settle E (db_Snapshot (en_db E) d0) (run loop E ev1 c1 input ro))"
proof -
  obtain ev' ret g err where r: "(case with_code E (ev\<lparr>ev_StateDB := d1\<rparr>) a c of (ev1, c1) \<Rightarrow>
      settle E (db_Snapshot (en_db E) d0) (run loop E ev1 c1 input ro)) = (ev', ret, g, err)" by (metis prod_cases4)
  note b = call_body [OF l r, simplified, OF m]
  show ?thesis
    unfolding r sound_call_def prod.case
    using b(1,2) b(3) moves_trans [OF quiet_moves [OF same_quiet [OF s]] b(2)] same_trans [OF s]
    by (simp add: call_frame_def)
qed

lemma sound_unchanged: "same (ev_StateDB ev) d \<Longrightarrow> sound_call ev (ev\<lparr>ev_StateDB := d\<rparr>, ret, g, err)"
  by (simp add: sound_call_def call_frame_def quiet_moves same_quiet)

lemma sound_calls:
  assumes l: "loop_framed loop"
  shows "(ev_readOnly ev \<Longrightarrow> v = 0) \<Longrightarrow> sound_call ev (evm_Call loop E ev a b i g v)"
    "sound_call ev (evm_CallCode loop E ev a b i g v)" "sound_call ev (evm_DelegateCall loop E ev p b i g)"
    "sound_call ev (evm_StaticCall loop E ev a b i g)"
proof -
  have u: "sound_call ev (ev, ret, g, err)" for ret g err
    using sound_unchanged [OF same_refl, of ev] by simp
  note bd = sound_body [OF l, where ev = ev]
  have "sound_call ev (case with_code E ev a c of (ev1, c1) \<Rightarrow>
      settle E (db_Snapshot (en_db E) (ev_StateDB ev)) (run loop E ev1 c1 i ro))" for a c ro
    using bd [where ?d1.0 = "ev_StateDB ev", OF same_refl moves_refl] by simp
  then show "sound_call ev (evm_DelegateCall loop E ev p b i g)" "sound_call ev (evm_StaticCall loop E ev a b i g)"
    by (simp_all add: evm_DelegateCall_def evm_StaticCall_def u Let_def)
  obtain d0 can where d0: "en_CanTransfer E a v (ev_StateDB ev) = (d0, can)" by fastforce
  have s0: "same (ev_StateDB ev) d0" using readers(11) [of "ev_StateDB ev" a v] d0 by simp
  show "sound_call ev (evm_CallCode loop E ev a b i g v)"
    using d0 u sound_unchanged [OF s0] bd [OF s0 moves_refl] by (simp add: evm_CallCode_def Let_def)
  show "sound_call ev (evm_Call loop E ev a b i g v)" if ro: "ev_readOnly ev \<Longrightarrow> v = 0"
  proof -
    obtain d1 ex where d1: "db_Exist (en_db E) b d0 = (d1, ex)" by fastforce
    have s1: "same d0 d1" using readers(9) [of d0 b] d1 by simp
    define d2 where "d2 = (if ex then d1 else db_CreateAccount (en_db E) b d1)"
    have "moves (ev_readOnly ev) d0 (en_Transfer E a b v d2)"
      if new: "ex \<or> en_precompiles E b \<noteq> None \<or> v \<noteq> 0"
    proof (cases "ev_readOnly ev")
      case True
      then have "v = 0" using ro by simp
      then have "quiet d1 d2" using new quiet_refl new_precompile by (auto simp: d2_def)
      then show ?thesis
        using True \<open>v = 0\<close> quiet_trans [OF quiet_trans [OF same_quiet [OF s1]] idle_transfer] by (simp add: moves_def)
    next
      case False
      have "reach d1 d2" using quiet_refl [THEN quiet_reach] writers(1) by (simp add: d2_def)
      then show ?thesis
        using False reach_trans [OF reach_trans [OF quiet_reach [OF same_quiet [OF s1]]] writers(9)] by (simp add: moves_def)
    qed
    then show ?thesis
      using d0 d1 u sound_unchanged [OF s0] sound_unchanged [OF same_trans [OF s0 s1]] bd [OF s0]
      by (auto simp: evm_Call_def Let_def rules d2_def)
  qed
qed

lemma static_quiet:
  assumes l: "loop_framed loop"
  shows "quiet (ev_StateDB ev) (ev_StateDB (fst (evm_StaticCall loop E ev a b i g)))"
proof -
  let ?d = "ev_StateDB ev"
  obtain ev1 c1 where w: "with_code E ev b (NewContract a b 0 g) = (ev1, c1)" by fastforce
  obtain ev2 c2 ret2 err2 where u: "run loop E ev1 c1 i True = (ev2, c2, ret2, err2)" by (metis prod_cases4)
  obtain ev' ret g' err where s: "settle E (db_Snapshot (en_db E) ?d) (ev2, c2, ret2, err2) = (ev', ret, g', err)"
    by (metis prod_cases4)
  have "quiet (ev_StateDB ev1) (ev_StateDB ev2)" using run_frame [OF l, of True ev1 c1 i] u by (simp add: ran_def moves_def)
  then have "moves True ?d (ev_StateDB ev2)"
    using quiet_trans [OF same_quiet [OF with_code_frame(2) [OF w]]] by (simp add: moves_def)
  then have "quiet ?d (ev_StateDB ev')" using settle_frame(2) [OF s, of True] by (simp add: moves_def)
  then show ?thesis using w u s quiet_refl by (simp add: evm_StaticCall_def Let_def)
qed

lemma finish_create_frame:
  assumes f: "finish_create E (db_Snapshot (en_db E) d0) ad (ev, c, ret, err0) = (ev', ret', ad', g, err)"
    and d: "reach d0 (ev_StateDB ev)"
  shows "ev_readOnly ev' = ev_readOnly ev \<and> reach d0 (ev_StateDB ev')"
proof -
  obtain c' paid where u: "UseGas (word_of_nat (length ret) * CreateDataGas) c = (c', paid)" by fastforce
  have r: "reach d0 d''" if "db_RevertToSnapshot (en_db E) (db_Snapshot (en_db E) d0) (ev_StateDB ev) = Some d''" for d''
    using revert [OF d that] by (simp add: same_quiet quiet_reach)
  have w: "reach d0 (db_SetCode (en_db E) ad ret (ev_StateDB ev))" by (rule reach_trans [OF d writers(4)])
  show ?thesis
    using f u d r w by (auto simp: finish_create_def Let_def split: option.splits if_splits)
qed

lemma create_frame:
  assumes l: "loop_framed loop" and ro: "\<not> ev_readOnly ev"
  shows "call_frame ev (fst (evm_create loop E ev a code h g v ad))"
proof -
  obtain d0 can where d0: "en_CanTransfer E a v (ev_StateDB ev) = (d0, can)" by fastforce
  obtain d1 nonce where d1: "db_GetNonce (en_db E) a d0 = (d1, nonce)" by fastforce
  obtain d2 cnt where d2: "db_GetTxCount (en_db E) a d1 = (d2, cnt)" by fastforce
  define d3 where "d3 = db_SetNonce2 (en_db E) a (nonce + 1) (cnt + 1) d2"
  obtain d4 ch where d4: "db_GetCodeHash (en_db E) ad d3 = (d4, ch)" by fastforce
  obtain d5 n' where d5: "db_GetNonce (en_db E) ad d4 = (d5, n')" by fastforce
  define d8 where "d8 = en_Transfer E a ad v (db_SetNonce2 (en_db E) ad 1 1 (db_CreateAccount (en_db E) ad d5))"
  define ev8 where "ev8 = ev\<lparr>ev_StateDB := d8\<rparr>"
  define c where "c = SetCallCode ad h code (NewContract a ad v g)"
  have R: "quiet d d' \<Longrightarrow> reach d d'" for d d' by (rule quiet_reach)
  have s0: "reach (ev_StateDB ev) d0" using reads(11) [of "ev_StateDB ev" a v] d0 by (simp add: R)
  have "reach d0 d1" "reach d1 d2" "reach d3 d4" "reach d4 d5"
    using reads(2) [of d0 a] d1 reads(3) [of d1 a] d2 reads(4) [of d3 ad] d4 reads(2) [of d4 ad] d5 by (simp_all add: R)
  moreover have "reach d2 d3" by (simp add: d3_def writers)
  ultimately have s5: "reach (ev_StateDB ev) d5" using s0 reach_trans by blast
  have s8: "reach d5 d8"
    unfolding d8_def using reach_trans [OF reach_trans [OF writers(1) writers(3)] writers(9)] .
  obtain ev9 c9 ret9 err9 where r: "run loop E ev8 c [] False = (ev9, c9, ret9, err9)" by (metis prod_cases4)
  have r9: "ev_readOnly ev9 = ev_readOnly ev" "reach d8 (ev_StateDB ev9)"
    using run_frame [OF l, of False ev8 c "[]"] r ro by (simp_all add: ran_def moves_def ev8_def)
  obtain ev' ret' ad' g' err' where f: "finish_create E (db_Snapshot (en_db E) d5) ad (ev9, c9, ret9, err9) = (ev', ret', ad', g', err')"
    by (metis prod_cases5)
  have "ev_readOnly ev' = ev_readOnly ev \<and> reach d5 (ev_StateDB ev')"
    using finish_create_frame [OF f] reach_trans [OF s8 r9(2)] r9(1) by simp
  then have e: "call_frame ev ev'" using reach_trans [OF s5] ro by (simp add: call_frame_def moves_def)
  have "fst (evm_create loop E ev a code h g v ad) \<in> {ev, ev\<lparr>ev_StateDB := d0\<rparr>, ev\<lparr>ev_StateDB := d5\<rparr>, ev8, ev'}"
    using d0 d1 d2 d4 d5 r f
    by (simp add: evm_create_def Let_def rules d3_def d8_def ev8_def c_def)
  then show ?thesis
    using e s0 s5 reach_trans [OF s5 s8] ro by (auto simp: call_frame_def moves_def ev8_def quiet_refl R)
qed

lemma calls_framed_evm:
  assumes l: "loop_framed loop"
  shows "calls_framed (evm_calls loop E)"
proof -
  have c: "call_frame ev (fst r)" if "sound_call ev r" for ev and r :: "'s evm \<times> bytes \<times> uint64 \<times> vm_error option"
    using that by (auto simp: sound_call_def split: prod.splits)
  have "call_frame ev (fst (evm_Create loop E ev a i g v))" if "\<not> ev_readOnly ev" for ev a i g v
  proof -
    obtain d n where d: "db_GetNonce (en_db E) a (ev_StateDB ev) = (d, n)" by fastforce
    have "reach (ev_StateDB ev) d" using reads(2) [of "ev_StateDB ev" a] d by (simp add: quiet_reach)
    then show ?thesis
      using create_frame [OF l, of "ev\<lparr>ev_StateDB := d\<rparr>"] that d reach_trans
      by (auto simp: evm_Create_def call_frame_def moves_def)
  qed
  then show ?thesis
    using sound_calls [OF l, THEN c] by (simp add: calls_framed_def evm_calls_def)
qed

theorem interp_framed: "loop_framed (interp n E)"
proof (induction n)
  case 0
  then show ?case by (simp add: loop_framed_def)
next
  case (Suc n)
  show ?case
    unfolding loop_framed_def
  proof
    fix st :: "'s vst"
    obtain st' out where s: "run_step E (evm_calls (interp n E) E) st = (st', out)" by fastforce
    have f: "vframe st st'" using run_step_frame [OF calls_framed_evm [OF Suc], of st] s by simp
    show "vframe st (fst (interp (Suc n) E st))"
    proof (cases out)
      case Continue
      then show ?thesis using s f Suc vframe_trans by (auto simp: loop_framed_def)
    qed (use s f in simp)
  qed
qed

lemmas execution = sound_calls [OF interp_framed] static_quiet [OF interp_framed]

end

end
