(* ===== verification/Evm_Host.thy ===== *)
theory Evm_Host
  imports Evm_Frame State_Commit
begin

text \<open>
  The state database of the chain provides the interface \<open>evm_host\<close>, so what is proved over the interface
  holds of the chain's virtual machine: a failed call leaves every account as it was, and a static
  call changes none.
\<close>

section \<open>Relations between databases\<close>

definition good :: "(bytes \<Rightarrow> bytes) \<Rightarrow> trie_db \<Rightarrow> bytes \<Rightarrow> (bytes \<rightharpoonup> bytes) \<Rightarrow> trie statedb \<Rightarrow> bool" where
  "good sha kv pfx M s \<longleftrightarrow>
     mpt_models sha kv pfx (sd_trie s) M \<and> state_ok sha M (sd_objects s) \<and> journal_ok (sd_journal s)"

definition db_reach :: "(bytes \<Rightarrow> bytes) \<Rightarrow> trie_db \<Rightarrow> bytes \<Rightarrow> (bytes \<rightharpoonup> bytes) \<Rightarrow> trie statedb \<Rightarrow> trie statedb \<Rightarrow> bool" where
  "db_reach sha kv pfx M s s' \<longleftrightarrow> (good sha kv pfx M s \<longrightarrow> sdb_path (mpt_ops sha) sha (Snapshot s) s s')"

text \<open>No account outside \<open>A\<close> changes.\<close>

definition db_keeps ::
  "address set \<Rightarrow> (bytes \<Rightarrow> bytes) \<Rightarrow> trie_db \<Rightarrow> bytes \<Rightarrow> (bytes \<rightharpoonup> bytes) \<Rightarrow> trie statedb \<Rightarrow> trie statedb \<Rightarrow> bool" where
  "db_keeps A sha kv pfx M s s' \<longleftrightarrow>
     db_reach sha kv pfx M s s'
     \<and> (good sha kv pfx M s \<longrightarrow>
          sd_refund s' = sd_refund s \<and> (\<forall>a. a \<notin> A \<longrightarrow> sview sha M (sd_objects s') a = sview sha M (sd_objects s) a))"

lemma path_good:
  assumes "good sha kv pfx M s" "sdb_path (mpt_ops sha) sha (Snapshot s) s s'"
  shows "good sha kv pfx M s'" "Snapshot s \<le> Snapshot s'"
proof -
  let ?k = "length (jr_entries (sd_journal s))"
  have "mpt_models sha kv pfx (sd_trie s') M \<and> undo_point sha M s s'"
    using mpt.path_undo_point [where s = s and s' = s' and sha = sha and db = kv and pfx = pfx and M = M] assms by (simp add: good_def Snapshot_def journal_snapshot_def)
  then show "good sha kv pfx M s'" "Snapshot s \<le> Snapshot s'"
    by (simp_all add: good_def undo_point_def Snapshot_def journal_snapshot_def) (metis length_take min.cobounded1 min.commute)
qed

lemma path_trans:
  "sdb_path T sha k' s' s'' \<Longrightarrow> sdb_path T sha k s s' \<Longrightarrow> k \<le> k' \<Longrightarrow> sdb_path T sha k s s''"
proof (induction rule: sdb_path.induct)
  case (path_revert s1 i s2)
  then show ?case using sdb_path.path_revert [of T sha k s s1 i s2] by simp
qed (auto intro: sdb_path.path_op)

lemma reach_trans: "db_reach sha kv pfx M s s' \<Longrightarrow> db_reach sha kv pfx M s' s'' \<Longrightarrow> db_reach sha kv pfx M s s''"
  using path_good path_trans unfolding db_reach_def by metis

lemma keeps_trans:
  assumes "db_keeps A sha kv pfx M s s'" "db_keeps A sha kv pfx M s' s''"
  shows "db_keeps A sha kv pfx M s s''"
  using assms reach_trans [of sha kv pfx M s s' s''] path_good(1) [of sha kv pfx M s s']
  by (auto simp: db_keeps_def db_reach_def)

lemma keeps_mono: "db_keeps A sha kv pfx M s s' \<Longrightarrow> A \<subseteq> B \<Longrightarrow> db_keeps B sha kv pfx M s s'"
  by (auto simp: db_keeps_def)

lemma op_reach: "db_reach sha kv pfx M s (sdb_exec (mpt_ops sha) sha op s)"
  by (simp add: db_reach_def path_refl path_op)

lemma read_keeps:
  assumes "s' = sdb_exec (mpt_ops sha) sha op s" "good sha kv pfx M s \<Longrightarrow> reads sha M s s'"
  shows "db_keeps A sha kv pfx M s s'"
  using assms op_reach [of sha kv pfx M s op] by (simp add: db_keeps_def reads_def)

lemma reads_fst: "\<exists>s'. p = (s', x) \<and> P s' \<and> reads sha M s s' \<Longrightarrow> reads sha M s (fst p)"
  by auto

lemma keeps_getters:
  "db_keeps A sha kv pfx M s (fst (GetBalance (mpt_ops sha) sha a s))"
  "db_keeps A sha kv pfx M s (fst (GetNonce (mpt_ops sha) sha a s))"
  "db_keeps A sha kv pfx M s (fst (GetTxCount (mpt_ops sha) sha a s))"
  "db_keeps A sha kv pfx M s (fst (GetCodeHash (mpt_ops sha) sha a s))"
  "db_keeps A sha kv pfx M s (fst (GetCode (mpt_ops sha) sha a s))"
  "db_keeps A sha kv pfx M s (fst (GetData (mpt_ops sha) sha a k s))"
  "db_keeps A sha kv pfx M s (fst (HasSuicided (mpt_ops sha) sha a s))"
  "db_keeps A sha kv pfx M s (fst (Exist (mpt_ops sha) sha a s))"
  "db_keeps A sha kv pfx M s (fst (Empty (mpt_ops sha) sha a s))"
proof -
  have g: "mpt_models sha kv pfx (sd_trie s) M" "state_ok sha M (sd_objects s)" if "good sha kv pfx M s"
    using that by (simp_all add: good_def)
  show "db_keeps A sha kv pfx M s (fst (GetBalance (mpt_ops sha) sha a s))"
    by (rule read_keeps [of _ _ "OpGetBalance a"]) (simp, rule reads_fst [OF mpt.getters(1) [OF g]])
  show "db_keeps A sha kv pfx M s (fst (GetNonce (mpt_ops sha) sha a s))"
    by (rule read_keeps [of _ _ "OpGetNonce a"]) (simp, rule reads_fst [OF mpt.getters(2) [OF g]])
  show "db_keeps A sha kv pfx M s (fst (GetTxCount (mpt_ops sha) sha a s))"
    by (rule read_keeps [of _ _ "OpGetTxCount a"]) (use mpt.GetTxCount_reads [OF g] in simp)+
  show "db_keeps A sha kv pfx M s (fst (GetCodeHash (mpt_ops sha) sha a s))"
    by (rule read_keeps [of _ _ "OpGetCodeHash a"]) (simp, rule reads_fst [OF mpt.getters(3) [OF g]])
  show "db_keeps A sha kv pfx M s (fst (GetCode (mpt_ops sha) sha a s))"
    by (rule read_keeps [of _ _ "OpGetCode a"]) (simp, use mpt.GetCode_view [OF g, of a] in auto)
  show "db_keeps A sha kv pfx M s (fst (GetData (mpt_ops sha) sha a k s))"
    by (rule read_keeps [of _ _ "OpGetData a k"]) (simp, rule reads_fst [OF mpt.GetData_view [OF g]])
  show "db_keeps A sha kv pfx M s (fst (HasSuicided (mpt_ops sha) sha a s))"
    by (rule read_keeps [of _ _ "OpHasSuicided a"]) (simp, rule reads_fst [OF mpt.getters(5) [OF g]])
  show "db_keeps A sha kv pfx M s (fst (Exist (mpt_ops sha) sha a s))"
    by (rule read_keeps [of _ _ "OpExist a"]) (simp, rule reads_fst [OF mpt.getters(4) [OF g]])
  show "db_keeps A sha kv pfx M s (fst (Empty (mpt_ops sha) sha a s))"
    by (rule read_keeps [of _ _ "OpEmpty a"]) (simp, rule reads_fst [OF mpt.getters(6) [OF g]])
qed

text \<open>Balance operations that add or take nothing.\<close>

lemma idle_amount:
  assumes g: "good sha kv pfx M s"
    and op: "op = (case getStateObject (mpt_ops sha) sha a s of
        (s', Some o1) \<Rightarrow> putObject a (so_setAmount (f (acc_Amount (so_account o1))) o1) (record_change (e o1) s')
      | (s', None) \<Rightarrow> s')"
    and f: "\<And>x. f x = x"
  shows "sview sha M (sd_objects op) = sview sha M (sd_objects s)" "sd_refund op = sd_refund s"
proof -
  have m: "mpt_models sha kv pfx (sd_trie s) M" "state_ok sha M (sd_objects s)" using g by (simp_all add: good_def)
  show "sview sha M (sd_objects op) = sview sha M (sd_objects s)"
    using mpt.set_amount_view [where f = f, OF m op] f by (auto simp: fun_eq_iff split: option.splits)
  obtain s' where "getStateObject (mpt_ops sha) sha a s = (s', find_object sha M (sd_objects s) a)" "reads sha M s s'"
    using mpt.getStateObject_found [OF m] by blast
  then show "sd_refund op = sd_refund s"
    using op by (auto simp: reads_def split: option.splits)
qed

lemma idle_keeps:
  "db_keeps A sha kv pfx M s (AddBalance (mpt_ops sha) sha a 0 s)" "db_keeps A sha kv pfx M s (SubBalance (mpt_ops sha) sha a 0 s)"
proof -
  show "db_keeps A sha kv pfx M s (AddBalance (mpt_ops sha) sha a 0 s)"
    using op_reach [of sha kv pfx M s "OpAddBalance a 0"]
      idle_amount [where f = "\<lambda>x. x + 0", OF _ AddBalance_def [unfolded so_addAmount_def, of "mpt_ops sha" sha a 0 s]]
    by (simp add: db_keeps_def)
  show "db_keeps A sha kv pfx M s (SubBalance (mpt_ops sha) sha a 0 s)"
    using op_reach [of sha kv pfx M s "OpSubBalance a 0"]
      idle_amount [where f = "\<lambda>x. x - 0", OF _ SubBalance_def [unfolded so_subAmount_def, of "mpt_ops sha" sha a 0 s]]
    by (simp add: db_keeps_def)
qed

lemma sview_other: "b \<noteq> a \<Longrightarrow> sview sha M (objs(a \<mapsto> o1)) b = sview sha M objs b"
  by (simp add: sview_def find_object_def)

lemma create_keeps:
  assumes "a \<in> A"
  shows "db_keeps A sha kv pfx M s (CreateAccount (mpt_ops sha) sha a s)"
proof -
  have "sd_refund (CreateAccount (mpt_ops sha) sha a s) = sd_refund s
      \<and> (\<forall>b. b \<notin> A \<longrightarrow> sview sha M (sd_objects (CreateAccount (mpt_ops sha) sha a s)) b = sview sha M (sd_objects s) b)"
    if g: "good sha kv pfx M s"
  proof -
    have m: "mpt_models sha kv pfx (sd_trie s) M" "state_ok sha M (sd_objects s)" using g by (simp_all add: good_def)
    obtain s' where "getStateObject (mpt_ops sha) sha a s = (s', find_object sha M (sd_objects s) a)" "reads sha M s s'"
      using mpt.getStateObject_found [OF m] by blast
    then show ?thesis
      using assms by (auto simp: CreateAccount_def reads_def split: option.splits) (metis sview_other)
  qed
  then show ?thesis using op_reach [of sha kv pfx M s "OpCreateAccount a"] by (simp add: db_keeps_def)
qed

lemma revert_keeps:
  assumes "db_reach sha kv pfx M s s'" "RevertToSnapshot (mpt_ops sha) sha (Snapshot s) s' = Inr s''"
  shows "db_keeps {} sha kv pfx M s s''"
proof -
  have "sdb_path (mpt_ops sha) sha (Snapshot s) s s'' \<and> shown_by sha M s'' = shown_by sha M s" if g: "good sha kv pfx M s"
  proof -
    have p: "sdb_path (mpt_ops sha) sha (Snapshot s) s s'" using assms(1) g by (simp add: db_reach_def)
    show ?thesis
      using mpt.revert_restores [OF p, of kv pfx M] g assms(2) path_revert [OF p order_refl assms(2)] by (auto simp: good_def)
  qed
  then show ?thesis by (simp add: db_keeps_def db_reach_def)
qed

section \<open>The chain's machine\<close>

lemma fst_case: "fst (case p of (s, x) \<Rightarrow> (s, g x)) = fst p"
  by (cases p) simp

abbreviation chain_env where
  "chain_env shards sha getHash origin coinbase height time difficulty K \<equiv>
     defaultEnv shards (mpt_ops sha) sha getHash origin coinbase height time difficulty K"

interpretation chain: evm_host
  "chain_env shards sha getHash origin coinbase height time difficulty K" "db_reach sha kv pfx M"
  "db_keeps (dom (PrecompiledContractsByzantium K)) sha kv pfx M" "db_keeps {} sha kv pfx M"
  for shards sha getHash origin coinbase height time difficulty K kv pfx M
proof
  fix d d' d'' :: "trie statedb"
  let ?E = "chain_env shards sha getHash origin coinbase height time difficulty K"
  let ?reach = "db_reach sha kv pfx M" and ?same = "db_keeps {} sha kv pfx M"
  let ?quiet = "db_keeps (dom (PrecompiledContractsByzantium K)) sha kv pfx M"
  show "?reach d d' \<Longrightarrow> ?reach d' d'' \<Longrightarrow> ?reach d d''" by (rule reach_trans)
  show "?quiet d d' \<Longrightarrow> ?quiet d' d'' \<Longrightarrow> ?quiet d d''" by (rule keeps_trans)
  show "?same d d' \<Longrightarrow> ?same d' d'' \<Longrightarrow> ?same d d''" by (rule keeps_trans)
  show "?quiet d d' \<Longrightarrow> ?reach d d'" by (simp add: db_keeps_def)
  show "?same d d" by (simp add: db_keeps_def db_reach_def path_refl)
  show "?same d d' \<Longrightarrow> ?quiet d d'" by (erule keeps_mono) simp
  fix a b :: address and k :: hash and v :: int and n c :: uint64
  note env = defaultEnv_def evm_db_def canTransferFunc_def transferFunc_def GetCodeSize_def fst_case
  show "?same d (fst (db_GetBalance (en_db ?E) a d))" "?same d (fst (db_GetNonce (en_db ?E) a d))"
    "?same d (fst (db_GetTxCount (en_db ?E) a d))" "?same d (fst (db_GetCodeHash (en_db ?E) a d))"
    "?same d (fst (db_GetCode (en_db ?E) a d))" "?same d (fst (db_GetCodeSize (en_db ?E) a d))"
    "?same d (fst (db_GetState (en_db ?E) a k d))" "?same d (fst (db_HasSuicided (en_db ?E) a d))"
    "?same d (fst (db_Exist (en_db ?E) a d))" "?same d (fst (db_Empty (en_db ?E) a d))"
    "?same d (fst (en_CanTransfer ?E a v d))"
    using keeps_getters [of "{}" sha kv pfx M d] by (simp_all add: env)
  fix code :: bytes and g :: uint64 and h :: hash and l :: log_entry
  note w = op_reach [of sha kv pfx M d]
  show "?reach d (db_CreateAccount (en_db ?E) a d)" "?reach d (db_AddBalance (en_db ?E) a v d)"
    "?reach d (db_SetNonce2 (en_db ?E) a n c d)" "?reach d (db_SetCode (en_db ?E) a code d)"
    "?reach d (db_AddRefund (en_db ?E) g d)" "?reach d (db_SetState (en_db ?E) a k h d)"
    "?reach d (db_Suicide (en_db ?E) a d)" "?reach d (db_AddLog (en_db ?E) l d)"
    using w [of "OpCreateAccount a"] w [of "OpAddBalance a v"] w [of "OpSetNonce2 a n c"] w [of "OpSetCode a (Some code)"]
      w [of "OpAddRefund g"] w [of "OpSetData a k h"] w [of "OpSuicide a"] w [of "OpAddLog l"]
    by (simp_all add: env)
  show "?reach d (en_Transfer ?E a b v d)"
    using w [of "OpSubBalance a v"] reach_trans [OF w [of "OpSubBalance a v"] op_reach [of _ _ _ _ _ "OpAddBalance b v"]]
    by (simp add: env Let_def)
  show "?quiet d (en_Transfer ?E a b 0 d)"
    using idle_keeps keeps_trans [OF idle_keeps(2) idle_keeps(1)] by (simp add: env Let_def)
  show "en_precompiles ?E a \<noteq> None \<Longrightarrow> ?quiet d (db_CreateAccount (en_db ?E) a d)"
    using create_keeps [of a] by (simp add: env dom_def)
  show "?reach d d' \<Longrightarrow> db_RevertToSnapshot (en_db ?E) (db_Snapshot (en_db ?E) d) d' = Some d'' \<Longrightarrow> ?same d d''"
    using revert_keeps [of sha kv pfx M d d' d''] by (simp add: env split: sum.splits)
  show "en_IsByzantium ?E" "en_IsEIP158 ?E" "\<not> en_IsConstantinople ?E" by (simp_all add: defaultEnv_def)
qed


lemma keeps_observe:
  assumes g: "good sha kv pfx M s" and k: "db_keeps A sha kv pfx M s s'" and a: "a \<notin> A"
  shows "observe (mpt_ops sha) sha a key s' = observe (mpt_ops sha) sha a key s"
proof -
  have "good sha kv pfx M s'" using path_good(1) [OF g] k g by (simp add: db_keeps_def db_reach_def)
  then show ?thesis
    using g k a mpt.observe_view [of sha kv pfx s M sha a key] mpt.observe_view [of sha kv pfx s' M sha a key]
    by (simp add: good_def db_keeps_def)
qed

text \<open>
  C19: A failed call is undone. From any database the chain can reach, when a call, a call of
  foreign code, a delegate call or a static call returns an error, with whatever code ran and whatever
  nested calls succeeded or failed inside, the balance, nonce, storage, code, code hash, existence, suicide
  mark and emptiness of every account and the refund counter are reported as before the call. These
  are the journaled parts of the state; logs and transaction counts are not journaled and not
  covered. (A panic is not a returned error.)
\<close>

theorem failed_call_restores:
  fixes ev :: "trie statedb evm"
  assumes "mpt_models sha kv pfx t M" and "state_ok sha M Map.empty"
    and "sdb_path (mpt_ops sha) sha 0 (NewStatedbWithTrie t) (ev_StateDB ev)"
    and "E = defaultEnv shards (mpt_ops sha) sha getHash origin coinbase height time difficulty K"
    and "\<not> ev_readOnly ev"
    and "(ev', ret, left, Some e) \<in>
      {evm_Call (interp rounds E) E ev caller addr input gas val, evm_CallCode (interp rounds E) E ev caller addr input gas val,
       evm_DelegateCall (interp rounds E) E ev parent addr input gas, evm_StaticCall (interp rounds E) E ev caller addr input gas}"
    and "\<not> fatal e"
  shows "observe (mpt_ops sha) sha a k (ev_StateDB ev') = observe (mpt_ops sha) sha a k (ev_StateDB ev)"
proof -
  have g: "good sha kv pfx M (ev_StateDB ev)" using path_state [OF assms(1-3)] by (simp add: good_def)
  have "chain.sound_call sha kv pfx M K ev (ev', ret, left, Some e)"
    using assms(6) unfolding assms(4) by (elim insertE emptyE; simp only:)
      (rule chain.execution(1), use assms(5) in simp, simp_all add: chain.execution(2-4))
  then have "db_keeps {} sha kv pfx M (ev_StateDB ev) (ev_StateDB ev')"
    using assms(7) by (simp add: chain.sound_call_def)
  then show ?thesis using keeps_observe [OF g] by simp
qed

text \<open>
  C20: A static call changes nothing. Whatever code it runs, and whether it succeeds or not, the balance,
  nonce, storage, code, code hash, existence, suicide mark and emptiness of every account and the refund
  counter are reported as before the call, except for the accounts of precompiled contracts, which a
  call inside may create (empty).
\<close>

theorem static_call_frame:
  fixes ev :: "trie statedb evm"
  assumes "mpt_models sha kv pfx t M" and "state_ok sha M Map.empty"
    and "sdb_path (mpt_ops sha) sha 0 (NewStatedbWithTrie t) (ev_StateDB ev)"
    and "E = defaultEnv shards (mpt_ops sha) sha getHash origin coinbase height time difficulty K"
    and "evm_StaticCall (interp rounds E) E ev caller addr input gas = (ev', ret, left, err)"
    and "PrecompiledContractsByzantium K a = None"
  shows "observe (mpt_ops sha) sha a k (ev_StateDB ev') = observe (mpt_ops sha) sha a k (ev_StateDB ev)"
proof -
  have g: "good sha kv pfx M (ev_StateDB ev)" using path_state [OF assms(1-3)] by (simp add: good_def)
  have "db_keeps (dom (PrecompiledContractsByzantium K)) sha kv pfx M (ev_StateDB ev) (ev_StateDB ev')"
    using chain.execution(5) [where ev = ev] assms(5) unfolding assms(4) by (metis fst_conv)
  then show ?thesis using keeps_observe [OF g] assms(6) by (simp add: domIff)
qed


section \<open>Examples\<close>

text \<open>
  A contract whose code is an invalid instruction, called with value 7, and one that stores a value, called
  statically.
\<close>

definition contract_db :: "bytes \<Rightarrow> trie statedb" where
  "contract_db code = fold (sdb_exec (mpt_ops sample_hash) sample_hash)
     [OpCreateAccount [1], OpSetBalance [1] 100, OpCreateAccount [9], OpSetCode [9] (Some code)]
     (NewStatedbWithTrie (NewEmptyTrie TrieDbPrefix Map.empty))"

lemma contract_path:
  "sdb_path (mpt_ops sample_hash) sample_hash 0 (NewStatedbWithTrie (NewEmptyTrie TrieDbPrefix Map.empty)) (contract_db code)"
  unfolding contract_db_def by (rule path_fold)

lemma invalid_opcode: "map_of (JumpTable sample_env C) 0xFE = None"
proof -
  have "list_all (\<lambda>b. b \<noteq> 0xFE) (map fst (JumpTable sample_env C))"
    unfolding JumpTable_def sample_env_def defaultEnv_def newByzantiumInstructionSet_def newHomesteadInstructionSet_def
      newFrontierInstructionSet_def frontier_arith_def frontier_compare_def frontier_env_def frontier_block_def
      frontier_mem_def frontier_push_def frontier_dup_def frontier_swap_def frontier_log_def frontier_call_def
    by (simp add: comp_def del: upt_Suc) code_simp
  then show ?thesis by (auto simp: map_of_eq_None_iff list_all_iff)
qed

lemma invalid_run:
  assumes "ct_Code c = [0xFE]"
  shows "Run (interp (Suc n) sample_env) ev c input False = (ev\<lparr>ev_returnData := []\<rparr>, c\<lparr>ct_Input := input\<rparr>, [], Some (ErrInvalidOpcode 0xFE))"
  using assms by (simp add: Run_def Let_def run_step_def GetOp_def invalid_opcode)


lemma sample_calls:
  "\<exists>ev'. evm_Call (interp (Suc n) sample_env) sample_env (NewEVM (contract_db [0xFE])) [1] [9] [] 40 7
    = (ev', [], 0, Some (ErrInvalidOpcode 0xFE))"
proof -
  let ?T = "mpt_ops sample_hash" and ?h = sample_hash and ?d = "contract_db [0xFE]"
  define d0 where "d0 = fst (GetBalance ?T ?h [1] ?d)"
  define d1 where "d1 = fst (Exist ?T ?h [9] d0)"
  define d2 where "d2 = transferFunc 4 ?T ?h [1] [9] 7 d1"
  define d3 where "d3 = fst (GetCodeHash ?T ?h [9] d2)"
  define d4 where "d4 = fst (GetCode ?T ?h [9] d3)"
  note ds = d0_def d1_def d2_def d3_def d4_def
  have "snd (GetBalance ?T ?h [1] ?d) = 100" by code_simp
  then have b: "GetBalance ?T ?h [1] ?d = (d0, 100)" by (metis d0_def prod.collapse)
  have "snd (Exist ?T ?h [9] d0)" unfolding ds by code_simp
  then have e: "Exist ?T ?h [9] d0 = (d1, True)" by (metis d1_def prod.collapse)
  have "snd (GetCode ?T ?h [9] d3) = Some [0xFE]" unfolding ds by code_simp
  then have c: "GetCode ?T ?h [9] d3 = (d4, Some [0xFE])" by (metis d4_def prod.collapse)
  obtain hc where h: "GetCodeHash ?T ?h [9] d2 = (d3, hc)" by (metis d3_def prod.collapse)
  have "\<not> isl (RevertToSnapshot ?T ?h (Snapshot d0) d4)" unfolding ds by code_simp
  then obtain d5 where r: "RevertToSnapshot ?T ?h (Snapshot d0) d4 = Inr d5" by (metis isl_def sum.exhaust)
  have env: "en_NoRecursion sample_env = False" "en_CanTransfer sample_env = canTransferFunc ?T ?h"
    "en_Transfer sample_env = transferFunc 4 ?T ?h" "en_db sample_env = evm_db ?T ?h"
    "en_precompiles sample_env [9] = None"
    by (simp_all add: sample_env_def defaultEnv_def PrecompiledContractsByzantium_def BytesToAddress_def)
  have w: "with_code sample_env ev [9] c = (ev\<lparr>ev_StateDB := d4\<rparr>, SetCallCode [9] hc [0xFE] c)" if "ev_StateDB ev = d2" for ev c
    using that h \<open>GetCode ?T ?h [9] d3 = _\<close> by (simp add: with_code_def env evm_db_def opt_bytes_def)
  have "run (interp (Suc n) sample_env) sample_env ev (SetCallCode [9] hc [0xFE] c) [] False
      = (ev\<lparr>ev_returnData := []\<rparr>, SetCallCode [9] hc [0xFE] c\<lparr>ct_Input := []\<rparr>, [], Some (ErrInvalidOpcode 0xFE))" for ev :: "trie statedb evm" and c
    using invalid_run [of "SetCallCode [9] hc [0xFE] c"] by (simp add: run_def SetCallCode_def env)
  then show ?thesis
    using b e r w
    by (simp add: evm_Call_def env canTransferFunc_def NewEVM_def Let_def evm_db_def d2_def [symmetric] settle_def fatal_def CallCreateDepth_def
        del: interp.simps)
qed

theorem failed_call_restores_witness:
  "\<exists>ev'. evm_Call (interp 50 sample_env) sample_env (NewEVM (contract_db [0xFE])) [1] [9] [] 40 7
       = (ev', [], 0, Some (ErrInvalidOpcode 0xFE))
     \<and> observe (mpt_ops sample_hash) sample_hash [1] [2] (ev_StateDB ev')
       = observe (mpt_ops sample_hash) sample_hash [1] [2] (contract_db [0xFE])
     \<and> fst (observe (mpt_ops sample_hash) sample_hash [1] [2] (ev_StateDB ev')) = 100"
proof -
  obtain ev' where r: "evm_Call (interp 50 sample_env) sample_env (NewEVM (contract_db [0xFE])) [1] [9] [] 40 7
      = (ev', [], 0, Some (ErrInvalidOpcode 0xFE))" using sample_calls [of 49] by auto
  have "observe (mpt_ops sample_hash) sample_hash [1] [2] (ev_StateDB ev')
      = observe (mpt_ops sample_hash) sample_hash [1] [2] (contract_db [0xFE])"
    using failed_call_restores [OF sample_empty _ sample_env_def, where ev = "NewEVM (contract_db [0xFE])" and ev' = ev'
        and e = "ErrInvalidOpcode 0xFE" and rounds = 50 and caller = "[1]" and addr = "[9]" and input = "[]" and gas = 40
        and val = 7 and a = "[1]" and k = "[2]" and ret = "[]" and left = 0] contract_path r
    by (simp add: NewEVM_def fatal_def)
  moreover have "fst (observe (mpt_ops sample_hash) sample_hash [1] [2] (contract_db [0xFE])) = 100" by code_simp
  ultimately show ?thesis using r by auto
qed

theorem static_call_frame_witness:
  "observe (mpt_ops sample_hash) sample_hash [9] [2]
      (ev_StateDB (fst (evm_StaticCall (interp 50 sample_env) sample_env
        (NewEVM (contract_db [0x60, 1, 0x60, 2, 0x55])) [1] [9] [] 40)))
   = observe (mpt_ops sample_hash) sample_hash [9] [2] (contract_db [0x60, 1, 0x60, 2, 0x55])"
proof -
  obtain ev' ret left err where r: "evm_StaticCall (interp 50 sample_env) sample_env
      (NewEVM (contract_db [0x60, 1, 0x60, 2, 0x55])) [1] [9] [] 40 = (ev', ret, left, err)" by (metis prod_cases4)
  have "PrecompiledContractsByzantium sample_crypto [9] = None" by (simp add: PrecompiledContractsByzantium_def BytesToAddress_def)
  then show ?thesis
    using static_call_frame [OF sample_empty _ sample_env_def r] contract_path unfolding r by (simp add: NewEVM_def)
qed

end
