(* ===== verification/Types.thy ===== *)
theory Types
  imports Evm_Run
begin

text \<open>
  Transactions, debts, receipts and blocks (\<open>src/core/types\<close>). A nil \<open>big.Int\<close> is \<open>None\<close>. Values that
  \<open>SerializePanic\<close> cannot encode (a negative integer) give \<open>None\<close>, a panic. The number of shards, the
  shard of this node, the hash function and signature recovery are arguments.
\<close>

section \<open>Transactions\<close>

datatype TxType = TxTypeRegular | TxTypeReward

record TransactionData =
  td_Type :: TxType
  td_From :: address
  td_To :: address
  td_Amount :: "int option"
  td_AccountNonce :: uint64
  td_GasPrice :: "int option"
  td_GasLimit :: uint64
  td_Timestamp :: uint64
  td_Payload :: bytes

record Transaction =
  tx_Hash :: hash
  tx_Data :: TransactionData
  tx_Signature :: bytes

datatype tx_error =
    ErrAmountNegative | ErrAmountNil | ErrPriceNegative | ErrPriceNil | ErrIntrinsicGas | ErrHashMismatch
  | ErrPayloadOversized | ErrPayloadEmpty | ErrSigInvalid | ErrSigMissing | ErrFromShard nat
  | ErrBalance address int int int int | ErrNonce address uint64 uint64 | TxPanic

definition TransactionPreSize :: nat where "TransactionPreSize = 177"
definition MaxPayloadSize :: nat where "MaxPayloadSize = 32 * 1024"
definition TxGas :: uint64 where "TxGas = 21000"
definition TxDataNonZeroGas :: uint64 where "TxDataNonZeroGas = 68"
definition TxDataZeroGas :: uint64 where "TxDataZeroGas = 4"

definition ethIntrinsicGas :: "bytes \<Rightarrow> uint64" where
  "ethIntrinsicGas data =
     (if data = [] then TxGas
      else let nz = word_of_nat (length (filter (\<lambda>b. b \<noteq> 0) data)); z = word_of_nat (length data) - nz
           in TxGas + nz * TxDataNonZeroGas + z * TxDataZeroGas)"

definition TransferAmountIntrinsicGas :: uint64 where "TransferAmountIntrinsicGas = ethIntrinsicGas []"
definition CrossShardTransactionGas :: uint64 where "CrossShardTransactionGas = TransferAmountIntrinsicGas"
definition DebtGas :: uint64 where "DebtGas = 2 * TransferAmountIntrinsicGas"
definition CrossShardTotalGas :: uint64 where "CrossShardTotalGas = CrossShardTransactionGas + DebtGas"

definition IsCrossShardTx :: "nat \<Rightarrow> Transaction \<Rightarrow> bool" where
  "IsCrossShardTx ShardCount tx \<longleftrightarrow>
     \<not> Address_IsEmpty (td_From (tx_Data tx)) \<and> \<not> Address_IsEmpty (td_To (tx_Data tx)) \<and> \<not> IsReserved (td_To (tx_Data tx))
     \<and> Shard ShardCount (td_From (tx_Data tx)) \<noteq> Shard ShardCount (td_To (tx_Data tx))"

definition tx_Size :: "Transaction \<Rightarrow> nat" where
  "tx_Size tx = TransactionPreSize + length (td_Payload (tx_Data tx))"

definition GetTransactionsSize :: "Transaction list \<Rightarrow> nat" where
  "GetTransactionsSize txs = fold (\<lambda>tx n. n + tx_Size tx) txs 0"

definition IntrinsicGas :: "nat \<Rightarrow> Transaction \<Rightarrow> uint64" where
  "IntrinsicGas ShardCount tx =
     (let gas = ethIntrinsicGas (td_Payload (tx_Data tx)) in if IsCrossShardTx ShardCount tx then gas * 2 else gas)"

text \<open>Encoding: the struct as a list of its fields.\<close>

definition big_item :: "int option \<Rightarrow> rlp_item option" where
  "big_item v = (case v of None \<Rightarrow> Some (RlpBytes [])
     | Some n \<Rightarrow> if n < 0 then None else Some (RlpBytes (big_bytes (nat n))))"

definition TxType_byte :: "TxType \<Rightarrow> nat" where
  "TxType_byte t = (case t of TxTypeRegular \<Rightarrow> 0 | TxTypeReward \<Rightarrow> 1)"

definition TransactionData_item :: "TransactionData \<Rightarrow> rlp_item option" where
  "TransactionData_item d =
     (case (big_item (td_Amount d), big_item (td_GasPrice d)) of
        (Some amount, Some price) \<Rightarrow>
          Some (RlpList [RlpUint (TxType_byte (td_Type d)), RlpBytes (td_From d), RlpBytes (td_To d), amount,
            RlpUint (unat (td_AccountNonce d)), price, RlpUint (unat (td_GasLimit d)), RlpUint (unat (td_Timestamp d)),
            RlpBytes (td_Payload d)])
      | _ \<Rightarrow> None)"

definition Transaction_item :: "Transaction \<Rightarrow> rlp_item option" where
  "Transaction_item tx =
     map_option (\<lambda>d. RlpList [RlpBytes (tx_Hash tx), d, RlpList [RlpBytes (tx_Signature tx)]]) (TransactionData_item (tx_Data tx))"

definition item_hash :: "(bytes \<Rightarrow> bytes) \<Rightarrow> rlp_item option \<Rightarrow> hash option" where
  "item_hash sha i = map_option (\<lambda>x. HashBytes sha (rlp_Encode x)) i"

definition CalculateHash :: "(bytes \<Rightarrow> bytes) \<Rightarrow> Transaction \<Rightarrow> hash option" where
  "CalculateHash sha tx = item_hash sha (TransactionData_item (tx_Data tx))"

text \<open>\<open>Signature.Verify\<close> of \<open>src/crypto/signature.go\<close>; \<open>vs\<close> is the check of a signature against a public key.\<close>

definition Signature_Verify ::
  "crypto_ops \<Rightarrow> (bytes \<Rightarrow> bytes \<Rightarrow> bytes \<Rightarrow> bool) \<Rightarrow> bytes \<Rightarrow> address \<Rightarrow> bytes \<Rightarrow> bool" where
  "Signature_Verify K vs sig signer h =
     (if length sig \<noteq> 65 then False
      else case cr_RecoverPubkey K h sig of
             None \<Rightarrow> False
           | Some pub \<Rightarrow> PubKeyToAddress (cr_keccak K) pub = signer \<and> vs pub h (take 64 sig))"

text \<open>The cache of verified signatures maps the hash followed by the signature to the error, if any.\<close>

type_synonym sig_cache = "bytes \<rightharpoonup> tx_error option"

definition verifySignature ::
  "(bytes \<Rightarrow> bytes) \<Rightarrow> crypto_ops \<Rightarrow> (bytes \<Rightarrow> bytes \<Rightarrow> bytes \<Rightarrow> bool) \<Rightarrow> sig_cache \<Rightarrow> Transaction \<Rightarrow> sig_cache \<times> tx_error option" where
  "verifySignature sha K vs cache tx =
     (if tx_Signature tx = [] then (cache, Some ErrSigMissing)
      else case CalculateHash sha tx of
             None \<Rightarrow> (cache, Some TxPanic)
           | Some h \<Rightarrow>
               if h \<noteq> tx_Hash tx then (cache, Some ErrHashMismatch)
               else let key = tx_Hash tx @ tx_Signature tx
                    in case cache key of
                         Some v \<Rightarrow> (cache, v)
                       | None \<Rightarrow>
                           (let err = (if \<not> Signature_Verify K vs (tx_Signature tx) (td_From (tx_Data tx)) (tx_Hash tx)
                                       then Some ErrSigInvalid else None)
                            in (cache(key \<mapsto> err), err)))"

definition IsShardEnabled :: "nat \<Rightarrow> nat \<Rightarrow> bool" where
  "IsShardEnabled ShardCount LocalShardNumber \<longleftrightarrow> 0 < LocalShardNumber \<and> LocalShardNumber \<le> ShardCount"

text \<open>The address checks \<open>Validate\<close> never fail.\<close>

definition ValidateWithoutState ::
  "nat \<Rightarrow> nat \<Rightarrow> (bytes \<Rightarrow> bytes) \<Rightarrow> crypto_ops \<Rightarrow> (bytes \<Rightarrow> bytes \<Rightarrow> bytes \<Rightarrow> bool) \<Rightarrow> sig_cache \<Rightarrow> Transaction \<Rightarrow> bool \<Rightarrow> bool \<Rightarrow>
     sig_cache \<times> tx_error option" where
  "ValidateWithoutState ShardCount Local sha K vs cache tx signNeeded shardNeeded =
     (let d = tx_Data tx
      in case td_Amount d of
           None \<Rightarrow> (cache, Some ErrAmountNil)
         | Some amount \<Rightarrow>
             if amount < 0 then (cache, Some ErrAmountNegative)
             else case td_GasPrice d of
               None \<Rightarrow> (cache, Some ErrPriceNil)
             | Some price \<Rightarrow>
                 if price \<le> 0 then (cache, Some ErrPriceNegative)
                 else if length (td_Payload d) > MaxPayloadSize then (cache, Some ErrPayloadOversized)
                 else if td_GasLimit d < IntrinsicGas ShardCount tx then (cache, Some ErrIntrinsicGas)
                 else if (Address_IsEmpty (td_To d) \<or> Address_Type (td_To d) \<noteq> AddressTypeExternal) \<and> td_Payload d = []
                 then (cache, Some ErrPayloadEmpty)
                 else if shardNeeded \<and> IsShardEnabled ShardCount Local \<and> Shard ShardCount (td_From d) \<noteq> Local
                 then (cache, Some (ErrFromShard (Shard ShardCount (td_From d))))
                 else if signNeeded then verifySignature sha K vs cache tx
                 else (cache, None))"

text \<open>
  \<open>ValidateState\<close> reads the balance and the nonce of the sender; both branches on the height are the
  same test. A nil amount or price would panic.
\<close>

definition ValidateState :: "('s \<Rightarrow> 's \<times> int) \<Rightarrow> ('s \<Rightarrow> 's \<times> uint64) \<Rightarrow> Transaction \<Rightarrow> 's \<Rightarrow> 's \<times> tx_error option" where
  "ValidateState GetBal GetNon tx s =
     (let d = tx_Data tx
      in case (td_GasPrice d, td_Amount d) of
           (Some price, Some amount) \<Rightarrow>
             (let fee = price * uint (td_GasLimit d); cost = amount + fee
              in case GetBal s of
                   (s1, balance) \<Rightarrow>
                     if cost > balance then (s1, Some (ErrBalance (td_From d) balance amount fee cost))
                     else case GetNon s1 of
                            (s2, accountNonce) \<Rightarrow>
                              if td_AccountNonce d < accountNonce
                              then (s2, Some (ErrNonce (td_From d) (td_AccountNonce d) accountNonce))
                              else (s2, None))
         | _ \<Rightarrow> (s, Some TxPanic))"

definition newTx ::
  "nat \<Rightarrow> nat \<Rightarrow> (bytes \<Rightarrow> bytes) \<Rightarrow> crypto_ops \<Rightarrow> (bytes \<Rightarrow> bytes \<Rightarrow> bytes \<Rightarrow> bool) \<Rightarrow> address \<Rightarrow> address \<Rightarrow> int option \<Rightarrow> int option \<Rightarrow>
     uint64 \<Rightarrow> uint64 \<Rightarrow> bytes \<Rightarrow> tx_error + Transaction" where
  "newTx ShardCount Local sha K vs from to amount price gasLimit nonce payload =
     (let d = \<lparr>td_Type = TxTypeRegular, td_From = from, td_To = to, td_Amount = amount, td_AccountNonce = nonce,
               td_GasPrice = price, td_GasLimit = gasLimit, td_Timestamp = 0, td_Payload = payload\<rparr>;
          tx = \<lparr>tx_Hash = EmptyHash, tx_Data = d, tx_Signature = []\<rparr>
      in case snd (ValidateWithoutState ShardCount Local sha K vs Map.empty tx False False) of
           Some e \<Rightarrow> Inl e
         | None \<Rightarrow> (case CalculateHash sha tx of None \<Rightarrow> Inl TxPanic | Some h \<Rightarrow> Inr (tx\<lparr>tx_Hash := h\<rparr>)))"

definition NewTransaction ::
  "nat \<Rightarrow> nat \<Rightarrow> (bytes \<Rightarrow> bytes) \<Rightarrow> crypto_ops \<Rightarrow> (bytes \<Rightarrow> bytes \<Rightarrow> bytes \<Rightarrow> bool) \<Rightarrow> address \<Rightarrow> address \<Rightarrow> int option \<Rightarrow> int option \<Rightarrow>
     uint64 \<Rightarrow> tx_error + Transaction" where
  "NewTransaction ShardCount Local sha K vs from to amount price nonce =
     newTx ShardCount Local sha K vs from to amount price
       (if \<not> Address_IsEmpty from \<and> \<not> Address_IsEmpty to \<and> Shard ShardCount from \<noteq> Shard ShardCount to
        then CrossShardTotalGas else TransferAmountIntrinsicGas) nonce []"

definition NewContractTransaction ::
  "nat \<Rightarrow> nat \<Rightarrow> (bytes \<Rightarrow> bytes) \<Rightarrow> crypto_ops \<Rightarrow> (bytes \<Rightarrow> bytes \<Rightarrow> bytes \<Rightarrow> bool) \<Rightarrow> address \<Rightarrow> int option \<Rightarrow> int option \<Rightarrow> uint64 \<Rightarrow>
     uint64 \<Rightarrow> bytes \<Rightarrow> tx_error + Transaction" where
  "NewContractTransaction ShardCount Local sha K vs from amount price gasLimit nonce code =
     newTx ShardCount Local sha K vs from EmptyAddress amount price gasLimit nonce code"

definition NewMessageTransaction ::
  "nat \<Rightarrow> nat \<Rightarrow> (bytes \<Rightarrow> bytes) \<Rightarrow> crypto_ops \<Rightarrow> (bytes \<Rightarrow> bytes \<Rightarrow> bytes \<Rightarrow> bool) \<Rightarrow> address \<Rightarrow> address \<Rightarrow> int option \<Rightarrow> int option \<Rightarrow>
     uint64 \<Rightarrow> uint64 \<Rightarrow> bytes \<Rightarrow> tx_error + Transaction" where
  "NewMessageTransaction ShardCount Local sha K vs from to amount price gasLimit nonce msg =
     newTx ShardCount Local sha K vs from to amount price gasLimit nonce msg"

text \<open>The loop of \<open>BatchValidate\<close>; with several threads any of the errors may be the one returned.\<close>

primrec BatchValidate :: "('a \<Rightarrow> 'e option) \<Rightarrow> 'a list \<Rightarrow> 'e option" where
  "BatchValidate handler [] = None"
| "BatchValidate handler (x # xs) = (case handler x of Some e \<Rightarrow> Some e | None \<Rightarrow> BatchValidate handler xs)"

section \<open>Debts\<close>

record DebtData =
  dd_TxHash :: hash
  dd_From :: address
  dd_Nonce :: uint64
  dd_Account :: address
  dd_Amount :: "int option"
  dd_Price :: "int option"
  dd_Code :: bytes

record Debt =
  de_Hash :: hash
  de_Data :: DebtData

datatype debt_error =
    ErrWrongShardNumber | ErrInvalidAccount nat nat | ErrInvalidDebtHash | ErrInvalidFee | ErrVerifierFailed | DebtPanic

definition DebtSize :: nat where "DebtSize = 118"

definition DebtData_item :: "DebtData \<Rightarrow> rlp_item option" where
  "DebtData_item d =
     (case (big_item (dd_Amount d), big_item (dd_Price d)) of
        (Some amount, Some price) \<Rightarrow>
          Some (RlpList [RlpBytes (dd_TxHash d), RlpBytes (dd_From d), RlpUint (unat (dd_Nonce d)), RlpBytes (dd_Account d),
            amount, price, RlpBytes (dd_Code d)])
      | _ \<Rightarrow> None)"

definition Debt_item :: "Debt \<Rightarrow> rlp_item option" where
  "Debt_item d = map_option (\<lambda>x. RlpList [RlpBytes (de_Hash d), x]) (DebtData_item (de_Data d))"

definition DebtData_Hash :: "(bytes \<Rightarrow> bytes) \<Rightarrow> DebtData \<Rightarrow> hash option" where
  "DebtData_Hash sha d = item_hash sha (DebtData_item d)"

definition debt_Size :: "Debt \<Rightarrow> nat" where "debt_Size d = DebtSize + length (dd_Code (de_Data d))"

definition GetDebtsSize :: "Debt list \<Rightarrow> nat" where "GetDebtsSize ds = fold (\<lambda>d n. n + debt_Size d) ds 0"

text \<open>A nil price panics.\<close>

definition debt_Fee :: "Debt \<Rightarrow> int option" where
  "debt_Fee d = map_option (\<lambda>p. p * uint DebtGas) (dd_Price (de_Data d))"

text \<open>The verifier answers whether the debt is packed and confirmed, and gives an error or none.\<close>

type_synonym DebtVerifier = "Debt \<Rightarrow> bool \<times> bool \<times> bool"

definition Debt_Validate ::
  "nat \<Rightarrow> (bytes \<Rightarrow> bytes) \<Rightarrow> DebtVerifier option \<Rightarrow> bool \<Rightarrow> nat \<Rightarrow> Debt \<Rightarrow> bool \<times> debt_error option" where
  "Debt_Validate ShardCount sha verifier isPool targetShard d =
     (let toShard = Shard ShardCount (dd_Account (de_Data d))
      in if Shard ShardCount (dd_From (de_Data d)) = targetShard then (False, Some ErrWrongShardNumber)
         else if targetShard \<noteq> 0 \<and> toShard \<noteq> targetShard then (False, Some (ErrInvalidAccount toShard targetShard))
         else case DebtData_Hash sha (de_Data d) of
                None \<Rightarrow> (False, Some DebtPanic)
              | Some h \<Rightarrow>
                  if de_Hash d \<noteq> h then (False, Some ErrInvalidDebtHash)
                  else if (case dd_Price (de_Data d) of None \<Rightarrow> True | Some p \<Rightarrow> p \<le> 0) then (False, Some ErrInvalidFee)
                  else case verifier of
                         None \<Rightarrow> (False, None)
                       | Some v \<Rightarrow>
                           (case v d of
                              (packed, confirmed, err) \<Rightarrow>
                                if confirmed then (packed, None)
                                else if (isPool \<and> \<not> packed) \<or> \<not> isPool then (packed, Some ErrVerifierFailed)
                                else (packed, None)))"

definition newDebt :: "nat \<Rightarrow> nat \<Rightarrow> (bytes \<Rightarrow> bytes) \<Rightarrow> Transaction \<Rightarrow> bool \<Rightarrow> Debt option" where
  "newDebt ShardCount Local sha tx withContext =
     (let d = tx_Data tx; toShard = Shard ShardCount (td_To d)
      in if Address_IsEmpty (td_To d) \<or> IsReserved (td_To d) then None
         else if td_From d = EmptyAddress then None
         else if withContext \<and> toShard = Local then None
         else if \<not> withContext \<and> Shard ShardCount (td_From d) = toShard then None
         else let data = \<lparr>dd_TxHash = tx_Hash tx, dd_From = td_From d, dd_Nonce = td_AccountNonce d, dd_Account = td_To d,
                dd_Amount = td_Amount d, dd_Price = td_GasPrice d,
                dd_Code = (if IsEVMContract (td_To d) then td_Payload d else [])\<rparr>
              in map_option (\<lambda>h. \<lparr>de_Hash = h, de_Data = data\<rparr>) (DebtData_Hash sha data))"

definition NewDebtWithContext :: "nat \<Rightarrow> nat \<Rightarrow> (bytes \<Rightarrow> bytes) \<Rightarrow> Transaction \<Rightarrow> Debt option" where
  "NewDebtWithContext ShardCount Local sha tx = newDebt ShardCount Local sha tx True"

definition NewDebtWithoutContext :: "nat \<Rightarrow> nat \<Rightarrow> (bytes \<Rightarrow> bytes) \<Rightarrow> Transaction \<Rightarrow> Debt option" where
  "NewDebtWithoutContext ShardCount Local sha tx = newDebt ShardCount Local sha tx False"

definition NewDebts :: "nat \<Rightarrow> nat \<Rightarrow> (bytes \<Rightarrow> bytes) \<Rightarrow> Transaction list \<Rightarrow> Debt list" where
  "NewDebts ShardCount Local sha txs = List.map_filter (NewDebtWithContext ShardCount Local sha) txs"

text \<open>Debts by shard: a list with an entry for every shard number.\<close>

definition DebtArrayToMap :: "nat \<Rightarrow> Debt list \<Rightarrow> Debt list list" where
  "DebtArrayToMap ShardCount ds =
     fold (\<lambda>d m. let s = Shard ShardCount (dd_Account (de_Data d)) in m[s := m ! s @ [d]]) ds (replicate (ShardCount + 1) [])"

definition NewDebtMap :: "nat \<Rightarrow> nat \<Rightarrow> (bytes \<Rightarrow> bytes) \<Rightarrow> Transaction list \<Rightarrow> Debt list list" where
  "NewDebtMap ShardCount Local sha txs =
     fold (\<lambda>tx m. case NewDebtWithContext ShardCount Local sha tx of
                   None \<Rightarrow> m
                 | Some d \<Rightarrow> (let s = Shard ShardCount (dd_Account (de_Data d)) in m[s := m ! s @ [d]]))
       txs (replicate (ShardCount + 1) [])"

section \<open>Receipts\<close>

record Receipt =
  rc_Result :: bytes
  rc_Failed :: bool
  rc_UsedGas :: uint64
  rc_PostState :: hash
  rc_Logs :: "log_entry list"
  rc_TxHash :: hash
  rc_ContractAddress :: bytes
  rc_TotalFee :: uint64

definition Log_item :: "log_entry \<Rightarrow> rlp_item" where
  "Log_item l = RlpList [RlpBytes (lg_Address l), RlpList (map RlpBytes (lg_Topics l)), RlpBytes (lg_Data l),
     RlpUint (unat (lg_BlockNumber l)), RlpUint (unat (lg_TxIndex l))]"

definition Receipt_item :: "Receipt \<Rightarrow> rlp_item" where
  "Receipt_item r = RlpList [RlpBytes (rc_Result r), RlpBool (rc_Failed r), RlpUint (unat (rc_UsedGas r)),
     RlpBytes (rc_PostState r), RlpList (map Log_item (rc_Logs r)), RlpBytes (rc_TxHash r), RlpBytes (rc_ContractAddress r),
     RlpUint (unat (rc_TotalFee r))]"

section \<open>Roots\<close>

text \<open>A trie with the given entries put in order; a put into a trie without database does not fail.\<close>

definition put_all :: "(bytes \<times> bytes) list \<Rightarrow> trie" where
  "put_all kvs = fold (\<lambda>(k, v) t. fst (trie_Put t k v)) kvs (NewEmptyTrie [] Map.empty)"

definition GetTxTrie :: "(bytes \<Rightarrow> bytes) \<Rightarrow> Transaction list \<Rightarrow> trie option" where
  "GetTxTrie sha txs =
     map_option put_all (those (map (\<lambda>tx.
       case (Transaction_item tx, if tx_Hash tx \<noteq> EmptyHash then Some (tx_Hash tx) else CalculateHash sha tx) of
         (Some i, Some h) \<Rightarrow> Some (h, rlp_Encode i) | _ \<Rightarrow> None) txs))"

definition MerkleRootHash :: "(bytes \<Rightarrow> bytes) \<Rightarrow> Transaction list \<Rightarrow> hash option" where
  "MerkleRootHash sha txs =
     (if txs = [] then Some EmptyHash else map_option (\<lambda>t. snd (trie_Hash sha t)) (GetTxTrie sha txs))"

definition GetDebtTrie :: "Debt list \<Rightarrow> trie option" where
  "GetDebtTrie ds = map_option put_all (those (map (\<lambda>d. map_option (\<lambda>i. (de_Hash d, rlp_Encode i)) (Debt_item d)) ds))"

definition DebtMerkleRootHash :: "(bytes \<Rightarrow> bytes) \<Rightarrow> Debt list \<Rightarrow> hash option" where
  "DebtMerkleRootHash sha ds = map_option (\<lambda>t. snd (trie_Hash sha t)) (GetDebtTrie ds)"

definition GetReceiptTrie :: "Receipt list \<Rightarrow> trie" where
  "GetReceiptTrie rs = put_all (map (\<lambda>r. (rc_TxHash r, rlp_Encode (Receipt_item r))) rs)"

definition emptyReceiptRootHash :: "(bytes \<Rightarrow> bytes) \<Rightarrow> hash" where
  "emptyReceiptRootHash sha = MustHash sha (map of_char ''empty receipt root hash'')"

definition ReceiptMerkleRootHash :: "(bytes \<Rightarrow> bytes) \<Rightarrow> Receipt list \<Rightarrow> hash" where
  "ReceiptMerkleRootHash sha rs = (if rs = [] then emptyReceiptRootHash sha else snd (trie_Hash sha (GetReceiptTrie rs)))"

section \<open>Headers\<close>

definition PowConsensus :: nat where "PowConsensus = 0"
definition IstanbulConsensus :: nat where "IstanbulConsensus = 2"
definition BftConsensus :: nat where "BftConsensus = 4"

record BlockHeader =
  bh_PreviousBlockHash :: hash
  bh_Creator :: address
  bh_StateHash :: hash
  bh_TxHash :: hash
  bh_ReceiptHash :: hash
  bh_TxDebtHash :: hash
  bh_DebtHash :: hash
  bh_Difficulty :: "int option"
  bh_Height :: uint64
  bh_CreateTimestamp :: "int option"
  bh_Witness :: bytes
  bh_SecondWitness :: bytes
  bh_Consensus :: nat
  bh_ExtraData :: bytes

text \<open>\<open>Clone\<close> turns a nil integer into zero.\<close>

definition header_Clone :: "BlockHeader \<Rightarrow> BlockHeader" where
  "header_Clone h = h\<lparr>bh_Difficulty := Some (case bh_Difficulty h of None \<Rightarrow> 0 | Some d \<Rightarrow> d),
     bh_CreateTimestamp := Some (case bh_CreateTimestamp h of None \<Rightarrow> 0 | Some c \<Rightarrow> c)\<rparr>"

definition header_item :: "BlockHeader \<Rightarrow> rlp_item option" where
  "header_item h =
     (case (big_item (bh_Difficulty h), big_item (bh_CreateTimestamp h)) of
        (Some difficulty, Some time) \<Rightarrow>
          Some (RlpList [RlpBytes (bh_PreviousBlockHash h), RlpBytes (bh_Creator h), RlpBytes (bh_StateHash h),
            RlpBytes (bh_TxHash h), RlpBytes (bh_ReceiptHash h), RlpBytes (bh_TxDebtHash h), RlpBytes (bh_DebtHash h),
            difficulty, RlpUint (unat (bh_Height h)), time, RlpBytes (bh_Witness h), RlpBytes (bh_SecondWitness h),
            RlpUint (bh_Consensus h), RlpBytes (bh_ExtraData h)])
      | _ \<Rightarrow> None)"

text \<open>The extra data of the Byzantine fault tolerant engines: the validators, the proposer's seal and the committed seals.\<close>

record BftExtra =
  ex_Verifiers :: "address list"
  ex_Seal :: bytes
  ex_CommittedSeal :: "bytes list"

definition BftExtraVanity :: nat where "BftExtraVanity = 32"

definition BftExtra_item :: "BftExtra \<Rightarrow> rlp_item" where
  "BftExtra_item e = RlpList [RlpList (map RlpBytes (ex_Verifiers e)), RlpBytes (ex_Seal e), RlpList (map RlpBytes (ex_CommittedSeal e))]"

text \<open>The values in the content of a list.\<close>

function rlp_items :: "bytes \<Rightarrow> (rlp_kind \<times> bytes) list option" where
  "rlp_items b =
     (if b = [] then Some []
      else case readKind b of
             Inl e \<Rightarrow> None
           | Inr (k, ts, cs) \<Rightarrow> map_option ((#) (k, take cs (drop ts b))) (rlp_items (drop (ts + cs) b)))"
  by pat_completeness auto
termination
  by (relation "measure length") (auto dest: readKind_progress)

declare rlp_items.simps [simp del]

definition string_items :: "bytes \<Rightarrow> bytes list option" where
  "string_items b =
     (case rlp_items b of
        None \<Rightarrow> None
      | Some its \<Rightarrow> if list_all (\<lambda>(k, c). k \<noteq> KList) its then Some (map snd its) else None)"

text \<open>The decoder of the struct: exactly three fields, addresses of twenty bytes, nothing after the list.\<close>

definition BftExtra_DecodeRLP :: "bytes \<Rightarrow> BftExtra option" where
  "BftExtra_DecodeRLP b =
     (case rlp_SplitList b of
        Inr (content, []) \<Rightarrow>
          (case rlp_items content of
             Some [(KList, vs), (k, seal), (KList, cs)] \<Rightarrow>
               if k = KList then None
               else (case (string_items vs, string_items cs) of
                       (Some vers, Some seals) \<Rightarrow>
                         if list_all (\<lambda>v. length v = AddressLen) vers
                         then Some \<lparr>ex_Verifiers = vers, ex_Seal = seal, ex_CommittedSeal = seals\<rparr> else None
                     | _ \<Rightarrow> None)
           | _ \<Rightarrow> None)
      | _ \<Rightarrow> None)"

definition ExtractBftExtra :: "BlockHeader \<Rightarrow> BftExtra option" where
  "ExtractBftExtra h =
     (if length (bh_ExtraData h) < BftExtraVanity then None else BftExtra_DecodeRLP (drop BftExtraVanity (bh_ExtraData h)))"

definition BftFilteredHeader :: "BlockHeader \<Rightarrow> bool \<Rightarrow> BlockHeader option" where
  "BftFilteredHeader h keepSeal =
     (let newHeader = header_Clone h
      in case ExtractBftExtra newHeader of
           None \<Rightarrow> None
         | Some e \<Rightarrow>
             (let e1 = (if keepSeal then e else e\<lparr>ex_Seal := []\<rparr>)\<lparr>ex_CommittedSeal := []\<rparr>
              in Some (newHeader\<lparr>bh_ExtraData := take BftExtraVanity (bh_ExtraData newHeader) @ rlp_Encode (BftExtra_item e1)\<rparr>)))"

text \<open>The Istanbul engine has the same code for its own struct.\<close>

definition ExtractIstanbulExtra :: "BlockHeader \<Rightarrow> BftExtra option" where "ExtractIstanbulExtra = ExtractBftExtra"
definition IstanbulFilteredHeader :: "BlockHeader \<Rightarrow> bool \<Rightarrow> BlockHeader option" where "IstanbulFilteredHeader = BftFilteredHeader"

definition header_Hash :: "(bytes \<Rightarrow> bytes) \<Rightarrow> BlockHeader \<Rightarrow> hash option" where
  "header_Hash sha h =
     (case (if bh_Consensus h = IstanbulConsensus then IstanbulFilteredHeader h True
            else if bh_Consensus h = BftConsensus then BftFilteredHeader h True else None) of
        Some h' \<Rightarrow> item_hash sha (header_item h')
      | None \<Rightarrow> item_hash sha (header_item h))"

section \<open>Blocks\<close>

record Block =
  bk_HeaderHash :: hash
  bk_Header :: BlockHeader
  bk_Transactions :: "Transaction list"
  bk_Debts :: "Debt list"

datatype block_error =
    ErrBlockHashMismatch | ErrBlockTxsHashMismatch | ErrBlockTxDebtHashMismatch | ErrBlockDebtHashMismatch | BlockPanic

definition NewBlock ::
  "nat \<Rightarrow> nat \<Rightarrow> (bytes \<Rightarrow> bytes) \<Rightarrow> BlockHeader \<Rightarrow> Transaction list \<Rightarrow> Receipt list \<Rightarrow> Debt list \<Rightarrow> Block option" where
  "NewBlock ShardCount Local sha header txs receipts debts =
     (case (MerkleRootHash sha txs, DebtMerkleRootHash sha debts, DebtMerkleRootHash sha (NewDebts ShardCount Local sha txs)) of
        (Some th, Some dh, Some tdh) \<Rightarrow>
          (let h = (header_Clone header)\<lparr>bh_TxHash := th, bh_ReceiptHash := ReceiptMerkleRootHash sha receipts,
                 bh_DebtHash := dh, bh_TxDebtHash := tdh\<rparr>
           in map_option (\<lambda>hh. \<lparr>bk_HeaderHash = hh, bk_Header = h, bk_Transactions = txs, bk_Debts = debts\<rparr>) (header_Hash sha h))
      | _ \<Rightarrow> None)"

definition GetExcludeRewardTransactions :: "Block \<Rightarrow> Transaction list" where
  "GetExcludeRewardTransactions b = tl (bk_Transactions b)"

text \<open>\<open>WithSeal\<close> drops the debts.\<close>

definition WithSeal :: "(bytes \<Rightarrow> bytes) \<Rightarrow> Block \<Rightarrow> BlockHeader \<Rightarrow> Block option" where
  "WithSeal sha b header =
     map_option (\<lambda>hh. \<lparr>bk_HeaderHash = hh, bk_Header = header_Clone header, bk_Transactions = bk_Transactions b, bk_Debts = []\<rparr>)
       (header_Hash sha header)"

definition FindTransaction :: "Block \<Rightarrow> hash \<Rightarrow> Transaction option" where
  "FindTransaction b h = find (\<lambda>tx. tx_Hash tx = h) (bk_Transactions b)"

definition GetShardNumber :: "nat \<Rightarrow> Block \<Rightarrow> nat" where
  "GetShardNumber ShardCount b = Shard ShardCount (bh_Creator (bk_Header b))"

definition Block_Validate :: "nat \<Rightarrow> nat \<Rightarrow> (bytes \<Rightarrow> bytes) \<Rightarrow> Block \<Rightarrow> block_error option" where
  "Block_Validate ShardCount Local sha b =
     (case header_Hash sha (bk_Header b) of
        None \<Rightarrow> Some BlockPanic
      | Some hh \<Rightarrow>
          if bk_HeaderHash b \<noteq> hh then Some ErrBlockHashMismatch
          else case MerkleRootHash sha (bk_Transactions b) of
            None \<Rightarrow> Some BlockPanic
          | Some th \<Rightarrow>
              if th \<noteq> bh_TxHash (bk_Header b) then Some ErrBlockTxsHashMismatch
              else case DebtMerkleRootHash sha (NewDebts ShardCount Local sha (bk_Transactions b)) of
                None \<Rightarrow> Some BlockPanic
              | Some tdh \<Rightarrow>
                  if tdh \<noteq> bh_TxDebtHash (bk_Header b) then Some ErrBlockTxDebtHashMismatch
                  else case DebtMerkleRootHash sha (bk_Debts b) of
                    None \<Rightarrow> Some BlockPanic
                  | Some dh \<Rightarrow> if dh \<noteq> bh_DebtHash (bk_Header b) then Some ErrBlockDebtHashMismatch else None)"

end
