(* ===== verification/Ledger.thy ===== *)
theory Ledger
  imports Evm_Host
begin

text \<open>
  The state database as a ledger: a partial map from addresses to what the getters report of the
  account. Every operation of \<open>src/core/state/statedb.go\<close> that transaction processing uses refines an operation
  on the ledger, so the properties of transaction processing are proved on ledgers.
\<close>

section \<open>Operations on ledgers\<close>

type_synonym ledger = "address \<rightharpoonup> view"

definition on_account :: "address \<Rightarrow> (view \<Rightarrow> view) \<Rightarrow> ledger \<Rightarrow> ledger" where
  "on_account a f V = (case V a of None \<Rightarrow> V | Some w \<Rightarrow> V(a \<mapsto> f w))"

definition with_amount :: "int \<Rightarrow> view \<Rightarrow> view" where
  "with_amount n w = w\<lparr>vw_amount := if 0 \<le> n then n else vw_amount w\<rparr>"

definition credit :: "address \<Rightarrow> int \<Rightarrow> ledger \<Rightarrow> ledger" where
  "credit a n = on_account a (\<lambda>w. with_amount (vw_amount w + n) w)"

definition debit :: "address \<Rightarrow> int \<Rightarrow> ledger \<Rightarrow> ledger" where
  "debit a n = on_account a (\<lambda>w. with_amount (vw_amount w - n) w)"

definition renonce :: "address \<Rightarrow> uint64 \<Rightarrow> ledger \<Rightarrow> ledger" where
  "renonce a n = on_account a (\<lambda>w. w\<lparr>vw_nonce := n\<rparr>)"

definition store_at :: "address \<Rightarrow> hash \<Rightarrow> bytes \<Rightarrow> ledger \<Rightarrow> ledger" where
  "store_at a k v = on_account a (\<lambda>w. w\<lparr>vw_storage := (vw_storage w)(k := v)\<rparr>)"

text \<open>A new account holds nothing but what the trie may still store under its address.\<close>

definition new_view :: "(bytes \<Rightarrow> bytes) \<Rightarrow> (bytes \<rightharpoonup> bytes) \<Rightarrow> address \<Rightarrow> view" where
  "new_view sha M a = obj_view sha M (newStateObject sha a)"

definition open_account :: "(bytes \<Rightarrow> bytes) \<Rightarrow> (bytes \<rightharpoonup> bytes) \<Rightarrow> address \<Rightarrow> ledger \<Rightarrow> ledger" where
  "open_account sha M a V = (if V a = None then V(a \<mapsto> new_view sha M a) else V)"

definition balance :: "ledger \<Rightarrow> address \<Rightarrow> int" where
  "balance V a = (case V a of None \<Rightarrow> 0 | Some w \<Rightarrow> vw_amount w)"

definition nonce_at :: "ledger \<Rightarrow> address \<Rightarrow> uint64" where
  "nonce_at V a = (case V a of None \<Rightarrow> 0 | Some w \<Rightarrow> vw_nonce w)"

definition data_at :: "ledger \<Rightarrow> address \<Rightarrow> hash \<Rightarrow> bytes" where
  "data_at V a k = (case V a of None \<Rightarrow> [] | Some w \<Rightarrow> vw_storage w k)"

lemma on_account_apply:
  "on_account a f V b = (if b = a then map_option f (V a) else V b)"
  by (simp add: on_account_def split: option.splits)

lemma on_account_dom: "on_account a f V b = None \<longleftrightarrow> V b = None"
  by (simp add: on_account_apply)

lemma ledger_dom [simp]:
  "(credit a n V b = None) = (V b = None)" "(debit a n V b = None) = (V b = None)"
  "(renonce a c V b = None) = (V b = None)" "(store_at a k v V b = None) = (V b = None)"
  by (simp_all add: credit_def debit_def renonce_def store_at_def on_account_dom)

lemma ledger_other [simp]:
  "b \<noteq> a \<Longrightarrow> credit a n V b = V b" "b \<noteq> a \<Longrightarrow> debit a n V b = V b" "b \<noteq> a \<Longrightarrow> renonce a c V b = V b"
  "b \<noteq> a \<Longrightarrow> store_at a k v V b = V b" "b \<noteq> a \<Longrightarrow> open_account sha M a V b = V b"
  by (simp_all add: credit_def debit_def renonce_def store_at_def on_account_apply open_account_def)

lemma open_dom [simp]: "(open_account sha M a V b = None) = (V b = None \<and> b \<noteq> a)"
  by (auto simp: open_account_def)

lemma balance_none: "V a = None \<Longrightarrow> balance V a = 0"
  by (simp add: balance_def)

lemma new_view_fields [simp]:
  "vw_amount (new_view sha M a) = 0" "vw_nonce (new_view sha M a) = 0" "vw_code (new_view sha M a) = []"
  "vw_suicided (new_view sha M a) = False"
  by (simp_all add: new_view_def obj_view_def newStateObject_def newAccount_def obj_code_def)

lemma balance_ops [simp]:
  "balance (credit a n V) b = (if b = a \<and> V a \<noteq> None \<and> 0 \<le> balance V a + n then balance V a + n else balance V b)"
  "balance (debit a n V) b = (if b = a \<and> V a \<noteq> None \<and> 0 \<le> balance V a - n then balance V a - n else balance V b)"
  "balance (renonce a c V) b = balance V b" "balance (store_at a k v V) b = balance V b"
  "balance (open_account sha M a V) b = balance V b"
  by (auto simp: balance_def credit_def debit_def renonce_def store_at_def on_account_apply with_amount_def open_account_def
      split: option.splits)

lemma nonce_ops [simp]:
  "nonce_at (credit a n V) b = nonce_at V b" "nonce_at (debit a n V) b = nonce_at V b"
  "nonce_at (renonce a c V) b = (if b = a \<and> V a \<noteq> None then c else nonce_at V b)"
  "nonce_at (store_at a k v V) b = nonce_at V b" "nonce_at (open_account sha M a V) b = nonce_at V b"
  by (auto simp: nonce_at_def credit_def debit_def renonce_def store_at_def on_account_apply with_amount_def open_account_def
      split: option.splits)

lemma data_ops [simp]:
  "data_at (credit a n V) b k = data_at V b k" "data_at (debit a n V) b k = data_at V b k"
  "data_at (renonce a c V) b k = data_at V b k"
  "data_at (store_at a k' v V) b k = (if b = a \<and> k = k' \<and> V a \<noteq> None then v else data_at V b k)"
  by (auto simp: data_at_def credit_def debit_def renonce_def store_at_def on_account_apply with_amount_def
      split: option.splits)

section \<open>The database refines the ledger\<close>

definition is_ledger ::
  "(bytes \<Rightarrow> bytes) \<Rightarrow> trie_db \<Rightarrow> bytes \<Rightarrow> (bytes \<rightharpoonup> bytes) \<Rightarrow> trie statedb \<Rightarrow> ledger \<Rightarrow> uint64 \<Rightarrow> bool" where
  "is_ledger sha kv pfx M s V r \<longleftrightarrow> good sha kv pfx M s \<and> sview sha M (sd_objects s) = V \<and> sd_refund s = r"

lemma ledger_nonneg:
  assumes "is_ledger sha kv pfx M s V q"
  shows "0 \<le> balance V a"
proof (cases "find_object sha M (sd_objects s) a")
  case (Some o1)
  then have "object_ok sha M a o1" using assms state_ok_find by (auto simp: is_ledger_def good_def)
  then show ?thesis using assms Some by (auto simp: balance_def is_ledger_def sview_def obj_view_def object_ok_def)
qed (use assms in \<open>auto simp: balance_def is_ledger_def sview_def\<close>)

lemma good_op: "good sha kv pfx M s \<Longrightarrow> good sha kv pfx M (sdb_exec (mpt_ops sha) sha op s)"
  using mpt.sdb_exec_undoes [where s = s and sha = sha and db = kv and pfx = pfx and M = M and op = op] by (simp add: good_def undoes_def)

lemma balance_refines:
  assumes "is_ledger sha kv pfx M s V r"
  shows "is_ledger sha kv pfx M (AddBalance (mpt_ops sha) sha a n s) (credit a n V) r"
    "is_ledger sha kv pfx M (SubBalance (mpt_ops sha) sha a n s) (debit a n V) r"
proof -
  have g: "good sha kv pfx M s" and V: "V = sview sha M (sd_objects s)" and r: "r = sd_refund s"
    using assms by (simp_all add: is_ledger_def)
  have m: "mpt_models sha kv pfx (sd_trie s) M" "state_ok sha M (sd_objects s)" using g by (simp_all add: good_def)
  obtain s' where s': "getStateObject (mpt_ops sha) sha a s = (s', find_object sha M (sd_objects s) a)" "reads sha M s s'"
    using mpt.getStateObject_found [OF m] by blast
  have "sd_refund (AddBalance (mpt_ops sha) sha a n s) = sd_refund s" "sd_refund (SubBalance (mpt_ops sha) sha a n s) = sd_refund s"
    using s' by (auto simp: AddBalance_def SubBalance_def reads_def split: option.splits)
  then show "is_ledger sha kv pfx M (AddBalance (mpt_ops sha) sha a n s) (credit a n V) r"
    "is_ledger sha kv pfx M (SubBalance (mpt_ops sha) sha a n s) (debit a n V) r"
    unfolding V r using good_op [OF g, of "OpAddBalance a n"] good_op [OF g, of "OpSubBalance a n"]
      mpt.set_amount_view [where f = "\<lambda>x. x + n", OF m AddBalance_def [unfolded so_addAmount_def, of "mpt_ops sha" sha a n s]]
      mpt.set_amount_view [where f = "\<lambda>x. x - n", OF m SubBalance_def [unfolded so_subAmount_def, of "mpt_ops sha" sha a n s]]
    by (simp_all add: is_ledger_def credit_def debit_def on_account_def with_amount_def del: fun_upd_apply split: option.split)
qed

lemma nonce_refines:
  assumes "is_ledger sha kv pfx M s V r"
  shows "is_ledger sha kv pfx M (SetNonce2 (mpt_ops sha) sha a n c s) (renonce a n V) r"
proof -
  have g: "good sha kv pfx M s" and V: "V = sview sha M (sd_objects s)" using assms by (simp_all add: is_ledger_def)
  have m: "mpt_models sha kv pfx (sd_trie s) M" "state_ok sha M (sd_objects s)" using g by (simp_all add: good_def)
  obtain s' where s': "getStateObject (mpt_ops sha) sha a s = (s', find_object sha M (sd_objects s) a)" "reads sha M s s'"
    using mpt.getStateObject_found [OF m] by blast
  have g2: "good sha kv pfx M (SetNonce2 (mpt_ops sha) sha a n c s)" using good_op [OF g, of "OpSetNonce2 a n c"] by simp
  show ?thesis
  proof (cases "find_object sha M (sd_objects s) a")
    case None
    then have "V a = None" by (simp add: V sview_def)
    then show ?thesis using assms s' None g2 by (simp add: SetNonce2_def is_ledger_def reads_def renonce_def on_account_def)
  next
    case (Some o1)
    then have "V a = Some (obj_view sha M o1)" by (simp add: V sview_def)
    then show ?thesis
      using assms s' Some g2 state_ok_find [OF m(2) Some]
      by (simp add: SetNonce2_def is_ledger_def reads_def renonce_def on_account_def sview_upd setter_views del: fun_upd_apply)
  qed
qed

lemma create_refines:
  assumes "is_ledger sha kv pfx M s V r"
  shows "is_ledger sha kv pfx M (CreateAccount (mpt_ops sha) sha a s) (open_account sha M a V) r"
proof -
  have g: "good sha kv pfx M s" and V: "V = sview sha M (sd_objects s)" using assms by (simp_all add: is_ledger_def)
  have m: "mpt_models sha kv pfx (sd_trie s) M" "state_ok sha M (sd_objects s)" using g by (simp_all add: good_def)
  obtain s' where s': "getStateObject (mpt_ops sha) sha a s = (s', find_object sha M (sd_objects s) a)" "reads sha M s s'"
    using mpt.getStateObject_found [OF m] by blast
  have g2: "good sha kv pfx M (CreateAccount (mpt_ops sha) sha a s)" using good_op [OF g, of "OpCreateAccount a"] by simp
  have nd: "\<not> so_deleted (newStateObject sha a)" by (simp add: newStateObject_def)
  have V2: "sview sha M (sd_objects s') = V" using s'(2) by (simp add: reads_def V)
  have "V a = None \<longleftrightarrow> find_object sha M (sd_objects s) a = None" by (simp add: V sview_def)
  then show ?thesis
    using assms s' g2 nd V2
    by (cases "find_object sha M (sd_objects s) a")
      (auto simp: CreateAccount_def is_ledger_def reads_def open_account_def sview_upd new_view_def simp del: fun_upd_apply)
qed

lemma data_refines:
  assumes "is_ledger sha kv pfx M s V r"
  shows "is_ledger sha kv pfx M (SetData (mpt_ops sha) sha a k v s) (store_at a k v V) r"
proof -
  have g: "good sha kv pfx M s" and V: "V = sview sha M (sd_objects s)" using assms by (simp_all add: is_ledger_def)
  have m: "mpt_models sha kv pfx (sd_trie s) M" "state_ok sha M (sd_objects s)" using g by (simp_all add: good_def)
  obtain s' where s': "getStateObject (mpt_ops sha) sha a s = (s', find_object sha M (sd_objects s) a)"
    "mpt_models sha kv pfx (sd_trie s') M" "reads sha M s s'"
    "\<And>o1. find_object sha M (sd_objects s) a = Some o1 \<Longrightarrow> find_object sha M (sd_objects s') a = Some o1"
    using mpt.getStateObject_found [OF m] by blast
  have g2: "good sha kv pfx M (SetData (mpt_ops sha) sha a k v s)" using good_op [OF g, of "OpSetData a k v"] by simp
  show ?thesis
  proof (cases "find_object sha M (sd_objects s) a")
    case None
    then have "V a = None" by (simp add: V sview_def)
    then show ?thesis using assms s' None g2 by (simp add: SetData_def is_ledger_def reads_def store_at_def on_account_def)
  next
    case (Some o1)
    then have w: "V a = Some (obj_view sha M o1)" by (simp add: V sview_def)
    let ?p = "obj_storage sha M o1 k"
    obtain t' o2 where o2: "so_getState (mpt_ops sha) sha o1 (sd_trie s') k False = (t', o2, Inr ?p)"
      "obj_view sha M o2 = obj_view sha M o1" "object_ok sha M a o2" "\<not> so_deleted o2"
      using mpt.so_getState_found [OF s'(2)] state_ok_find [OF m(2) Some] by blast
    have p: "vw_storage (obj_view sha M o1) k = ?p" by (simp add: obj_view_def)
    have same: "V(a \<mapsto> obj_view sha M o1) = V" using w by auto
    have store: "(vw_storage (obj_view sha M o1))(k := ?p) = vw_storage (obj_view sha M o1)" using p by auto
    have V2: "sview sha M (sd_objects s') = V" using s'(3) by (simp add: reads_def V)
    show ?thesis
      using assms s'(1,3) Some o2 g2 w V2 same store
      by (auto simp: SetData_def is_ledger_def reads_def Let_def store_at_def on_account_def sview_upd setter_views simp del: fun_upd_apply)
  qed
qed

lemma getter_refines:
  assumes "is_ledger sha kv pfx M s V r"
  shows "\<exists>s'. GetBalance (mpt_ops sha) sha a s = (s', balance V a) \<and> is_ledger sha kv pfx M s' V r"
    "\<exists>s'. GetNonce (mpt_ops sha) sha a s = (s', nonce_at V a) \<and> is_ledger sha kv pfx M s' V r"
    "\<exists>s'. GetData (mpt_ops sha) sha a k s = (s', data_at V a k) \<and> is_ledger sha kv pfx M s' V r"
    "\<exists>s'. Exist (mpt_ops sha) sha a s = (s', V a \<noteq> None) \<and> is_ledger sha kv pfx M s' V r"
    "is_ledger sha kv pfx M (fst (GetTxCount (mpt_ops sha) sha a s)) V r"
proof -
  have g: "good sha kv pfx M s" and V: "sview sha M (sd_objects s) = V" using assms by (simp_all add: is_ledger_def)
  have m: "mpt_models sha kv pfx (sd_trie s) M" "state_ok sha M (sd_objects s)" using g by (simp_all add: good_def)
  have l: "is_ledger sha kv pfx M s' V r" if "reads sha M s s'" "mpt_models sha kv pfx (sd_trie s') M" for s'
    using that assms by (simp add: is_ledger_def good_def reads_def)
  show "\<exists>s'. GetBalance (mpt_ops sha) sha a s = (s', balance V a) \<and> is_ledger sha kv pfx M s' V r"
    using mpt.getters(1) [OF m, of a] l by (auto simp: V balance_def)
  show "\<exists>s'. GetNonce (mpt_ops sha) sha a s = (s', nonce_at V a) \<and> is_ledger sha kv pfx M s' V r"
    using mpt.getters(2) [OF m, of a] l by (auto simp: V nonce_at_def)
  show "\<exists>s'. GetData (mpt_ops sha) sha a k s = (s', data_at V a k) \<and> is_ledger sha kv pfx M s' V r"
    using mpt.GetData_view [OF m, of a k] l by (auto simp: V data_at_def)
  show "\<exists>s'. Exist (mpt_ops sha) sha a s = (s', V a \<noteq> None) \<and> is_ledger sha kv pfx M s' V r"
    using mpt.getters(4) [OF m, of a] l by (auto simp: V)
  show "is_ledger sha kv pfx M (fst (GetTxCount (mpt_ops sha) sha a s)) V r"
    using mpt.GetTxCount_reads [OF m, of a] l by simp
qed

end
