(* ===== verification/System.thy ===== *)
theory System
  imports Types Ledger
begin

text \<open>
  The system contracts (\<open>src/contract/system\<close>): domain names, sub-chains, hash time locks, masternodes and
  the relay of Bitcoin blocks, and the dispatcher that runs them. A handler takes its input, the transaction
  with its block header, and the state. The state is the database and the variable \<open>preBlockHeight\<close>
  of the relay, which the code keeps outside the database. The JSON encodings are arguments.
\<close>

section \<open>Data\<close>

record HashTimeLock =
  hl_HashLock :: bytes
  hl_TimeLock :: int
  hl_To :: address

record htlc =
  ht_Tx :: Transaction
  ht_HashLock :: bytes
  ht_TimeLock :: int
  ht_To :: address
  ht_Refunded :: bool
  ht_Withdrawed :: bool
  ht_Preimage :: bytes

record Withdrawing =
  wi_Hash :: hash
  wi_Preimage :: bytes

record SubChainInfo =
  sc_Name :: bytes
  sc_Version :: bytes
  sc_StaticNodes :: "bytes list"
  sc_TokenFullName :: bytes
  sc_TokenShortName :: bytes
  sc_TokenAmount :: uint64
  sc_GenesisDifficulty :: uint64
  sc_GenesisAccounts :: "(address \<times> int) list"
  sc_CreateTimestamp :: "int option"
  sc_Owner :: address

record BTCBlock =
  bb_BlockHeaderHex :: bytes
  bb_Height :: uint64
  bb_PreviousBlockHex :: bytes
  bb_TxHexs :: "bytes list"
  bb_Relayer :: address

record RelayRequest =
  rr_BTCBlock :: BTCBlock
  rr_TxHex :: bytes
  rr_RelayAddress :: address

record masternodeInfo =
  mn_IsQuit :: bool
  mn_QuitBlock :: uint64

text \<open>\<open>json.Unmarshal\<close> and \<open>json.Marshal\<close> at the types the contracts use.\<close>

record json_ops =
  js_HashTimeLock :: "bytes \<Rightarrow> HashTimeLock option"
  js_Withdrawing :: "bytes \<Rightarrow> Withdrawing option"
  js_htlc :: "bytes \<Rightarrow> htlc option"
  js_of_htlc :: "htlc \<Rightarrow> bytes option"
  js_SubChainInfo :: "bytes \<Rightarrow> SubChainInfo option"
  js_of_SubChainInfo :: "SubChainInfo \<Rightarrow> bytes option"
  js_RelayRequest :: "bytes \<Rightarrow> RelayRequest option"
  js_blocks :: "bytes \<Rightarrow> (bytes \<rightharpoonup> BTCBlock) option"
  js_of_blocks :: "(bytes \<rightharpoonup> BTCBlock) \<Rightarrow> bytes option"

datatype sys_error =
    errInvalidCommand | errExists | errInvalidSubChainInfo
  | errNameEmpty | errNameTooLong | errInvalidName
  | errRedunedAgain | errRefundAfterWithdrawed | errWithdrawAfterWithdrawed | errTimeLocked | errTimeExpired
  | errNotFutureTime | errSender | errReceiver | errNotFound | errHashMismatch | errLockAmount
  | ErrDepositNotRight | ErrAlreadyExist | ErrNotEnoughDistance
  | errRelayFee | errConfirmations uint64 uint64 | errHeaderExists
  | errUnmarshal | errMarshal | SysPanic

record sys_ctx =
  cx_tx :: Transaction
  cx_header :: BlockHeader

record 't world =
  wd_db :: "'t statedb"
  wd_preBlockHeight :: uint64

type_synonym 't sys_result = "'t world \<times> (sys_error + bytes)"
type_synonym 't handler = "bytes \<Rightarrow> sys_ctx \<Rightarrow> 't world \<Rightarrow> 't sys_result"

text \<open>\<open>ValidateState\<close> has already panicked on a nil amount; a verified header has a time.\<close>

definition cx_Amount :: "sys_ctx \<Rightarrow> int" where
  "cx_Amount ctx = (case td_Amount (tx_Data (cx_tx ctx)) of None \<Rightarrow> 0 | Some n \<Rightarrow> n)"

definition cx_From :: "sys_ctx \<Rightarrow> address" where "cx_From ctx = td_From (tx_Data (cx_tx ctx))"
definition cx_To :: "sys_ctx \<Rightarrow> address" where "cx_To ctx = td_To (tx_Data (cx_tx ctx))"

definition cx_now :: "sys_ctx \<Rightarrow> int" where
  "cx_now ctx = Int64 (case bh_CreateTimestamp (cx_header ctx) of None \<Rightarrow> 0 | Some n \<Rightarrow> n)"

definition DomainNameContractAddress :: address where "DomainNameContractAddress = BytesToAddress [1, 1]"
definition SubChainContractAddress :: address where "SubChainContractAddress = BytesToAddress [1, 2]"
definition HashTimeLockContractAddress :: address where "HashTimeLockContractAddress = BytesToAddress [1, 3]"
definition MasternodeContractAddress :: address where "MasternodeContractAddress = BytesToAddress [1, 4]"
definition BTCRelayContractAddress :: address where "BTCRelayContractAddress = BytesToAddress [1, 5]"

section \<open>Domain names\<close>

text \<open>
  \<open>strings.ToLower\<close>: upper-case ASCII letters, and the two other runes whose lower case is an ASCII letter: the
  Kelvin sign and the dotted capital I. The bytes of any other rune stand for its lower case, which is not ASCII.
\<close>

fun ToLower :: "bytes \<Rightarrow> bytes" where
  "ToLower [] = []"
| "ToLower (b # bs) =
     (if b = 0xE2 \<and> take 2 bs = [0x84, 0xAA] then 0x6B # ToLower (drop 2 bs)
      else if b = 0xC4 \<and> take 1 bs = [0xB0] then 0x69 # ToLower (drop 1 bs)
      else (if 0x41 \<le> b \<and> b \<le> 0x5A then b + 0x20 else b) # ToLower bs)"

definition name_char :: "byte \<Rightarrow> bool" where
  "name_char b \<longleftrightarrow> 0x61 \<le> b \<and> b \<le> 0x7A \<or> 0x41 \<le> b \<and> b \<le> 0x5A \<or> 0x30 \<le> b \<and> b \<le> 0x39 \<or> b = 0x2D"

definition maxDomainNameLength :: nat where "maxDomainNameLength = HashLength"

definition ValidateDomainName :: "bytes \<Rightarrow> sys_error option" where
  "ValidateDomainName name =
     (if name = [] then Some errNameEmpty
      else if length name > maxDomainNameLength then Some errNameTooLong
      else if \<not> list_all name_char name then Some errInvalidName else None)"

text \<open>The name that is checked is in lower case, the key is made from the name as given.\<close>

definition domainNameToKey :: "bytes \<Rightarrow> sys_error + hash" where
  "domainNameToKey name =
     (case ValidateDomainName (ToLower name) of Some e \<Rightarrow> Inl e | None \<Rightarrow> Inr (BytesToHash name))"

definition createDomainName :: "'t trie_ops \<Rightarrow> (bytes \<Rightarrow> bytes) \<Rightarrow> 't handler" where
  "createDomainName T sha name ctx w =
     (case domainNameToKey name of
        Inl e \<Rightarrow> (w, Inl e)
      | Inr key \<Rightarrow>
          (case GetData T sha DomainNameContractAddress key (CreateAccount T sha DomainNameContractAddress (wd_db w)) of
             (s, value) \<Rightarrow>
               if value \<noteq> [] then (w\<lparr>wd_db := s\<rparr>, Inl errExists)
               else (w\<lparr>wd_db := SetData T sha DomainNameContractAddress key (cx_From ctx) s\<rparr>, Inr (cx_From ctx))))"

definition getDomainNameOwner :: "'t trie_ops \<Rightarrow> (bytes \<Rightarrow> bytes) \<Rightarrow> 't handler" where
  "getDomainNameOwner T sha name ctx w =
     (case domainNameToKey name of
        Inl e \<Rightarrow> (w, Inl e)
      | Inr key \<Rightarrow>
          (case GetData T sha DomainNameContractAddress key (wd_db w) of
             (s, owner) \<Rightarrow> (w\<lparr>wd_db := s\<rparr>, if owner = [] then Inl errNotFound else Inr owner)))"

section \<open>Sub-chains\<close>

definition registerSubChain :: "json_ops \<Rightarrow> 't trie_ops \<Rightarrow> (bytes \<Rightarrow> bytes) \<Rightarrow> 't handler" where
  "registerSubChain J T sha input ctx w =
     (case js_SubChainInfo J input of
        None \<Rightarrow> (w, Inl errUnmarshal)
      | Some info \<Rightarrow>
          (case domainNameToKey (sc_Name info) of
             Inl e \<Rightarrow> (w, Inl e)
           | Inr key \<Rightarrow>
               (case GetData T sha SubChainContractAddress key (wd_db w) of
                  (s, value) \<Rightarrow>
                    if value \<noteq> [] then (w\<lparr>wd_db := s\<rparr>, Inl errExists)
                    else if sc_Version info = [] \<or> sc_TokenFullName info = [] \<or> sc_TokenShortName info = [] \<or> sc_TokenAmount info = 0
                    then (w\<lparr>wd_db := s\<rparr>, Inl errInvalidSubChainInfo)
                    else (case js_of_SubChainInfo J (info\<lparr>sc_Owner := cx_From ctx,
                            sc_CreateTimestamp := bh_CreateTimestamp (cx_header ctx)\<rparr>) of
                            None \<Rightarrow> (w\<lparr>wd_db := s\<rparr>, Inl errMarshal)
                          | Some v \<Rightarrow>
                              (w\<lparr>wd_db := SetData T sha SubChainContractAddress key v
                                 (CreateAccount T sha SubChainContractAddress s)\<rparr>, Inr [])))))"

definition querySubChain :: "'t trie_ops \<Rightarrow> (bytes \<Rightarrow> bytes) \<Rightarrow> 't handler" where
  "querySubChain T sha name ctx w =
     (case domainNameToKey name of
        Inl e \<Rightarrow> (w, Inl e)
      | Inr key \<Rightarrow> (case GetData T sha SubChainContractAddress key (wd_db w) of (s, v) \<Rightarrow> (w\<lparr>wd_db := s\<rparr>, Inr v)))"

section \<open>Hash time locks\<close>

definition isFutureTimeLock :: "int \<Rightarrow> int \<Rightarrow> bool" where "isFutureTimeLock timelock now \<longleftrightarrow> now < timelock"

definition hashLockMatches :: "(bytes \<Rightarrow> bytes) \<Rightarrow> bytes \<Rightarrow> bytes \<Rightarrow> bool" where
  "hashLockMatches sha256 hashLock preimage \<longleftrightarrow> hashLock = sha256 preimage"

definition haveContract :: "'t trie_ops \<Rightarrow> (bytes \<Rightarrow> bytes) \<Rightarrow> hash \<Rightarrow> 't world \<Rightarrow> 't world \<times> (sys_error + bytes)" where
  "haveContract T sha h w =
     (case GetData T sha HashTimeLockContractAddress h (wd_db w) of
        (s, b) \<Rightarrow> (w\<lparr>wd_db := s\<rparr>, if b = [] then Inl errNotFound else Inr b))"

definition withdrawable :: "htlc \<Rightarrow> sys_ctx \<Rightarrow> sys_error option" where
  "withdrawable data ctx =
     (if cx_From ctx \<noteq> ht_To data then Some errReceiver
      else if \<not> isFutureTimeLock (ht_TimeLock data) (cx_now ctx) then Some errTimeExpired
      else if ht_Withdrawed data then Some errWithdrawAfterWithdrawed else None)"

definition refundable :: "htlc \<Rightarrow> sys_ctx \<Rightarrow> sys_error option" where
  "refundable data ctx =
     (if cx_From ctx \<noteq> td_From (tx_Data (ht_Tx data)) then Some errSender
      else if isFutureTimeLock (ht_TimeLock data) (cx_now ctx) then Some errTimeLocked
      else if ht_Withdrawed data then Some errRefundAfterWithdrawed
      else if ht_Refunded data then Some errRedunedAgain else None)"

definition newHTLC :: "json_ops \<Rightarrow> 't trie_ops \<Rightarrow> (bytes \<Rightarrow> bytes) \<Rightarrow> 't handler" where
  "newHTLC J T sha lockbytes ctx w =
     (case js_HashTimeLock J lockbytes of
        None \<Rightarrow> (w, Inl errUnmarshal)
      | Some info \<Rightarrow>
          if \<not> 0 < cx_Amount ctx then (w, Inl errLockAmount)
          else if \<not> isFutureTimeLock (hl_TimeLock info) (cx_now ctx) then (w, Inl errNotFutureTime)
          else (case js_of_htlc J \<lparr>ht_Tx = cx_tx ctx, ht_HashLock = hl_HashLock info, ht_TimeLock = hl_TimeLock info,
                  ht_To = hl_To info, ht_Refunded = False, ht_Withdrawed = False, ht_Preimage = []\<rparr> of
                  None \<Rightarrow> (w, Inl errMarshal)
                | Some value \<Rightarrow>
                    (w\<lparr>wd_db := SetData T sha HashTimeLockContractAddress (tx_Hash (cx_tx ctx)) value
                       (CreateAccount T sha HashTimeLockContractAddress (wd_db w))\<rparr>, Inr value)))"

text \<open>The payment that ends a lock.\<close>

definition ht_Amount :: "htlc \<Rightarrow> int" where
  "ht_Amount info = (case td_Amount (tx_Data (ht_Tx info)) of None \<Rightarrow> 0 | Some n \<Rightarrow> n)"

definition withdraw :: "json_ops \<Rightarrow> (bytes \<Rightarrow> bytes) \<Rightarrow> 't trie_ops \<Rightarrow> (bytes \<Rightarrow> bytes) \<Rightarrow> 't handler" where
  "withdraw J sha256 T sha input ctx w =
     (case js_Withdrawing J input of
        None \<Rightarrow> (w, Inl errUnmarshal)
      | Some inp \<Rightarrow>
          (case haveContract T sha (wi_Hash inp) w of
             (w1, Inl e) \<Rightarrow> (w1, Inl e)
           | (w1, Inr databytes) \<Rightarrow>
               (case js_htlc J databytes of
                  None \<Rightarrow> (w1, Inl errUnmarshal)
                | Some info \<Rightarrow>
                    if \<not> hashLockMatches sha256 (ht_HashLock info) (wi_Preimage inp) then (w1, Inl errHashMismatch)
                    else (case withdrawable info ctx of
                            Some e \<Rightarrow> (w1, Inl e)
                          | None \<Rightarrow>
                              (case js_of_htlc J (info\<lparr>ht_Preimage := wi_Preimage inp, ht_Withdrawed := True\<rparr>) of
                                 None \<Rightarrow> (w1, Inl errMarshal)
                               | Some value \<Rightarrow>
                                   (w1\<lparr>wd_db := AddBalance T sha (ht_To info) (ht_Amount info)
                                      (SubBalance T sha (cx_To ctx) (ht_Amount info)
                                        (SetData T sha HashTimeLockContractAddress (tx_Hash (ht_Tx info)) value (wd_db w1)))\<rparr>,
                                    Inr value))))))"

definition refund :: "json_ops \<Rightarrow> 't trie_ops \<Rightarrow> (bytes \<Rightarrow> bytes) \<Rightarrow> 't handler" where
  "refund J T sha input ctx w =
     (case haveContract T sha (BytesToHash input) w of
        (w1, Inl e) \<Rightarrow> (w1, Inl e)
      | (w1, Inr databytes) \<Rightarrow>
          (case js_htlc J databytes of
             None \<Rightarrow> (w1, Inl errUnmarshal)
           | Some info \<Rightarrow>
               (case refundable info ctx of
                  Some e \<Rightarrow> (w1, Inl e)
                | None \<Rightarrow>
                    (case js_of_htlc J (info\<lparr>ht_Refunded := True\<rparr>) of
                       None \<Rightarrow> (w1, Inl errMarshal)
                     | Some value \<Rightarrow>
                         (w1\<lparr>wd_db := AddBalance T sha (td_From (tx_Data (ht_Tx info))) (ht_Amount info)
                            (SubBalance T sha (cx_To ctx) (ht_Amount info)
                              (SetData T sha HashTimeLockContractAddress (tx_Hash (ht_Tx info)) value (wd_db w1)))\<rparr>,
                          Inr value)))))"

definition getContract :: "'t trie_ops \<Rightarrow> (bytes \<Rightarrow> bytes) \<Rightarrow> 't handler" where
  "getContract T sha input ctx w = haveContract T sha (BytesToHash input) w"

section \<open>Masternodes\<close>

definition SeeleToFan :: int where "SeeleToFan = 100000000"
definition depositLimit :: int where "depositLimit = SeeleToFan * 20000"
definition recallDistanceLimit :: uint64 where "recallDistanceLimit = 8640"

definition masternodeInfo_bytes :: "masternodeInfo \<Rightarrow> bytes" where
  "masternodeInfo_bytes info = rlp_Encode (RlpList [RlpBool (mn_IsQuit info), RlpUint (unat (mn_QuitBlock info))])"

definition masternodeInfo_of :: "bytes \<Rightarrow> masternodeInfo option" where
  "masternodeInfo_of b =
     (case rlp_SplitList b of
        Inr (c, []) \<Rightarrow>
          (case decodeUint c of
             Some (q, r) \<Rightarrow>
               if q > 1 then None
               else (case decodeUint r of Some (n, []) \<Rightarrow> Some \<lparr>mn_IsQuit = (q = 1), mn_QuitBlock = word_of_nat n\<rparr> | _ \<Rightarrow> None)
           | None \<Rightarrow> None)
      | _ \<Rightarrow> None)"

definition getInfo ::
  "'t trie_ops \<Rightarrow> (bytes \<Rightarrow> bytes) \<Rightarrow> bytes \<Rightarrow> 't world \<Rightarrow> 't world \<times> (sys_error + masternodeInfo option)" where
  "getInfo T sha addr w =
     (case GetData T sha MasternodeContractAddress (MustHash sha addr) (wd_db w) of
        (s, b) \<Rightarrow>
          (w\<lparr>wd_db := s\<rparr>,
           if b = [] then Inr None
           else case masternodeInfo_of b of None \<Rightarrow> Inl errUnmarshal | Some info \<Rightarrow> Inr (Some info)))"

definition saveInfo :: "'t trie_ops \<Rightarrow> (bytes \<Rightarrow> bytes) \<Rightarrow> bytes \<Rightarrow> masternodeInfo \<Rightarrow> 't world \<Rightarrow> 't world" where
  "saveInfo T sha addr info w =
     w\<lparr>wd_db := SetData T sha MasternodeContractAddress (MustHash sha addr) (masternodeInfo_bytes info) (wd_db w)\<rparr>"

definition deposit :: "'t trie_ops \<Rightarrow> (bytes \<Rightarrow> bytes) \<Rightarrow> 't handler" where
  "deposit T sha input ctx w =
     (if cx_Amount ctx \<noteq> depositLimit then (w, Inl ErrDepositNotRight)
      else case getInfo T sha (cx_From ctx) w of
             (w1, Inl e) \<Rightarrow> (w1, Inl e)
           | (w1, Inr info) \<Rightarrow>
               if (case info of None \<Rightarrow> False | Some i \<Rightarrow> \<not> mn_IsQuit i) then (w1, Inl ErrAlreadyExist)
               else (saveInfo T sha (cx_From ctx) \<lparr>mn_IsQuit = False, mn_QuitBlock = 0\<rparr> w1, Inr []))"

text \<open>The tests of \<open>queryMasternodeCmd\<close> and \<open>recallCmd\<close> read a field of a nil pointer when there is no entry.\<close>

definition queryMasternodeCmd :: "'t trie_ops \<Rightarrow> (bytes \<Rightarrow> bytes) \<Rightarrow> 't handler" where
  "queryMasternodeCmd T sha addr ctx w =
     (case getInfo T sha addr w of
        (w1, Inl e) \<Rightarrow> (w1, Inl e)
      | (w1, Inr None) \<Rightarrow> (w1, Inl SysPanic)
      | (w1, Inr (Some info)) \<Rightarrow> (w1, Inr [0]))"

definition recallCmd :: "'t trie_ops \<Rightarrow> (bytes \<Rightarrow> bytes) \<Rightarrow> 't handler" where
  "recallCmd T sha addr ctx w =
     (case getInfo T sha addr w of
        (w1, Inl e) \<Rightarrow> (w1, Inl e)
      | (w1, Inr None) \<Rightarrow> (w1, Inl SysPanic)
      | (w1, Inr (Some info)) \<Rightarrow>
          (let distance = bh_Height (cx_header ctx) - mn_QuitBlock info
           in if mn_IsQuit info \<and> distance > recallDistanceLimit
              then (w1\<lparr>wd_db := AddBalance T sha (cx_From ctx) depositLimit
                      (SubBalance T sha MasternodeContractAddress depositLimit
                        (SetData T sha MasternodeContractAddress (MustHash sha addr) [] (wd_db w1)))\<rparr>, Inr [])
              else (w1, Inl ErrNotEnoughDistance)))"

definition quitCmd :: "'t trie_ops \<Rightarrow> (bytes \<Rightarrow> bytes) \<Rightarrow> 't handler" where
  "quitCmd T sha addr ctx w =
     (case getInfo T sha addr w of
        (w1, Inl e) \<Rightarrow> (w1, Inl e)
      | (w1, Inr info) \<Rightarrow>
          (case info of
             Some i \<Rightarrow>
               if \<not> mn_IsQuit i
               then (saveInfo T sha addr \<lparr>mn_IsQuit = True, mn_QuitBlock = bh_Height (cx_header ctx)\<rparr> w1, Inr [])
               else (w1, Inr [])
           | None \<Rightarrow> (w1, Inr [])))"

section \<open>The relay of Bitcoin blocks\<close>

definition btcConfirm :: uint64 where "btcConfirm = 6"
definition relay_fee :: uint64 where "relay_fee = 1"
definition failure :: bytes where "failure = [0]"
definition success :: bytes where "success = [1]"

definition keyBlocksHash :: hash where "keyBlocksHash = BytesToHash (map of_char ''BTC-Blocks-Hash'')"

definition BytesToHex :: "bytes \<Rightarrow> bytes" where
  "BytesToHex b =
     (let digit = (\<lambda>n. if n < 10 then 48 + n else 87 + n :: byte)
      in map of_char ''0x'' @ concat (map (\<lambda>x. [digit (x div 16), digit (x mod 16)]) b))"

definition getBTCBlocks ::
  "json_ops \<Rightarrow> 't trie_ops \<Rightarrow> (bytes \<Rightarrow> bytes) \<Rightarrow> 't world \<Rightarrow> 't world \<times> (bytes \<rightharpoonup> BTCBlock)" where
  "getBTCBlocks J T sha w =
     (case GetData T sha BTCRelayContractAddress keyBlocksHash (wd_db w) of
        (s, b) \<Rightarrow> (w\<lparr>wd_db := s\<rparr>, case js_blocks J b of None \<Rightarrow> Map.empty | Some m \<Rightarrow> m))"

text \<open>The amount goes to the relayer of the block.\<close>

definition pay_relayer :: "'t trie_ops \<Rightarrow> (bytes \<Rightarrow> bytes) \<Rightarrow> BTCBlock \<Rightarrow> sys_ctx \<Rightarrow> 't world \<Rightarrow> 't world" where
  "pay_relayer T sha blk ctx w =
     w\<lparr>wd_db := SubBalance T sha BTCRelayContractAddress (cx_Amount ctx)
        (AddBalance T sha (bb_Relayer blk) (cx_Amount ctx) (wd_db w))\<rparr>"

definition verifyTx :: "json_ops \<Rightarrow> 't trie_ops \<Rightarrow> (bytes \<Rightarrow> bytes) \<Rightarrow> 't handler" where
  "verifyTx J T sha request ctx w =
     (case js_RelayRequest J request of
        None \<Rightarrow> (w, Inl errUnmarshal)
      | Some req \<Rightarrow>
          if Uint64 (cx_Amount ctx) < relay_fee then (w, Inl errRelayFee)
          else (case getBTCBlocks J T sha w of
                  (w1, blocks) \<Rightarrow>
                    (case blocks (bb_BlockHeaderHex (rr_BTCBlock req)) of
                       None \<Rightarrow> (w1, Inr failure)
                     | Some blk \<Rightarrow>
                         let h = wd_preBlockHeight w1
                         in if h < btcConfirm \<or> bb_Height blk < h - btcConfirm
                            then (w1, Inl (errConfirmations h (bb_Height blk)))
                            else (pay_relayer T sha blk ctx w1, Inr (if rr_TxHex req \<in> set (bb_TxHexs blk) then success else failure)))))"

definition relayTx :: "json_ops \<Rightarrow> 't trie_ops \<Rightarrow> (bytes \<Rightarrow> bytes) \<Rightarrow> 't handler" where
  "relayTx J T sha request ctx w =
     (case verifyTx J T sha request ctx w of
        (w1, Inl e) \<Rightarrow> (w1, Inl e)
      | (w1, Inr r) \<Rightarrow> (w1, Inr (if length r = length success \<and> success ! 0 = r ! 0 then success else failure)))"

definition storeBlockHeader :: "json_ops \<Rightarrow> 't trie_ops \<Rightarrow> (bytes \<Rightarrow> bytes) \<Rightarrow> 't handler" where
  "storeBlockHeader J T sha request ctx w =
     (case js_RelayRequest J request of
        None \<Rightarrow> (w, Inl errUnmarshal)
      | Some req \<Rightarrow>
          (case getBTCBlocks J T sha w of
             (w1, blocks) \<Rightarrow>
               let blk = (rr_BTCBlock req)\<lparr>bb_Relayer := cx_From ctx\<rparr>
               in if blocks (bb_BlockHeaderHex blk) \<noteq> None then (w1, Inl errHeaderExists)
                  else let w2 = w1\<lparr>wd_preBlockHeight := bb_Height blk\<rparr>
                       in case js_of_blocks J (blocks(bb_BlockHeaderHex blk \<mapsto> blk)) of
                            None \<Rightarrow> (w2, Inl errMarshal)
                          | Some b \<Rightarrow>
                              (w2\<lparr>wd_db := SetData T sha BTCRelayContractAddress keyBlocksHash b (wd_db w2)\<rparr>, Inr success)))"

definition getBlockHeader :: "json_ops \<Rightarrow> 't trie_ops \<Rightarrow> (bytes \<Rightarrow> bytes) \<Rightarrow> 't handler" where
  "getBlockHeader J T sha request ctx w =
     (if Uint64 (cx_Amount ctx) < relay_fee then (w, Inl errRelayFee)
      else case getBTCBlocks J T sha w of
             (w1, blocks) \<Rightarrow>
               (case blocks (BytesToHex request) of
                  None \<Rightarrow> (w1, Inr failure)
                | Some blk \<Rightarrow> (pay_relayer T sha blk ctx w1, Inr success)))"

section \<open>The dispatcher\<close>

type_synonym 't commands = "(byte \<times> uint64 \<times> 't handler) list"

definition gasInvalidCommand :: uint64 where "gasInvalidCommand = 50000"

definition domainNameCommands :: "'t trie_ops \<Rightarrow> (bytes \<Rightarrow> bytes) \<Rightarrow> 't commands" where
  "domainNameCommands T sha = [(0, 50000, createDomainName T sha), (1, 100000, getDomainNameOwner T sha)]"

definition subChainCommands :: "json_ops \<Rightarrow> 't trie_ops \<Rightarrow> (bytes \<Rightarrow> bytes) \<Rightarrow> 't commands" where
  "subChainCommands J T sha = [(0, 100000, registerSubChain J T sha), (1, 200000, querySubChain T sha)]"

definition htlcCommands :: "json_ops \<Rightarrow> (bytes \<Rightarrow> bytes) \<Rightarrow> 't trie_ops \<Rightarrow> (bytes \<Rightarrow> bytes) \<Rightarrow> 't commands" where
  "htlcCommands J sha256 T sha =
     [(0, 100000, newHTLC J T sha), (1, 5000, withdraw J sha256 T sha), (2, 5000, refund J T sha), (3, 5000, getContract T sha)]"

definition masternodeCommands :: "'t trie_ops \<Rightarrow> (bytes \<Rightarrow> bytes) \<Rightarrow> 't commands" where
  "masternodeCommands T sha =
     [(0, 50000, deposit T sha), (1, 5000, queryMasternodeCmd T sha), (2, 50000, recallCmd T sha), (3, 50000, quitCmd T sha)]"

definition brCommands :: "json_ops \<Rightarrow> 't trie_ops \<Rightarrow> (bytes \<Rightarrow> bytes) \<Rightarrow> 't commands" where
  "brCommands J T sha =
     [(0, 1000, verifyTx J T sha), (1, 3000, relayTx J T sha), (2, 10000, storeBlockHeader J T sha), (3, 200, getBlockHeader J T sha)]"

definition GetContractByAddress ::
  "json_ops \<Rightarrow> (bytes \<Rightarrow> bytes) \<Rightarrow> 't trie_ops \<Rightarrow> (bytes \<Rightarrow> bytes) \<Rightarrow> address \<Rightarrow> 't commands option" where
  "GetContractByAddress J sha256 T sha addr =
     map_of [(DomainNameContractAddress, domainNameCommands T sha), (SubChainContractAddress, subChainCommands J T sha),
       (HashTimeLockContractAddress, htlcCommands J sha256 T sha), (MasternodeContractAddress, masternodeCommands T sha),
       (BTCRelayContractAddress, brCommands J T sha)] addr"

definition contract_RequiredGas :: "'t commands \<Rightarrow> bytes \<Rightarrow> uint64" where
  "contract_RequiredGas cmds input =
     (case input of
        [] \<Rightarrow> gasInvalidCommand
      | c # _ \<Rightarrow> (case map_of cmds c of Some (gas, _) \<Rightarrow> gas | None \<Rightarrow> gasInvalidCommand))"

definition contract_Run :: "'t commands \<Rightarrow> 't handler" where
  "contract_Run cmds input ctx w =
     (case input of
        [] \<Rightarrow> (w, Inl errInvalidCommand)
      | c # rest \<Rightarrow> (case map_of cmds c of Some (_, h) \<Rightarrow> h rest ctx w | None \<Rightarrow> (w, Inl errInvalidCommand)))"

end
