(* ===== verification/System_Laws.thy ===== *)
theory System_Laws
  imports System
begin

text \<open>
  What the system contracts guarantee and what they do not: domain names keep their first owner, a hash time lock
  pays once, the deposit of a masternode can be taken by anyone, and the relay accepts only recent blocks.
\<close>

section \<open>Domain names\<close>

text \<open>Further calls of the contract, in order; their results are not needed here.\<close>

definition domain_calls :: "(bytes \<Rightarrow> bytes) \<Rightarrow> (bytes \<times> sys_ctx) list \<Rightarrow> trie world \<Rightarrow> trie world" where
  "domain_calls sha = fold (\<lambda>(input, ctx) w. fst (contract_Run (domainNameCommands (mpt_ops sha) sha) input ctx w))"

definition owned :: "(bytes \<Rightarrow> bytes) \<Rightarrow> trie_db \<Rightarrow> bytes \<Rightarrow> (bytes \<rightharpoonup> bytes) \<Rightarrow> uint64 \<Rightarrow> hash \<Rightarrow> bytes \<Rightarrow> trie world \<Rightarrow> bool" where
  "owned sha kv pfx M r key who w \<longleftrightarrow>
     (\<exists>V. is_ledger sha kv pfx M (wd_db w) V r \<and> data_at V DomainNameContractAddress key = who)"

lemma getDomainNameOwner_ledger:
  assumes "is_ledger sha kv pfx M (wd_db w) V r"
  shows "\<exists>s. is_ledger sha kv pfx M s V r \<and> getDomainNameOwner (mpt_ops sha) sha name ctx w =
    (case domainNameToKey name of Inl e \<Rightarrow> (w, Inl e)
     | Inr key \<Rightarrow> (w\<lparr>wd_db := s\<rparr>, if data_at V DomainNameContractAddress key = [] then Inl errNotFound
         else Inr (data_at V DomainNameContractAddress key)))"
proof (cases "domainNameToKey name")
  case (Inr key)
  then show ?thesis using getter_refines(3) [OF assms, of DomainNameContractAddress key] by (auto simp: getDomainNameOwner_def)
qed (use assms in \<open>auto simp: getDomainNameOwner_def\<close>)

lemma createDomainName_ledger:
  assumes "is_ledger sha kv pfx M (wd_db w) V r" and "domainNameToKey name = Inr key"
    and "V0 = open_account sha M DomainNameContractAddress V"
  shows "if data_at V0 DomainNameContractAddress key = []
    then snd (createDomainName (mpt_ops sha) sha name ctx w) = Inr (cx_From ctx)
      \<and> is_ledger sha kv pfx M (wd_db (fst (createDomainName (mpt_ops sha) sha name ctx w)))
          (store_at DomainNameContractAddress key (cx_From ctx) V0) r
    else snd (createDomainName (mpt_ops sha) sha name ctx w) = Inl errExists
      \<and> is_ledger sha kv pfx M (wd_db (fst (createDomainName (mpt_ops sha) sha name ctx w))) V0 r"
proof -
  let ?D = DomainNameContractAddress and ?T = "mpt_ops sha"
  have L0: "is_ledger sha kv pfx M (CreateAccount ?T sha ?D (wd_db w)) V0 r"
    unfolding assms(3) by (rule create_refines [OF assms(1)])
  obtain s where s: "GetData ?T sha ?D key (CreateAccount ?T sha ?D (wd_db w)) = (s, data_at V0 ?D key)" "is_ledger sha kv pfx M s V0 r"
    using getter_refines(3) [OF L0] by blast
  then show ?thesis using assms(2) data_refines [OF s(2)] by (simp add: createDomainName_def)
qed

lemma domain_call_owned:
  assumes o: "owned sha kv pfx M r key who w" and who: "who \<noteq> []"
  shows "owned sha kv pfx M r key who (fst (contract_Run (domainNameCommands (mpt_ops sha) sha) input ctx w))"
proof -
  let ?D = DomainNameContractAddress
  obtain V where V: "is_ledger sha kv pfx M (wd_db w) V r" "data_at V ?D key = who" using o by (auto simp: owned_def)
  let ?V0 = "open_account sha M ?D V"
  have "V ?D \<noteq> None" using V(2) who by (auto simp: data_at_def split: option.splits)
  then have V0: "?V0 = V" by (auto simp: open_account_def)
  have create: "owned sha kv pfx M r key who (fst (createDomainName (mpt_ops sha) sha name ctx w))" for name
  proof (cases "domainNameToKey name")
    case (Inr key2)
    note c = createDomainName_ledger [OF V(1) Inr refl, of ctx, unfolded V0]
    show ?thesis
    proof (cases "data_at V ?D key2 = []")
      case True
      then have "key2 \<noteq> key" using V(2) who by auto
      then have "data_at (store_at ?D key2 (cx_From ctx) V) ?D key = who" using V(2) by simp
      then show ?thesis using c True by (auto simp: owned_def)
    qed (use c V in \<open>auto simp: owned_def\<close>)
  qed (use o in \<open>simp add: createDomainName_def\<close>)
  have get: "owned sha kv pfx M r key who (fst (getDomainNameOwner (mpt_ops sha) sha name ctx w))" for name
  proof (cases "domainNameToKey name")
    case (Inr key2)
    then show ?thesis using getDomainNameOwner_ledger [OF V(1), of name ctx] V(2) by (auto simp: owned_def)
  qed (use o in \<open>simp add: getDomainNameOwner_def\<close>)
  show ?thesis using o create get by (cases input) (simp_all add: contract_Run_def domainNameCommands_def)
qed

lemma domain_calls_owned:
  "owned sha kv pfx M r key who w \<Longrightarrow> who \<noteq> [] \<Longrightarrow> owned sha kv pfx M r key who (domain_calls sha calls w)"
proof (induction calls arbitrary: w)
  case (Cons c calls)
  then show ?case using domain_call_owned by (cases c) (simp add: domain_calls_def)
qed (simp add: domain_calls_def)

text \<open>
  C22: A domain name keeps its first owner. On any database, creating a name that is not taken answers with the
  sender and changes the accounts in one way: the contract's storage holds the sender under the key of the
  name (the contract's account is opened when it is missing). After that, whatever calls of the contract
  anyone makes, the name is reported to belong to that sender and creating it again fails. Creating a name that is
  taken fails and changes no account.
\<close>

theorem domain_name_registration:
  assumes "is_ledger sha kv pfx M (wd_db w) V r" and "domainNameToKey name = Inr key" and "cx_From ctx \<noteq> []"
    and "V0 = open_account sha M DomainNameContractAddress V"
    and "createDomainName (mpt_ops sha) sha name ctx w = (w1, res)"
  shows "if data_at V0 DomainNameContractAddress key = []
    then res = Inr (cx_From ctx)
      \<and> is_ledger sha kv pfx M (wd_db w1) (store_at DomainNameContractAddress key (cx_From ctx) V0) r
      \<and> (\<forall>calls ctx2. snd (getDomainNameOwner (mpt_ops sha) sha name ctx2 (domain_calls sha calls w1)) = Inr (cx_From ctx)
           \<and> snd (createDomainName (mpt_ops sha) sha name ctx2 (domain_calls sha calls w1)) = Inl errExists)
    else res = Inl errExists \<and> is_ledger sha kv pfx M (wd_db w1) V0 r"
proof -
  let ?D = DomainNameContractAddress and ?T = "mpt_ops sha" and ?V1 = "store_at DomainNameContractAddress key (cx_From ctx) V0"
  note c = createDomainName_ledger [OF assms(1,2,4), of ctx, unfolded assms(5) fst_conv snd_conv]
  have later: "snd (getDomainNameOwner ?T sha name ctx2 w2) = Inr (cx_From ctx) \<and> snd (createDomainName ?T sha name ctx2 w2) = Inl errExists"
    if L1: "is_ledger sha kv pfx M (wd_db w1) ?V1 r" and w2: "w2 = domain_calls sha calls w1" for calls ctx2 w2
  proof -
    have "V0 ?D \<noteq> None" by (simp add: assms(4))
    then have "data_at ?V1 ?D key = cx_From ctx" by simp
    then have "owned sha kv pfx M r key (cx_From ctx) w1" using L1 by (auto simp: owned_def)
    then obtain V2 where V2: "is_ledger sha kv pfx M (wd_db w2) V2 r" "data_at V2 ?D key = cx_From ctx"
      using domain_calls_owned [OF _ assms(3)] unfolding w2 owned_def by blast
    then have "V2 ?D \<noteq> None" using assms(3) by (auto simp: data_at_def split: option.splits)
    then have "open_account sha M ?D V2 = V2" by (auto simp: open_account_def)
    then show ?thesis using getDomainNameOwner_ledger [OF V2(1), of name ctx2] createDomainName_ledger [OF V2(1) assms(2) refl, of ctx2]
        V2(2) assms(2,3) by auto
  qed
  show ?thesis using c later by (simp split: if_splits)
qed

lemma ToLower_ascii:
  assumes "list_all (\<lambda>b. b < 128) name"
  shows "ToLower name = map (\<lambda>b. if 0x41 \<le> b \<and> b \<le> 0x5A then b + 0x20 else b) name"
  using assms by (induction name rule: ToLower.induct) (auto simp: list_all_iff)

lemma BytesToHash_inj:
  assumes "length a \<le> HashLength" "length b \<le> HashLength" "0 \<notin> set a" "0 \<notin> set b" "BytesToHash a = BytesToHash b"
  shows "a = b"
proof -
  have e: "replicate (HashLength - length a) 0 @ a = replicate (HashLength - length b) 0 @ b"
    using assms(1,2,5) by (simp add: BytesToHash_def Let_def)
  have "dropWhile (\<lambda>x. x = 0) (replicate n 0 @ c) = c" if "0 \<notin> set c" for n and c :: bytes
    using that by (induction n) (cases c; auto)+
  then show ?thesis using arg_cong [OF e, of "dropWhile (\<lambda>x. x = 0)"] assms(3,4) by metis
qed

lemma ascii_key:
  assumes "list_all (\<lambda>b. b < 128) n" "domainNameToKey n = Inr key"
  shows "length n \<le> HashLength \<and> 0 \<notin> set n \<and> BytesToHash n = key"
proof -
  have v: "ValidateDomainName (map (\<lambda>b. if 0x41 \<le> b \<and> b \<le> 0x5A then b + 0x20 else b) n) = None" "BytesToHash n = key"
    using assms(2) by (auto simp: domainNameToKey_def ToLower_ascii [OF assms(1)] split: option.splits)
  then have "length n \<le> HashLength" "list_all (\<lambda>b. name_char (if 0x41 \<le> b \<and> b \<le> 0x5A then b + 0x20 else b)) n"
    by (auto simp: ValidateDomainName_def maxDomainNameLength_def list_all_iff split: if_splits)
  moreover have "\<not> name_char (if 0x41 \<le> 0 \<and> 0 \<le> (0x5A :: byte) then 0 + 0x20 else 0)" by (simp add: name_char_def)
  ultimately show ?thesis using v(2) unfolding list_all_iff by blast
qed

text \<open>
  C23: Names that differ only in case are different names, against the comment of \<open>domainNameToKey\<close>, which says
  that it converts upper case to lower case: when an ASCII name is accepted, every other ASCII name with the same
  lower case is accepted too and gets another key, so each can have an owner of its own.
\<close>

theorem domain_case_kept:
  assumes "list_all (\<lambda>b. b < 128) name" and "list_all (\<lambda>b. b < 128) name2"
    and "domainNameToKey name = Inr key" and "ToLower name2 = ToLower name" and "name2 \<noteq> name"
  shows "\<exists>key2. domainNameToKey name2 = Inr key2 \<and> key2 \<noteq> key"
proof -
  have k2: "domainNameToKey name2 = Inr (BytesToHash name2)"
    using assms(3,4) by (auto simp: domainNameToKey_def split: option.splits)
  then show ?thesis using ascii_key [OF assms(1,3)] ascii_key [OF assms(2) k2] BytesToHash_inj assms(5) by metis
qed

lemma ToLower_append_ascii:
  assumes "list_all (\<lambda>b. b < 128) x"
  shows "ToLower (x @ y) = ToLower x @ ToLower y"
  using assms by (induction x) (auto simp: list_all_iff)

lemma ToLower_kelvins: "ToLower (concat (replicate n [0xE2, 0x84, 0xAA])) = replicate n 0x6B"
  by (induction n) simp_all

text \<open>
  C24: Two names can share a key. The key is cut from the bytes of the name as given, while the checks see its lower
  case, which may be shorter: every Kelvin sign has three bytes and the lower case k. So all accepted
  names that end in the same eleven or more Kelvin signs have the same key, and only one of them can have an owner.
\<close>

theorem domain_key_collision:
  assumes "list_all (\<lambda>b. b < 128) x" and "list_all name_char x" and "length x + n \<le> maxDomainNameLength" and "11 \<le> n"
    and "kelvins = concat (replicate n [0xE2, 0x84, 0xAA])"
  shows "domainNameToKey (x @ kelvins) = domainNameToKey kelvins \<and> (\<exists>key. domainNameToKey kelvins = Inr key)"
proof -
  have len: "32 \<le> length kelvins" using assms(4) unfolding assms(5) by (simp add: length_concat sum_list_replicate)
  then have "BytesToHash (x @ kelvins) = BytesToHash kelvins" by (auto simp: BytesToHash_def HashLength_def Let_def)
  moreover have "name_char (if 0x41 \<le> b \<and> b \<le> 0x5A then b + 0x20 else b)" if "name_char b" for b
    using that by (auto simp: name_char_def word_le_nat_alt unat_word_ariths)
  then have "list_all name_char (ToLower x)"
    unfolding ToLower_ascii [OF assms(1)] list.pred_map comp_def by (rule list.pred_mono_strong [OF assms(2)])
  moreover have "length (ToLower x) = length x" by (simp add: ToLower_ascii [OF assms(1)])
  moreover have "name_char 0x6B" by (simp add: name_char_def)
  then have "list_all name_char (replicate n 0x6B)" by (simp add: list_all_iff)
  ultimately show ?thesis using assms(3,4)
    by (auto simp: domainNameToKey_def ValidateDomainName_def ToLower_append_ascii [OF assms(1)] ToLower_kelvins assms(5))
qed

lemma masternodeInfo_roundtrip: "masternodeInfo_of (masternodeInfo_bytes info) = Some info"
proof -
  let ?q = "if mn_IsQuit info then 1 else 0 :: nat" and ?n = "unat (mn_QuitBlock info)"
  have n: "?n < 2 ^ 64" using unsigned_less [of "mn_QuitBlock info"] by simp
  have q: "rlp_ref (RlpBool (mn_IsQuit info)) = ref_uint ?q" by (simp add: ref_uint_def)
  let ?c = "ref_uint ?q @ ref_uint ?n"
  have "length (ref_uint ?n) \<le> 9" using length_putint_bounds [OF n] by (simp add: ref_uint_def)
  moreover have "length (ref_uint ?q) = 1" by (simp add: ref_uint_def)
  ultimately have len: "length ?c < 56" by simp
  then have "masternodeInfo_bytes info = ref_list ?c"
    unfolding masternodeInfo_bytes_def using q by (subst rlp_Encode_ref) (simp_all add: ref_list_def puthead_def)
  moreover have "rlp_SplitList (ref_list ?c) = Inr (?c, [])"
    using rlp_SplitList_ref [of ?c "[]"] len by simp
  moreover have "decodeUint ?c = Some (?q, ref_uint ?n)" by (rule decodeUint_ref) simp
  moreover have "decodeUint (ref_uint ?n) = Some (?n, [])" using decodeUint_ref [OF n, of "[]"] by simp
  ultimately show ?thesis by (simp add: masternodeInfo_of_def)
qed

lemma getInfo_ledger:
  assumes "is_ledger sha kv pfx M (wd_db w) V r"
  shows "\<exists>w'. getInfo (mpt_ops sha) sha addr w = (w', if data_at V MasternodeContractAddress (MustHash sha addr) = [] then Inr None
      else case masternodeInfo_of (data_at V MasternodeContractAddress (MustHash sha addr)) of None \<Rightarrow> Inl errUnmarshal | Some info \<Rightarrow> Inr (Some info))
    \<and> is_ledger sha kv pfx M (wd_db w') V r"
  using getter_refines(3) [OF assms, of MasternodeContractAddress "MustHash sha addr"] by (auto simp: getInfo_def)

lemma masternodeInfo_nonempty: "masternodeInfo_bytes info \<noteq> []"
  using masternodeInfo_roundtrip [of info] by (auto simp: masternodeInfo_of_def rlp_SplitList_def rlp_Split_def readKind_def)

text \<open>
  C25: The deposit of a masternode can be taken by anyone. Neither quitting nor recalling compares the sender with
  the address in the input. When an account has registered, any sender can make it quit, and any sender more than 8640
  blocks later gets the deposit.
\<close>

theorem masternode_theft:
  assumes "is_ledger sha kv pfx M (wd_db w) V r"
    and "data_at V MasternodeContractAddress (MustHash sha owner) = masternodeInfo_bytes info" and "\<not> mn_IsQuit info"
    and "V MasternodeContractAddress \<noteq> None" and "depositLimit \<le> balance V MasternodeContractAddress"
    and "quitCmd (mpt_ops sha) sha owner ctx1 w = (w1, res1)" and "recallCmd (mpt_ops sha) sha owner ctx2 w1 = (w2, res2)"
    and "recallDistanceLimit < bh_Height (cx_header ctx2) - bh_Height (cx_header ctx1)"
    and "thief = cx_From ctx2" and "V thief \<noteq> None" and "thief \<noteq> MasternodeContractAddress"
  shows "res1 = Inr [] \<and> res2 = Inr []
    \<and> (\<exists>V2. is_ledger sha kv pfx M (wd_db w2) V2 r \<and> balance V2 thief = balance V thief + depositLimit
          \<and> balance V2 MasternodeContractAddress = balance V MasternodeContractAddress - depositLimit
          \<and> data_at V2 MasternodeContractAddress (MustHash sha owner) = [])"
proof -
  let ?A = MasternodeContractAddress and ?T = "mpt_ops sha" and ?k = "MustHash sha owner"
  let ?info1 = "\<lparr>mn_IsQuit = True, mn_QuitBlock = bh_Height (cx_header ctx1)\<rparr>"
  obtain wa where wa: "getInfo ?T sha owner w = (wa, Inr (Some info))" "is_ledger sha kv pfx M (wd_db wa) V r"
    using getInfo_ledger [OF assms(1), of owner] assms(2) by (auto simp: masternodeInfo_nonempty masternodeInfo_roundtrip)
  let ?V1 = "store_at ?A ?k (masternodeInfo_bytes ?info1) V"
  have w1: "w1 = saveInfo ?T sha owner ?info1 wa" "res1 = Inr []" using assms(3,6) wa(1) by (auto simp: quitCmd_def)
  have L1: "is_ledger sha kv pfx M (wd_db w1) ?V1 r" using data_refines [OF wa(2)] by (simp add: w1 saveInfo_def)
  obtain wb where wb: "getInfo ?T sha owner w1 = (wb, Inr (Some ?info1))" "is_ledger sha kv pfx M (wd_db wb) ?V1 r"
    using getInfo_ledger [OF L1, of owner] assms(4) by (auto simp: masternodeInfo_nonempty masternodeInfo_roundtrip)
  let ?V2 = "credit thief depositLimit (debit ?A depositLimit (store_at ?A ?k [] ?V1))"
  have w2: "w2 = wb\<lparr>wd_db := AddBalance ?T sha thief depositLimit (SubBalance ?T sha ?A depositLimit (SetData ?T sha ?A ?k [] (wd_db wb)))\<rparr>"
    "res2 = Inr []" using assms(7,8,9) wb(1) by (auto simp: recallCmd_def Let_def)
  have L2: "is_ledger sha kv pfx M (wd_db w2) ?V2 r"
    using balance_refines(1) [OF balance_refines(2) [OF data_refines [OF wb(2)]]] by (simp add: w2)
  have "0 \<le> depositLimit" by (simp add: depositLimit_def SeeleToFan_def)
  moreover have "0 \<le> balance V thief" by (rule ledger_nonneg [OF assms(1)])
  ultimately have "balance ?V2 thief = balance V thief + depositLimit" "balance ?V2 ?A = balance V ?A - depositLimit" "data_at ?V2 ?A ?k = []"
    using assms(4,5,10,11) by auto
  then show ?thesis using w1(2) w2(2) L2 by blast
qed

section \<open>Hash time locks\<close>

text \<open>The law of the JSON codec that the contract relies on.\<close>

definition json_law :: "json_ops \<Rightarrow> bool" where
  "json_law J \<longleftrightarrow> (\<forall>x b. js_of_htlc J x = Some b \<longrightarrow> b \<noteq> [] \<and> js_htlc J b = Some x)"

datatype lock_cmd = NewLock bytes | Withdraw bytes | Refund bytes

definition lock_exec ::
  "json_ops \<Rightarrow> (bytes \<Rightarrow> bytes) \<Rightarrow> 't trie_ops \<Rightarrow> (bytes \<Rightarrow> bytes) \<Rightarrow> lock_cmd \<Rightarrow> sys_ctx \<Rightarrow> 't world \<Rightarrow> 't sys_result" where
  "lock_exec J f T sha c ctx w =
     (case c of NewLock i \<Rightarrow> newHTLC J T sha i ctx w | Withdraw i \<Rightarrow> withdraw J f T sha i ctx w | Refund i \<Rightarrow> refund J T sha i ctx w)"

text \<open>The lock a command pays out, if it succeeds.\<close>

definition pays :: "json_ops \<Rightarrow> lock_cmd \<Rightarrow> hash \<Rightarrow> bool" where
  "pays J c h \<longleftrightarrow>
     (case c of NewLock i \<Rightarrow> False | Withdraw i \<Rightarrow> (case js_Withdrawing J i of None \<Rightarrow> False | Some x \<Rightarrow> wi_Hash x = h) | Refund i \<Rightarrow> BytesToHash i = h)"

primrec payouts ::
  "json_ops \<Rightarrow> (bytes \<Rightarrow> bytes) \<Rightarrow> 't trie_ops \<Rightarrow> (bytes \<Rightarrow> bytes) \<Rightarrow> hash \<Rightarrow> (lock_cmd \<times> sys_ctx) list \<Rightarrow> 't world \<Rightarrow> nat" where
  "payouts J f T sha h [] w = 0"
| "payouts J f T sha h (x # xs) w =
     (case lock_exec J f T sha (fst x) (snd x) w of
        (w', res) \<Rightarrow> (if pays J (fst x) h \<and> \<not> isl res then 1 else 0) + payouts J f T sha h xs w')"

abbreviation locks :: "ledger \<Rightarrow> hash \<Rightarrow> bytes" where "locks V \<equiv> data_at V HashTimeLockContractAddress"

lemma haveContract_ledger:
  assumes "is_ledger sha kv pfx M (wd_db w) V r"
  shows "\<exists>w'. haveContract (mpt_ops sha) sha h w = (w', if locks V h = [] then Inl errNotFound else Inr (locks V h))
    \<and> is_ledger sha kv pfx M (wd_db w') V r"
  using getter_refines(3) [OF assms, of HashTimeLockContractAddress h] by (auto simp: haveContract_def)

text \<open>Paying out a lock: the entry is replaced, the amount moves, nothing else is stored.\<close>

lemma payment_ledger:
  assumes "is_ledger sha kv pfx M s V r" "V HashTimeLockContractAddress \<noteq> None"
  shows "\<exists>V'. is_ledger sha kv pfx M (AddBalance (mpt_ops sha) sha a n (SubBalance (mpt_ops sha) sha b n
      (SetData (mpt_ops sha) sha HashTimeLockContractAddress k v s))) V' r
    \<and> V' HashTimeLockContractAddress \<noteq> None \<and> locks V' = (locks V)(k := v)"
  using balance_refines(1) [OF balance_refines(2) [OF data_refines [OF assms(1)]]] assms(2)
  by (intro exI conjI) (assumption, auto simp: fun_eq_iff)

definition lock_at :: "json_ops \<Rightarrow> ledger \<Rightarrow> hash \<Rightarrow> htlc \<Rightarrow> bool" where
  "lock_at J V h info \<longleftrightarrow> locks V h \<noteq> [] \<and> js_htlc J (locks V h) = Some info"

lemma newHTLC_result:
  assumes "newHTLC J T sha i ctx w = (w', res)"
  shows "isl res \<and> w' = w \<or> \<not> isl res \<and> (\<exists>info v. ht_Tx info = cx_tx ctx \<and> js_of_htlc J info = Some v
    \<and> wd_db w' = SetData T sha HashTimeLockContractAddress (tx_Hash (cx_tx ctx)) v (CreateAccount T sha HashTimeLockContractAddress (wd_db w)))"
proof (cases "js_HashTimeLock J i")
  case None
  then show ?thesis using assms by (auto simp: newHTLC_def)
next
  case (Some hl)
  let ?info = "\<lparr>ht_Tx = cx_tx ctx, ht_HashLock = hl_HashLock hl, ht_TimeLock = hl_TimeLock hl,
    ht_To = hl_To hl, ht_Refunded = False, ht_Withdrawed = False, ht_Preimage = []\<rparr>"
  have i: "ht_Tx ?info = cx_tx ctx" by simp
  show ?thesis
  proof (cases "js_of_htlc J ?info")
    case None
    then show ?thesis using assms Some by (auto simp: newHTLC_def split: if_splits)
  next
    case v: (Some v)
    have "isl res \<and> w' = w \<or> \<not> isl res \<and>
        wd_db w' = SetData T sha HashTimeLockContractAddress (tx_Hash (cx_tx ctx)) v (CreateAccount T sha HashTimeLockContractAddress (wd_db w))"
      using assms Some v by (auto simp: newHTLC_def split: if_splits)
    then show ?thesis using i v by blast
  qed
qed

lemma lock_step:
  assumes J: "json_law J" and L: "is_ledger sha kv pfx M (wd_db w) V r" and A: "V HashTimeLockContractAddress \<noteq> None"
    and x: "lock_exec J f (mpt_ops sha) sha c ctx w = (w', res)"
  shows "\<exists>V'. is_ledger sha kv pfx M (wd_db w') V' r \<and> V' HashTimeLockContractAddress \<noteq> None
    \<and> (if isl res then locks V' = locks V
        else case c of
          NewLock i \<Rightarrow> \<exists>info. ht_Tx info = cx_tx ctx \<and> lock_at J V' (tx_Hash (cx_tx ctx)) info \<and> (\<forall>k. k \<noteq> tx_Hash (cx_tx ctx) \<longrightarrow> locks V' k = locks V k)
        | Withdraw i \<Rightarrow> \<exists>inp info. js_Withdrawing J i = Some inp \<and> lock_at J V (wi_Hash inp) info \<and> cx_now ctx < ht_TimeLock info \<and> \<not> ht_Withdrawed info
            \<and> lock_at J V' (tx_Hash (ht_Tx info)) (info\<lparr>ht_Preimage := wi_Preimage inp, ht_Withdrawed := True\<rparr>)
            \<and> (\<forall>k. k \<noteq> tx_Hash (ht_Tx info) \<longrightarrow> locks V' k = locks V k)
        | Refund i \<Rightarrow> \<exists>info. lock_at J V (BytesToHash i) info \<and> ht_TimeLock info \<le> cx_now ctx \<and> \<not> ht_Withdrawed info \<and> \<not> ht_Refunded info
            \<and> lock_at J V' (tx_Hash (ht_Tx info)) (info\<lparr>ht_Refunded := True\<rparr>) \<and> (\<forall>k. k \<noteq> tx_Hash (ht_Tx info) \<longrightarrow> locks V' k = locks V k))"
proof (cases c)
  case (NewLock i)
  then have x': "newHTLC J (mpt_ops sha) sha i ctx w = (w', res)" using x by (simp add: lock_exec_def)
  show ?thesis
  proof (cases "isl res")
    case True
    then show ?thesis using newHTLC_result [OF x'] L A by auto
  next
    case False
    then obtain info v where v: "ht_Tx info = cx_tx ctx" "js_of_htlc J info = Some v"
      "wd_db w' = SetData (mpt_ops sha) sha HashTimeLockContractAddress (tx_Hash (cx_tx ctx)) v
         (CreateAccount (mpt_ops sha) sha HashTimeLockContractAddress (wd_db w))"
      using newHTLC_result [OF x'] by blast
    have o: "open_account sha M HashTimeLockContractAddress V = V" using A by (auto simp: open_account_def)
    let ?V' = "store_at HashTimeLockContractAddress (tx_Hash (cx_tx ctx)) v V"
    have "is_ledger sha kv pfx M (wd_db w') ?V' r" unfolding v(3)
      using data_refines [OF create_refines [OF L, of HashTimeLockContractAddress, unfolded o]] .
    moreover have "lock_at J ?V' (tx_Hash (cx_tx ctx)) info" using v(2) J A by (simp add: lock_at_def json_law_def)
    moreover have "\<forall>k. k \<noteq> tx_Hash (cx_tx ctx) \<longrightarrow> locks ?V' k = locks V k" "?V' HashTimeLockContractAddress \<noteq> None" using A by simp_all
    ultimately show ?thesis unfolding NewLock lock_cmd.case if_not_P [OF False] using v(1) by blast
  qed
next
  case (Withdraw i)
  show ?thesis
  proof (cases "js_Withdrawing J i")
    case None
    then show ?thesis using x Withdraw L A by (auto simp: lock_exec_def withdraw_def)
  next
    case (Some inp)
    obtain w1 where w1: "haveContract (mpt_ops sha) sha (wi_Hash inp) w = (w1, if locks V (wi_Hash inp) = [] then Inl errNotFound else Inr (locks V (wi_Hash inp)))"
      "is_ledger sha kv pfx M (wd_db w1) V r" using haveContract_ledger [OF L] by blast
    show ?thesis
    proof (cases "isl res")
      case True
      then have "w' = w1" using x Withdraw Some w1(1)
        by (auto simp: lock_exec_def withdraw_def split: option.splits if_splits)
      then show ?thesis using w1(2) A True by auto
    next
      case False
      then obtain info v where v: "lock_at J V (wi_Hash inp) info" "withdrawable info ctx = None"
        "js_of_htlc J (info\<lparr>ht_Preimage := wi_Preimage inp, ht_Withdrawed := True\<rparr>) = Some v"
        "wd_db w' = AddBalance (mpt_ops sha) sha (ht_To info) (ht_Amount info) (SubBalance (mpt_ops sha) sha (cx_To ctx) (ht_Amount info)
          (SetData (mpt_ops sha) sha HashTimeLockContractAddress (tx_Hash (ht_Tx info)) v (wd_db w1)))"
        using x Withdraw Some w1(1) by (auto simp: lock_exec_def withdraw_def lock_at_def split: option.splits if_splits)
      obtain V' where V': "is_ledger sha kv pfx M (wd_db w') V' r" "V' HashTimeLockContractAddress \<noteq> None" "locks V' = (locks V)(tx_Hash (ht_Tx info) := v)"
        using payment_ledger [OF w1(2) A] v(4) by metis
      show ?thesis
        using V' v False J Some Withdraw
        by (intro exI [of _ V']) (auto simp: lock_at_def json_law_def withdrawable_def isFutureTimeLock_def split: if_splits)
    qed
  qed
next
  case (Refund i)
  obtain w1 where w1: "haveContract (mpt_ops sha) sha (BytesToHash i) w = (w1, if locks V (BytesToHash i) = [] then Inl errNotFound else Inr (locks V (BytesToHash i)))"
    "is_ledger sha kv pfx M (wd_db w1) V r" using haveContract_ledger [OF L] by blast
  show ?thesis
  proof (cases "isl res")
    case True
    then have "w' = w1" using x Refund w1(1) by (auto simp: lock_exec_def refund_def split: option.splits if_splits)
    then show ?thesis using w1(2) A True by auto
  next
    case False
    then obtain info v where v: "lock_at J V (BytesToHash i) info" "refundable info ctx = None"
      "js_of_htlc J (info\<lparr>ht_Refunded := True\<rparr>) = Some v"
      "wd_db w' = AddBalance (mpt_ops sha) sha (td_From (tx_Data (ht_Tx info))) (ht_Amount info) (SubBalance (mpt_ops sha) sha (cx_To ctx) (ht_Amount info)
        (SetData (mpt_ops sha) sha HashTimeLockContractAddress (tx_Hash (ht_Tx info)) v (wd_db w1)))"
      using x Refund w1(1) by (auto simp: lock_exec_def refund_def lock_at_def split: option.splits if_splits)
    obtain V' where V': "is_ledger sha kv pfx M (wd_db w') V' r" "V' HashTimeLockContractAddress \<noteq> None" "locks V' = (locks V)(tx_Hash (ht_Tx info) := v)"
      using payment_ledger [OF w1(2) A] v(4) by metis
    show ?thesis
      using V' v False J Refund
      by (intro exI [of _ V']) (auto simp: lock_at_def json_law_def refundable_def isFutureTimeLock_def split: if_splits)
  qed
qed

text \<open>Every lock is stored under the hash of the transaction that made it.\<close>

definition locks_ok :: "json_ops \<Rightarrow> ledger \<Rightarrow> bool" where
  "locks_ok J V \<longleftrightarrow> (\<forall>h info. lock_at J V h info \<longrightarrow> tx_Hash (ht_Tx info) = h)"

text \<open>A lock that has paid, given the time of the last block.\<close>

definition closed :: "int \<Rightarrow> htlc \<Rightarrow> bool" where
  "closed now info \<longleftrightarrow> ht_Withdrawed info \<or> ht_Refunded info \<and> ht_TimeLock info \<le> now"

lemma lock_at_unique: "lock_at J V h a \<Longrightarrow> lock_at J V h b \<Longrightarrow> a = b"
  by (simp add: lock_at_def)

lemma lock_at_cong: "locks V' h = locks V h \<Longrightarrow> lock_at J V' h info = lock_at J V h info"
  by (simp add: lock_at_def)

lemma lock_progress:
  assumes J: "json_law J" and L: "is_ledger sha kv pfx M (wd_db w) V r" and A: "V HashTimeLockContractAddress \<noteq> None"
    and ok: "locks_ok J V" and h: "lock_at J V h info"
    and new: "\<forall>i. c = NewLock i \<longrightarrow> tx_Hash (cx_tx ctx) \<noteq> h"
    and x: "lock_exec J f (mpt_ops sha) sha c ctx w = (w', res)"
  obtains V' info' where "is_ledger sha kv pfx M (wd_db w') V' r" "V' HashTimeLockContractAddress \<noteq> None" "locks_ok J V'"
    "lock_at J V' h info'" "ht_TimeLock info' = ht_TimeLock info" "ht_Withdrawed info \<longrightarrow> ht_Withdrawed info'" "ht_Refunded info \<longrightarrow> ht_Refunded info'"
    "pays J c h \<longrightarrow> \<not> isl res \<longrightarrow> closed (cx_now ctx) info'" "pays J c h \<longrightarrow> \<not> isl res \<longrightarrow> now \<le> cx_now ctx \<longrightarrow> \<not> closed now info"
proof -
  obtain V' where V': "is_ledger sha kv pfx M (wd_db w') V' r" "V' HashTimeLockContractAddress \<noteq> None"
    and e: "if isl res then locks V' = locks V
        else case c of
          NewLock i \<Rightarrow> \<exists>info. ht_Tx info = cx_tx ctx \<and> lock_at J V' (tx_Hash (cx_tx ctx)) info \<and> (\<forall>k. k \<noteq> tx_Hash (cx_tx ctx) \<longrightarrow> locks V' k = locks V k)
        | Withdraw i \<Rightarrow> \<exists>inp info. js_Withdrawing J i = Some inp \<and> lock_at J V (wi_Hash inp) info \<and> cx_now ctx < ht_TimeLock info \<and> \<not> ht_Withdrawed info
            \<and> lock_at J V' (tx_Hash (ht_Tx info)) (info\<lparr>ht_Preimage := wi_Preimage inp, ht_Withdrawed := True\<rparr>)
            \<and> (\<forall>k. k \<noteq> tx_Hash (ht_Tx info) \<longrightarrow> locks V' k = locks V k)
        | Refund i \<Rightarrow> \<exists>info. lock_at J V (BytesToHash i) info \<and> ht_TimeLock info \<le> cx_now ctx \<and> \<not> ht_Withdrawed info \<and> \<not> ht_Refunded info
            \<and> lock_at J V' (tx_Hash (ht_Tx info)) (info\<lparr>ht_Refunded := True\<rparr>) \<and> (\<forall>k. k \<noteq> tx_Hash (ht_Tx info) \<longrightarrow> locks V' k = locks V k)"
    using lock_step [OF J L A x] by blast
  have same: "lock_at J V' k i = lock_at J V k i" if "locks V' k = locks V k" for k i using that by (rule lock_at_cong)
  have upd: "locks_ok J V'" if k: "lock_at J V' k i" "tx_Hash (ht_Tx i) = k" and o: "\<forall>j. j \<noteq> k \<longrightarrow> locks V' j = locks V j" for k i
    unfolding locks_ok_def using ok same o lock_at_unique [OF k(1)] k(2) by (metis locks_ok_def)
  show thesis
  proof (cases "isl res")
    case True
    then have "locks V' = locks V" using e by simp
    then have "locks_ok J V'" "lock_at J V' h info" using ok h same by (auto simp: locks_ok_def)
    then show thesis using that [OF V'] True by blast
  next
    case False
    show thesis
    proof (cases c)
      case (NewLock i)
      then obtain i2 where i2: "ht_Tx i2 = cx_tx ctx" "lock_at J V' (tx_Hash (cx_tx ctx)) i2" "\<forall>k. k \<noteq> tx_Hash (cx_tx ctx) \<longrightarrow> locks V' k = locks V k"
        using e False by auto
      have "locks_ok J V'" using upd [OF i2(2) _ i2(3)] i2(1) by simp
      moreover have "lock_at J V' h info" using h same i2(3) new NewLock by metis
      ultimately show thesis using that [OF V'] NewLock by (auto simp: pays_def)
    next
      case (Withdraw i)
      then obtain inp i2 where i2: "js_Withdrawing J i = Some inp" "lock_at J V (wi_Hash inp) i2" "cx_now ctx < ht_TimeLock i2" "\<not> ht_Withdrawed i2"
        "lock_at J V' (tx_Hash (ht_Tx i2)) (i2\<lparr>ht_Preimage := wi_Preimage inp, ht_Withdrawed := True\<rparr>)"
        "\<forall>k. k \<noteq> tx_Hash (ht_Tx i2) \<longrightarrow> locks V' k = locks V k" using e False by auto
      have k: "tx_Hash (ht_Tx i2) = wi_Hash inp" using ok i2(2) by (auto simp: locks_ok_def)
      have l: "locks_ok J V'" using upd [OF i2(5) _ i2(6)] by simp
      show thesis
      proof (cases "wi_Hash inp = h")
        case True
        then have "i2 = info" using lock_at_unique [OF i2(2)] h by simp
        then show thesis using that [OF V' l i2(5) [unfolded k True]] i2(3,4) by (auto simp: closed_def)
      next
        case ne: False
        then have "lock_at J V' h info" using h same i2(6) k by metis
        then show thesis using that [OF V' l] Withdraw ne i2(1) by (auto simp: pays_def)
      qed
    next
      case (Refund i)
      then obtain i2 where i2: "lock_at J V (BytesToHash i) i2" "ht_TimeLock i2 \<le> cx_now ctx" "\<not> ht_Withdrawed i2" "\<not> ht_Refunded i2"
        "lock_at J V' (tx_Hash (ht_Tx i2)) (i2\<lparr>ht_Refunded := True\<rparr>)"
        "\<forall>k. k \<noteq> tx_Hash (ht_Tx i2) \<longrightarrow> locks V' k = locks V k" using e False by auto
      have k: "tx_Hash (ht_Tx i2) = BytesToHash i" using ok i2(1) by (auto simp: locks_ok_def)
      have l: "locks_ok J V'" using upd [OF i2(5) _ i2(6)] by simp
      show thesis
      proof (cases "BytesToHash i = h")
        case True
        then have "i2 = info" using lock_at_unique [OF i2(1)] h by simp
        then show thesis using that [OF V' l i2(5) [unfolded k True]] i2(2,3,4) by (auto simp: closed_def)
      next
        case ne: False
        then have "lock_at J V' h info" using h same i2(6) k by metis
        then show thesis using that [OF V' l] Refund ne by (auto simp: pays_def)
      qed
    qed
  qed
qed

lemma payouts_bound:
  assumes J: "json_law J"
  shows "is_ledger sha kv pfx M (wd_db w) V r \<Longrightarrow> V HashTimeLockContractAddress \<noteq> None \<Longrightarrow> locks_ok J V \<Longrightarrow> lock_at J V h info \<Longrightarrow>
    sorted (now # map (cx_now \<circ> snd) cmds) \<Longrightarrow> (\<forall>i ctx. (NewLock i, ctx) \<in> set cmds \<longrightarrow> tx_Hash (cx_tx ctx) \<noteq> h) \<Longrightarrow>
    payouts J f (mpt_ops sha) sha h cmds w \<le> (if closed now info then 0 else 1)"
proof (induction cmds arbitrary: w V info now)
  case Nil
  then show ?case by simp
next
  case (Cons x cmds)
  obtain c ctx where x: "x = (c, ctx)" by fastforce
  obtain w' res where e: "lock_exec J f (mpt_ops sha) sha c ctx w = (w', res)" by fastforce
  have n: "\<forall>i. c = NewLock i \<longrightarrow> tx_Hash (cx_tx ctx) \<noteq> h" using Cons.prems(6) x by auto
  have t: "now \<le> cx_now ctx" using Cons.prems(5) x by simp
  obtain V' info' where V': "is_ledger sha kv pfx M (wd_db w') V' r" "V' HashTimeLockContractAddress \<noteq> None" "locks_ok J V'" "lock_at J V' h info'"
    and i: "ht_TimeLock info' = ht_TimeLock info" "ht_Withdrawed info \<longrightarrow> ht_Withdrawed info'" "ht_Refunded info \<longrightarrow> ht_Refunded info'"
    and p: "pays J c h \<longrightarrow> \<not> isl res \<longrightarrow> closed (cx_now ctx) info'" "pays J c h \<longrightarrow> \<not> isl res \<longrightarrow> now \<le> cx_now ctx \<longrightarrow> \<not> closed now info"
    by (rule lock_progress [OF J Cons.prems(1-4) n e, where now = now])
  have "payouts J f (mpt_ops sha) sha h cmds w' \<le> (if closed (cx_now ctx) info' then 0 else 1)"
    using Cons.IH [OF V'] Cons.prems(5,6) x by auto
  moreover have "closed now info \<Longrightarrow> closed (cx_now ctx) info'" using i t by (auto simp: closed_def)
  ultimately show ?case using p t e x by (auto split: if_splits)
qed

text \<open>
  C21: A hash time lock pays at most once. Through any sequence of commands of the contract whose block times never
  decrease, with any senders and inputs, the lock made by a transaction is paid out, to the receiver or back
  to its owner, at most once, as long as that transaction does not make it again. A lock that was
  withdrawn, or refunded by the time of the first command, is not paid again. The JSON codec is assumed to
  give back what it encodes.
\<close>

theorem htlc_pays_once:
  assumes "json_law J" and "is_ledger sha kv pfx M (wd_db w) V r" and "V HashTimeLockContractAddress \<noteq> None"
    and "locks_ok J V" and "lock_at J V h info" and "sorted (now # map (cx_now \<circ> snd) cmds)"
    and "\<forall>i ctx. (NewLock i, ctx) \<in> set cmds \<longrightarrow> tx_Hash (cx_tx ctx) \<noteq> h"
  shows "payouts J f (mpt_ops sha) sha h cmds w \<le> 1
    \<and> (ht_Withdrawed info \<or> ht_Refunded info \<and> ht_TimeLock info \<le> now \<longrightarrow> payouts J f (mpt_ops sha) sha h cmds w = 0)"
  using payouts_bound [OF assms, where f = f] by (auto simp: closed_def split: if_splits)

section \<open>The relay of Bitcoin blocks\<close>

lemma getBTCBlocks_ledger:
  assumes "is_ledger sha kv pfx M (wd_db w) V r"
  shows "\<exists>w'. getBTCBlocks J (mpt_ops sha) sha w
      = (w', case js_blocks J (data_at V BTCRelayContractAddress keyBlocksHash) of None \<Rightarrow> Map.empty | Some m \<Rightarrow> m)
    \<and> is_ledger sha kv pfx M (wd_db w') V r \<and> wd_preBlockHeight w' = wd_preBlockHeight w"
  using getter_refines(3) [OF assms, of BTCRelayContractAddress keyBlocksHash] by (auto simp: getBTCBlocks_def)

text \<open>
  C26: The relay accepts a Bitcoin block that has no confirmation. After a header at height 6 or more has been stored,
  its own transactions verify at once, and the sender's amount goes to the relayer; when the latest stored
  height is more than six above that of the block, so that it has its confirmations, the same request is refused with the error that asks for more of
  them. The JSON codec is assumed to give back the block table it encodes.
\<close>

theorem relay_confirmations_reversed:
  fixes later :: uint64
  assumes "is_ledger sha kv pfx M (wd_db w) V r" and "V BTCRelayContractAddress \<noteq> None"
    and "\<forall>m b. js_of_blocks J m = Some b \<longrightarrow> js_blocks J b = Some m"
    and "storeBlockHeader J (mpt_ops sha) sha request ctx w = (w1, Inr success)" and "js_RelayRequest J request = Some req"
    and "6 \<le> bb_Height (rr_BTCBlock req)" and "rr_TxHex req \<in> set (bb_TxHexs (rr_BTCBlock req))"
    and "relay_fee \<le> Uint64 (cx_Amount ctx2)" and "0 \<le> cx_Amount ctx2" and "V (cx_From ctx) \<noteq> None" and "cx_From ctx \<noteq> BTCRelayContractAddress"
    and "6 \<le> later" and "bb_Height (rr_BTCBlock req) < later - 6"
  shows "(\<exists>w2 V2. verifyTx J (mpt_ops sha) sha request ctx2 w1 = (w2, Inr success) \<and> is_ledger sha kv pfx M (wd_db w2) V2 r
      \<and> balance V2 (cx_From ctx) = balance V (cx_From ctx) + cx_Amount ctx2)
    \<and> snd (verifyTx J (mpt_ops sha) sha request ctx2 (w1\<lparr>wd_preBlockHeight := later\<rparr>))
      = Inl (errConfirmations later (bb_Height (rr_BTCBlock req)))"
proof -
  let ?A = BTCRelayContractAddress and ?T = "mpt_ops sha" and ?blk = "(rr_BTCBlock req)\<lparr>bb_Relayer := cx_From ctx\<rparr>"
  let ?key = "bb_BlockHeaderHex (rr_BTCBlock req)"
  obtain wa m where wa: "getBTCBlocks J ?T sha w = (wa, m)" "is_ledger sha kv pfx M (wd_db wa) V r"
    using getBTCBlocks_ledger [OF assms(1), of J] by blast
  obtain b where b: "js_of_blocks J (m(?key \<mapsto> ?blk)) = Some b"
    "w1 = wa\<lparr>wd_preBlockHeight := bb_Height (rr_BTCBlock req), wd_db := SetData ?T sha ?A keyBlocksHash b (wd_db wa)\<rparr>"
    using assms(4,5) wa(1) by (auto simp: storeBlockHeader_def Let_def split: if_splits option.splits)
  let ?V1 = "store_at ?A keyBlocksHash b V"
  have L1: "is_ledger sha kv pfx M (wd_db (w1\<lparr>wd_preBlockHeight := h\<rparr>)) ?V1 r" for h using data_refines [OF wa(2)] by (simp add: b(2))
  have d: "js_blocks J (data_at ?V1 ?A keyBlocksHash) = Some (m(?key \<mapsto> ?blk))" using assms(2,3) b(1) by simp
  have get: "\<exists>wb. getBTCBlocks J ?T sha (w1\<lparr>wd_preBlockHeight := h\<rparr>) = (wb, m(?key \<mapsto> ?blk)) \<and> is_ledger sha kv pfx M (wd_db wb) ?V1 r
      \<and> wd_preBlockHeight wb = h" for h
    using getBTCBlocks_ledger [OF L1, of J h] unfolding d by simp
  have f: "\<not> Uint64 (cx_Amount ctx2) < relay_fee" using assms(8) by simp
  have same: "w1\<lparr>wd_preBlockHeight := bb_Height (rr_BTCBlock req)\<rparr> = w1" by (simp add: b(2))
  obtain wb where wb: "getBTCBlocks J ?T sha w1 = (wb, m(?key \<mapsto> ?blk))" "is_ledger sha kv pfx M (wd_db wb) ?V1 r" "wd_preBlockHeight wb = bb_Height (rr_BTCBlock req)"
    using get [of "bb_Height (rr_BTCBlock req)"] unfolding same by blast
  have h: "\<not> (bb_Height (rr_BTCBlock req) < btcConfirm \<or> bb_Height (rr_BTCBlock req) < bb_Height (rr_BTCBlock req) - btcConfirm)"
    using assms(6) unfolding btcConfirm_def by unat_arith
  have v: "verifyTx J ?T sha request ctx2 w1 = (pay_relayer ?T sha ?blk ctx2 wb, Inr success)"
    using assms(5,7) f h by (simp add: verifyTx_def wb Let_def)
  let ?V2 = "debit ?A (cx_Amount ctx2) (credit (cx_From ctx) (cx_Amount ctx2) ?V1)"
  have L2: "is_ledger sha kv pfx M (wd_db (pay_relayer ?T sha ?blk ctx2 wb)) ?V2 r"
    using balance_refines(2) [OF balance_refines(1) [OF wb(2)]] by (simp add: pay_relayer_def)
  have "0 \<le> balance V (cx_From ctx)" by (rule ledger_nonneg [OF assms(1)])
  then have "balance ?V2 (cx_From ctx) = balance V (cx_From ctx) + cx_Amount ctx2"
    using assms(2,9,10,11) by simp
  moreover obtain wc where "getBTCBlocks J ?T sha (w1\<lparr>wd_preBlockHeight := later\<rparr>) = (wc, m(?key \<mapsto> ?blk))" "wd_preBlockHeight wc = later"
    using get by blast
  then have "snd (verifyTx J ?T sha request ctx2 (w1\<lparr>wd_preBlockHeight := later\<rparr>)) = Inl (errConfirmations later (bb_Height (rr_BTCBlock req)))"
    using assms(5,13) f by (simp add: verifyTx_def Let_def btcConfirm_def)
  ultimately show ?thesis using v L2 by blast
qed

end
