(* ===== verification/Svm.thy ===== *)
theory Svm
  imports System
begin

text \<open>
  Transaction processing (\<open>src/core/svm/svm.go\<close>), the fee model (\<open>src/core/svm/fee.go\<close>), rewards
  (\<open>src/consensus/reward.go\<close>, \<open>src/core/txs/tx_reward.go\<close>) and the application of the debts and transactions
  of a block (\<open>src/core/blockchain.go\<close>). The virtual machine gets as many rounds as it has gas, and one more,
  which is enough. Orders of map iteration, block hashes by height and the texts of errors are arguments.
\<close>

section \<open>Processing a transaction\<close>

datatype svm_error =
    SvTx tx_error | SvVm vm_error | SvSys sys_error | SvState state_error | SvDebtPacked | SvReward | SvPanic

record 't svm_env =
  se_ShardCount :: nat
  se_Local :: nat
  se_ops :: "'t trie_ops"
  se_sha :: "bytes \<Rightarrow> bytes"
  se_crypto :: crypto_ops
  se_json :: json_ops
  se_GetHash :: "BlockHeader \<Rightarrow> uint64 \<Rightarrow> hash"
  se_order :: "'t statedb \<Rightarrow> (address \<Rightarrow> hash list) \<times> address list"
  se_Error :: "svm_error \<Rightarrow> bytes"

record svm_ctx =
  sv_Tx :: Transaction
  sv_TxIndex :: uint64
  sv_BlockHeader :: BlockHeader

definition sv_From :: "svm_ctx \<Rightarrow> address" where "sv_From ctx = td_From (tx_Data (sv_Tx ctx))"
definition sv_To :: "svm_ctx \<Rightarrow> address" where "sv_To ctx = td_To (tx_Data (sv_Tx ctx))"

text \<open>\<open>ValidateState\<close> has already panicked on a nil amount or price.\<close>

definition sv_Amount :: "svm_ctx \<Rightarrow> int" where
  "sv_Amount ctx = (case td_Amount (tx_Data (sv_Tx ctx)) of None \<Rightarrow> 0 | Some n \<Rightarrow> n)"

definition sv_GasPrice :: "svm_ctx \<Rightarrow> int" where
  "sv_GasPrice ctx = (case td_GasPrice (tx_Data (sv_Tx ctx)) of None \<Rightarrow> 0 | Some n \<Rightarrow> n)"

definition SmartContractNonceForkHeight :: uint64 where "SmartContractNonceForkHeight = 1100000"

definition SubchainFeeAccount :: address where "SubchainFeeAccount = BytesToAddress [1]"

definition new_receipt :: "svm_ctx \<Rightarrow> Receipt" where
  "new_receipt ctx = \<lparr>rc_Result = [], rc_Failed = False, rc_UsedGas = 0, rc_PostState = EmptyHash, rc_Logs = [],
     rc_TxHash = tx_Hash (sv_Tx ctx), rc_ContractAddress = [], rc_TotalFee = 0\<rparr>"

definition with_db :: "('t statedb \<Rightarrow> 't statedb) \<Rightarrow> 't world \<Rightarrow> 't world" where
  "with_db f w = w\<lparr>wd_db := f (wd_db w)\<rparr>"

definition revertStatedb :: "'t svm_env \<Rightarrow> nat \<Rightarrow> svm_error \<Rightarrow> 't world \<Rightarrow> 't world \<times> svm_error" where
  "revertStatedb E snapshot err w =
     (case RevertToSnapshot (se_ops E) (se_sha E) snapshot (wd_db w) of
        Inl e \<Rightarrow> (w, SvPanic)
      | Inr s \<Rightarrow> (w\<lparr>wd_db := s\<rparr>, err))"

text \<open>\<open>SetNonce2(a, n, GetTxCount(a)+1)\<close> and \<open>SetNonce2(a, GetNonce(b), GetTxCount(b)+1)\<close>.\<close>

definition set_nonce_count :: "'t svm_env \<Rightarrow> address \<Rightarrow> uint64 \<Rightarrow> 't statedb \<Rightarrow> 't statedb" where
  "set_nonce_count E a n s =
     (case GetTxCount (se_ops E) (se_sha E) a s of (s1, c) \<Rightarrow> SetNonce2 (se_ops E) (se_sha E) a n (c + 1) s1)"

definition set_count_of :: "'t svm_env \<Rightarrow> address \<Rightarrow> address \<Rightarrow> 't statedb \<Rightarrow> 't statedb" where
  "set_count_of E a b s =
     (case GetNonce (se_ops E) (se_sha E) b s of
        (s1, n) \<Rightarrow> (case GetTxCount (se_ops E) (se_sha E) b s1 of (s2, c) \<Rightarrow> SetNonce2 (se_ops E) (se_sha E) a n (c + 1) s2))"

definition record_state :: "'t svm_env \<Rightarrow> nat \<Rightarrow> Receipt \<Rightarrow> 't world \<Rightarrow> 't world \<times> (svm_error + Receipt)" where
  "record_state E snapshot receipt w =
     (case se_order E (wd_db w) of
        (ord, as) \<Rightarrow>
          (case Statedb_Hash (se_ops E) (se_sha E) ord as (wd_db w) of
             (s, Inl e) \<Rightarrow> (case revertStatedb E snapshot (SvState e) (w\<lparr>wd_db := s\<rparr>) of (w', e') \<Rightarrow> (w', Inl e'))
           | (s, Inr h) \<Rightarrow> (w\<lparr>wd_db := s\<rparr>, Inr (receipt\<lparr>rc_PostState := h\<rparr>))))"

definition processCrossShardTransaction ::
  "'t svm_env \<Rightarrow> svm_ctx \<Rightarrow> nat \<Rightarrow> 't world \<Rightarrow> 't world \<times> (svm_error + Receipt)" where
  "processCrossShardTransaction E ctx snapshot w =
     (let T = se_ops E; sha = se_sha E;
          receipt = (new_receipt ctx)\<lparr>rc_UsedGas := CrossShardTotalGas\<rparr>;
          s1 = set_nonce_count E (sv_From ctx) (td_AccountNonce (tx_Data (sv_Tx ctx)) + 1) (wd_db w);
          s2 = set_count_of E (sv_To ctx) (sv_To ctx) s1
      in case GetBalance T sha (sv_From ctx) s2 of
           (s3, b) \<Rightarrow>
             if b < sv_Amount ctx
             then (case revertStatedb E snapshot (SvVm ErrInsufficientBalance) (w\<lparr>wd_db := s3\<rparr>) of (w', e) \<Rightarrow> (w', Inl e))
             else let s4 = SubBalance T sha (sv_From ctx) (sv_Amount ctx) s3;
                      txFee = sv_GasPrice ctx * uint (rc_UsedGas receipt)
                  in case GetBalance T sha (sv_From ctx) s4 of
                       (s5, b2) \<Rightarrow>
                         if b2 < txFee
                         then (case revertStatedb E snapshot (SvVm ErrInsufficientBalance) (w\<lparr>wd_db := s5\<rparr>) of (w', e) \<Rightarrow> (w', Inl e))
                         else let receipt1 = receipt\<lparr>rc_TotalFee := Uint64 txFee\<rparr>;
                                  s6 = SubBalance T sha (sv_From ctx) txFee s5;
                                  minerFee = sv_GasPrice ctx * uint CrossShardTransactionGas;
                                  s7 = AddBalance T sha (bh_Creator (sv_BlockHeader ctx)) minerFee s6
                              in record_state E snapshot receipt1 (w\<lparr>wd_db := s7\<rparr>))"

text \<open>The second \<open>SetNonce2\<close>, meant for the account of the contract, names the sender.\<close>

definition processSystemContract ::
  "'t svm_env \<Rightarrow> svm_ctx \<Rightarrow> 't commands \<Rightarrow> nat \<Rightarrow> uint64 \<Rightarrow> 't world \<Rightarrow> 't world \<times> Receipt \<times> svm_error option" where
  "processSystemContract E ctx cmds snapshot leftOverGas w =
     (let T = se_ops E; sha = se_sha E; receipt = new_receipt ctx; payload = td_Payload (tx_Data (sv_Tx ctx))
      in case Exist T sha (sv_To ctx) (wd_db w) of
           (s0, ex) \<Rightarrow>
             let s1 = (if ex then s0 else CreateAccount T sha (sv_To ctx) s0);
                 s2 = set_nonce_count E (sv_From ctx) (td_AccountNonce (tx_Data (sv_Tx ctx)) + 1) s1;
                 s3 = set_count_of E (sv_From ctx) (sv_To ctx) s2
             in case GetBalance T sha (sv_From ctx) s3 of
                  (s4, b) \<Rightarrow>
                    if b < sv_Amount ctx
                    then (case revertStatedb E snapshot (SvVm ErrInsufficientBalance) (w\<lparr>wd_db := s4\<rparr>) of
                            (w', e) \<Rightarrow> (w', receipt, Some e))
                    else let s5 = AddBalance T sha (sv_To ctx) (sv_Amount ctx) (SubBalance T sha (sv_From ctx) (sv_Amount ctx) s4);
                             w5 = w\<lparr>wd_db := s5\<rparr>;
                             receipt1 = receipt\<lparr>rc_UsedGas := contract_RequiredGas cmds payload\<rparr>
                         in if rc_UsedGas receipt1 > leftOverGas then (w5, receipt1, Some (SvVm ErrOutOfGas))
                            else case contract_Run cmds payload \<lparr>cx_tx = sv_Tx ctx, cx_header = sv_BlockHeader ctx\<rparr> w5 of
                                   (w6, Inl e) \<Rightarrow> (w6, receipt1, Some (if e = SysPanic then SvPanic else SvSys e))
                                 | (w6, Inr r) \<Rightarrow> (w6, receipt1\<lparr>rc_Result := r\<rparr>, None))"

text \<open>A header without time or difficulty would panic; a verified header has both.\<close>

definition newEVMContext :: "'t svm_env \<Rightarrow> svm_ctx \<Rightarrow> 't statedb env" where
  "newEVMContext E ctx =
     (let h = sv_BlockHeader ctx
      in defaultEnv (se_ShardCount E) (se_ops E) (se_sha E) (se_GetHash E h) (sv_From ctx) (bh_Creator h) (bh_Height h)
           (case bh_CreateTimestamp h of None \<Rightarrow> 0 | Some t \<Rightarrow> t) (case bh_Difficulty h of None \<Rightarrow> 0 | Some d \<Rightarrow> d) (se_crypto E))"

definition vm_result :: "vm_error option \<Rightarrow> svm_error option" where
  "vm_result err = map_option (\<lambda>e. if e = VmPanic then SvPanic else SvVm e) err"

definition processEvmContract ::
  "'t svm_env \<Rightarrow> svm_ctx \<Rightarrow> uint64 \<Rightarrow> 't world \<Rightarrow> 't world \<times> Receipt \<times> svm_error option" where
  "processEvmContract E ctx gas w =
     (let F = newEVMContext E ctx; loop = interp (Suc (unat gas)) F; data = tx_Data (sv_Tx ctx); receipt = new_receipt ctx
      in if Address_IsEmpty (sv_To ctx)
         then (case evm_Create loop F (NewEVM (wd_db w)) (sv_From ctx) (td_Payload data) gas (sv_Amount ctx) of
                 (ev, ret, createdContractAddr, leftOverGas, err) \<Rightarrow>
                   (w\<lparr>wd_db := ev_StateDB ev\<rparr>,
                    receipt\<lparr>rc_Result := ret,
                      rc_ContractAddress := (if Address_IsEmpty createdContractAddr then [] else createdContractAddr),
                      rc_UsedGas := gas - leftOverGas\<rparr>, vm_result err))
         else let s1 = set_nonce_count E (sv_From ctx) (td_AccountNonce data + 1) (wd_db w);
                  s2 = set_count_of E (sv_To ctx) (sv_To ctx) s1
              in case evm_Call loop F (NewEVM s2) (sv_From ctx) (sv_To ctx) (td_Payload data) gas (sv_Amount ctx) of
                   (ev, ret, leftOverGas, err) \<Rightarrow>
                     (w\<lparr>wd_db := ev_StateDB ev\<rparr>, receipt\<lparr>rc_Result := ret, rc_UsedGas := gas - leftOverGas\<rparr>, vm_result err))"

definition fee_account :: "svm_ctx \<Rightarrow> address" where
  "fee_account ctx =
     (if bh_Consensus (sv_BlockHeader ctx) \<noteq> BftConsensus then bh_Creator (sv_BlockHeader ctx) else SubchainFeeAccount)"

definition handleFee :: "'t svm_env \<Rightarrow> svm_ctx \<Rightarrow> Receipt \<Rightarrow> nat \<Rightarrow> 't world \<Rightarrow> 't world \<times> (svm_error + Receipt)" where
  "handleFee E ctx receipt snapshot w =
     (let totalFee = uint (rc_UsedGas receipt) * sv_GasPrice ctx;
          s1 = SubBalance (se_ops E) (se_sha E) (sv_From ctx) totalFee (wd_db w);
          s2 = AddBalance (se_ops E) (se_sha E) (fee_account ctx) totalFee s1
      in case record_state E snapshot (receipt\<lparr>rc_TotalFee := Uint64 totalFee\<rparr>) (w\<lparr>wd_db := s2\<rparr>) of
           (w', Inl e) \<Rightarrow> (w', Inl e)
         | (w', Inr r) \<Rightarrow> (w', Inr (r\<lparr>rc_Logs := sd_curLogs (wd_db w')\<rparr>)))"

text \<open>What \<open>Process\<close> does with a failed execution: revert, and after the fork note the nonces again.\<close>

definition failed_execution :: "'t svm_env \<Rightarrow> svm_ctx \<Rightarrow> uint64 \<Rightarrow> nat \<Rightarrow> 't world \<Rightarrow> 't world option" where
  "failed_execution E ctx height snapshot w =
     (if height \<le> SmartContractNonceForkHeight
      then (case RevertToSnapshot (se_ops E) (se_sha E) snapshot (wd_db w) of Inl e \<Rightarrow> None | Inr s \<Rightarrow> Some (w\<lparr>wd_db := s\<rparr>))
      else case GetNonce (se_ops E) (se_sha E) (sv_From ctx) (wd_db w) of
             (s1, databaseAccountNonce) \<Rightarrow>
               let n = td_AccountNonce (tx_Data (sv_Tx ctx));
                   setNonce = (if n \<ge> databaseAccountNonce then n + 1 else databaseAccountNonce)
               in case RevertToSnapshot (se_ops E) (se_sha E) snapshot s1 of
                    Inl e \<Rightarrow> None
                  | Inr s2 \<Rightarrow>
                      Some (w\<lparr>wd_db := set_count_of E (sv_To ctx) (sv_To ctx) (set_nonce_count E (sv_From ctx) setNonce s2)\<rparr>))"

definition capped_refund :: "uint64 \<Rightarrow> uint64 \<Rightarrow> uint64" where
  "capped_refund usedGas refnd = (let maxRefund = usedGas div 2 in if refnd > maxRefund then maxRefund else refnd)"

definition charge :: "'t svm_env \<Rightarrow> svm_ctx \<Rightarrow> uint64 \<Rightarrow> nat \<Rightarrow> Receipt \<Rightarrow> 't world \<Rightarrow> 't world \<times> (svm_error + Receipt)" where
  "charge E ctx intrGas snapshot receipt w =
     (let used = rc_UsedGas receipt + intrGas
      in handleFee E ctx (receipt\<lparr>rc_UsedGas := used - capped_refund used (GetRefund (wd_db w))\<rparr>) snapshot w)"

definition conclude ::
  "'t svm_env \<Rightarrow> svm_ctx \<Rightarrow> uint64 \<Rightarrow> uint64 \<Rightarrow> nat \<Rightarrow> 't world \<times> Receipt \<times> svm_error option \<Rightarrow> 't world \<times> (svm_error + Receipt)" where
  "conclude E ctx height intrGas snapshot r =
     (case r of
        (w, receipt, None) \<Rightarrow> charge E ctx intrGas snapshot receipt w
      | (w, receipt, Some e) \<Rightarrow>
          if e = SvPanic \<or> e = SvVm VmFuel then (w, Inl e)
          else if e = SvVm ErrInsufficientBalance
          then (case revertStatedb E snapshot e w of (w', e') \<Rightarrow> (w', Inl e'))
          else (case failed_execution E ctx height snapshot w of
                  None \<Rightarrow> (w, Inl SvPanic)
                | Some w' \<Rightarrow> charge E ctx intrGas snapshot (receipt\<lparr>rc_Failed := True, rc_Result := se_Error E e\<rparr>) w'))"

definition Process :: "'t svm_env \<Rightarrow> svm_ctx \<Rightarrow> uint64 \<Rightarrow> 't world \<Rightarrow> 't world \<times> (svm_error + Receipt)" where
  "Process E ctx height w =
     (let T = se_ops E; sha = se_sha E; tx = sv_Tx ctx
      in case ValidateState (GetBalance T sha (sv_From ctx)) (GetNonce T sha (sv_From ctx)) tx (wd_db w) of
           (s0, Some e) \<Rightarrow> (w\<lparr>wd_db := s0\<rparr>, Inl (SvTx e))
         | (s0, None) \<Rightarrow>
             let gasLimit = td_GasLimit (tx_Data tx); intrGas = IntrinsicGas (se_ShardCount E) tx
             in if gasLimit < intrGas then (w\<lparr>wd_db := s0\<rparr>, Inl (SvTx ErrIntrinsicGas))
                else case Prepare (sv_TxIndex ctx) s0 of
                       (s1, snapshot) \<Rightarrow>
                         let w1 = w\<lparr>wd_db := s1\<rparr>; leftOverGas = gasLimit - intrGas
                         in case GetContractByAddress (se_json E) (cr_sha256 (se_crypto E)) T sha (sv_To ctx) of
                              Some cmds \<Rightarrow> conclude E ctx height intrGas snapshot (processSystemContract E ctx cmds snapshot leftOverGas w1)
                            | None \<Rightarrow>
                                if IsCrossShardTx (se_ShardCount E) tx \<and> \<not> IsEVMContract (sv_To ctx)
                                then processCrossShardTransaction E ctx snapshot w1
                                else conclude E ctx height intrGas snapshot (processEvmContract E ctx leftOverGas w1))"

section \<open>The fee model of the test net\<close>

definition contractFeeComplex :: int where "contractFeeComplex = SeeleToFan div 100"
definition contractFeeCustomToken :: int where "contractFeeCustomToken = SeeleToFan div 200"
definition contractFeeStandardToken :: int where "contractFeeStandardToken = SeeleToFan div 500"
definition contractFeeSimple :: int where "contractFeeSimple = SeeleToFan div 1000"

definition lowPriceGas :: uint64 where "lowPriceGas = 50000"
definition overUsedStep :: uint64 where "overUsedStep = 20000"
definition gasFeeLowPrice :: int where "gasFeeLowPrice = contractFeeSimple div 1000"
definition gasFeeHighPriceUnit :: int where "gasFeeHighPriceUnit = contractFeeSimple div 100"

definition contractCreationFee :: "bytes \<Rightarrow> int" where
  "contractCreationFee code =
     (let codeLen = length code
      in if codeLen > 16 * 1024 * 1024 then contractFeeComplex
         else if codeLen > 8 * 1024 * 1024 then contractFeeCustomToken
         else if codeLen > 4 * 1024 * 1024 then contractFeeStandardToken
         else contractFeeSimple)"

definition usedGasFee :: "uint64 \<Rightarrow> int" where
  "usedGasFee usedGas =
     (if usedGas = 0 then 0
      else if usedGas \<le> lowPriceGas then gasFeeLowPrice
      else let overUsed = (usedGas - lowPriceGas) div overUsedStep + 1 in gasFeeHighPriceUnit * uint (overUsed * overUsed))"

section \<open>Rewards\<close>

definition rewardTable :: "int list" where "rewardTable = [24, 16, 12, 10, 8, 8, 6, 6]"
definition tailReward :: int where "tailReward = 6"
definition blockNumberPerEra :: uint64 where "blockNumberPerEra = 3150000"

text \<open>
  The table holds the coins of a year divided by the number of shards; with the shard count of the repository,
  one, the floating point product is exact.
\<close>

definition convertSeeleToFan :: "int \<Rightarrow> int" where "convertSeeleToFan seele = seele * SeeleToFan"

definition GetReward :: "uint64 \<Rightarrow> int" where
  "GetReward blockHeight =
     (let era = unat (blockHeight div blockNumberPerEra)
      in if era < length rewardTable then convertSeeleToFan (rewardTable ! era)
         else if era = length rewardTable then convertSeeleToFan tailReward else 0)"

datatype reward_error =
    RewardAmountNil | RewardAmountNegative | errInvalidReward | errEmptyToAddress | errCoinbaseMismatch
  | errRewardAmount | errTimestampMismatch | RewardPanic

definition validateReward :: "int option \<Rightarrow> reward_error option" where
  "validateReward reward =
     (case reward of None \<Rightarrow> Some RewardAmountNil | Some r \<Rightarrow> if r < 0 then Some RewardAmountNegative else None)"

definition NewRewardTx :: "(bytes \<Rightarrow> bytes) \<Rightarrow> address \<Rightarrow> int option \<Rightarrow> uint64 \<Rightarrow> reward_error + Transaction" where
  "NewRewardTx sha coinbase reward timestamp =
     (case validateReward reward of
        Some e \<Rightarrow> Inl e
      | None \<Rightarrow>
          (let d = \<lparr>td_Type = TxTypeReward, td_From = EmptyAddress, td_To = coinbase, td_Amount = reward, td_AccountNonce = 0,
                 td_GasPrice = Some 0, td_GasLimit = 0, td_Timestamp = timestamp, td_Payload = []\<rparr>
           in case item_hash sha (TransactionData_item d) of
                None \<Rightarrow> Inl RewardPanic
              | Some h \<Rightarrow> Inr \<lparr>tx_Hash = h, tx_Data = d, tx_Signature = []\<rparr>))"

definition ValidateRewardTx :: "Transaction \<Rightarrow> BlockHeader \<Rightarrow> reward_error option" where
  "ValidateRewardTx tx header =
     (let d = tx_Data tx
      in if td_Type d \<noteq> TxTypeReward \<or> \<not> Address_IsEmpty (td_From d) \<or> td_AccountNonce d \<noteq> 0 then Some errInvalidReward
         else case td_GasPrice d of
           None \<Rightarrow> Some RewardPanic
         | Some price \<Rightarrow>
             if price \<noteq> 0 \<or> td_GasLimit d \<noteq> 0 \<or> td_Payload d \<noteq> [] then Some errInvalidReward
             else if Address_IsEmpty (td_To d) then Some errEmptyToAddress
             else if td_To d \<noteq> bh_Creator header then Some errCoinbaseMismatch
             else case td_Amount d of
               None \<Rightarrow> Some RewardAmountNil
             | Some amount \<Rightarrow>
                 if amount < 0 then Some RewardAmountNegative
                 else if amount \<noteq> (if bh_Consensus header \<noteq> BftConsensus then GetReward (bh_Height header) else 0)
                 then Some errRewardAmount
                 else case bh_CreateTimestamp header of
                   None \<Rightarrow> Some RewardPanic
                 | Some t \<Rightarrow> if td_Timestamp d \<noteq> Uint64 t then Some errTimestampMismatch else None)"

definition ApplyRewardTx :: "'t svm_env \<Rightarrow> Transaction \<Rightarrow> 't world \<Rightarrow> 't world \<times> (svm_error + Receipt)" where
  "ApplyRewardTx E tx w =
     (let T = se_ops E; sha = se_sha E; d = tx_Data tx; amount = (case td_Amount d of None \<Rightarrow> 0 | Some n \<Rightarrow> n);
          s = AddBalance T sha (td_To d) amount (CreateAccount T sha (td_To d) (wd_db w))
      in case se_order E s of
           (ord, as) \<Rightarrow>
             (case Statedb_Hash T sha ord as s of
                (s', Inl e) \<Rightarrow> (w\<lparr>wd_db := s'\<rparr>, Inl (SvState e))
              | (s', Inr h) \<Rightarrow>
                  (w\<lparr>wd_db := s'\<rparr>, Inr \<lparr>rc_Result = [], rc_Failed = False, rc_UsedGas = 0, rc_PostState = h, rc_Logs = [],
                     rc_TxHash = tx_Hash tx, rc_ContractAddress = [], rc_TotalFee = 0\<rparr>)))"

section \<open>Applying a block\<close>

text \<open>\<open>packed\<close>: whether the store has an index of the debt.\<close>

definition ApplyDebtWithoutVerify ::
  "'t svm_env \<Rightarrow> (hash \<Rightarrow> bool) \<Rightarrow> address \<Rightarrow> Debt \<Rightarrow> 't world \<Rightarrow> 't world \<times> svm_error option" where
  "ApplyDebtWithoutVerify E packed coinbase d w =
     (if packed (de_Hash d) then (w, Some SvDebtPacked)
      else let T = se_ops E; sha = se_sha E; acct = dd_Account (de_Data d)
           in case Exist T sha acct (wd_db w) of
                (s0, ex) \<Rightarrow>
                  let s1 = (if ex then s0 else CreateAccount T sha acct s0); w1 = w\<lparr>wd_db := s1\<rparr>
                  in case dd_Amount (de_Data d) of
                       None \<Rightarrow> (w1, Some (SvTx ErrAmountNil))
                     | Some amount \<Rightarrow>
                         if amount < 0 then (w1, Some (SvTx ErrAmountNegative))
                         else case debt_Fee d of
                           None \<Rightarrow> (w1, Some SvPanic)
                         | Some fee \<Rightarrow>
                             if fee < 0 then (w1, Some (SvTx ErrAmountNegative))
                             else (w1\<lparr>wd_db := AddBalance T sha coinbase fee (AddBalance T sha acct amount s1)\<rparr>, None))"

primrec applyDebts ::
  "'t svm_env \<Rightarrow> (hash \<Rightarrow> bool) \<Rightarrow> address \<Rightarrow> Debt list \<Rightarrow> 't world \<Rightarrow> 't world \<times> svm_error option" where
  "applyDebts E packed coinbase [] w = (w, None)"
| "applyDebts E packed coinbase (d # ds) w =
     (case ApplyDebtWithoutVerify E packed coinbase d w of
        (w', Some e) \<Rightarrow> (w', Some e)
      | (w', None) \<Rightarrow> applyDebts E packed coinbase ds w')"

text \<open>The loop over the regular transactions; the first has index one.\<close>

primrec applyRegularTxs ::
  "'t svm_env \<Rightarrow> BlockHeader \<Rightarrow> uint64 \<Rightarrow> Transaction list \<Rightarrow> 't world \<Rightarrow> 't world \<times> (svm_error + Receipt list)" where
  "applyRegularTxs E header i [] w = (w, Inr [])"
| "applyRegularTxs E header i (tx # txs) w =
     (let from = td_From (tx_Data tx)
      in case ValidateState (GetBalance (se_ops E) (se_sha E) from) (GetNonce (se_ops E) (se_sha E) from) tx (wd_db w) of
           (s, Some e) \<Rightarrow> (w\<lparr>wd_db := s\<rparr>, Inl (SvTx e))
         | (s, None) \<Rightarrow>
             (case Process E \<lparr>sv_Tx = tx, sv_TxIndex = i, sv_BlockHeader = header\<rparr> (bh_Height header) (w\<lparr>wd_db := s\<rparr>) of
                (w', Inl e) \<Rightarrow> (w', Inl e)
              | (w', Inr r) \<Rightarrow>
                  (case applyRegularTxs E header (i + 1) txs w' of
                     (w'', Inl e) \<Rightarrow> (w'', Inl e)
                   | (w'', Inr rs) \<Rightarrow> (w'', Inr (r # rs)))))"

end
