(* ===== verification/Svm_Ledger.thy ===== *)
theory Svm_Ledger
  imports Svm
begin

text \<open>
  Transaction processing on ledgers: what a transfer to another shard, a failed transaction, a plain
  transfer and a call of a system contract do to the accounts, and the bounds on gas and fees.
\<close>

section \<open>Steps of the database\<close>

text \<open>A step the journal can undo, and that keeps every nonce.\<close>

definition dstep :: "(bytes \<Rightarrow> bytes) \<Rightarrow> trie_db \<Rightarrow> bytes \<Rightarrow> (bytes \<rightharpoonup> bytes) \<Rightarrow> trie statedb \<Rightarrow> trie statedb \<Rightarrow> bool" where
  "dstep sha kv pfx M s s' \<longleftrightarrow>
     db_reach sha kv pfx M s s'
     \<and> (\<forall>V r. is_ledger sha kv pfx M s V r \<longrightarrow>
          (\<exists>V'. is_ledger sha kv pfx M s' V' r \<and> nonce_at V' = nonce_at V))"

lemma reach_refl: "db_reach sha kv pfx M s s"
  by (simp add: db_reach_def path_refl)

lemma dstep_refl: "dstep sha kv pfx M s s"
  by (auto simp: dstep_def reach_refl)

lemma dstep_trans: "dstep sha kv pfx M s s' \<Longrightarrow> dstep sha kv pfx M s' s'' \<Longrightarrow> dstep sha kv pfx M s s''"
  unfolding dstep_def using reach_trans [of sha kv pfx M s s' s''] by metis

lemma dstep_op:
  assumes "s' = sdb_exec (mpt_ops sha) sha op s"
    and "\<And>V r. is_ledger sha kv pfx M s V r \<Longrightarrow> is_ledger sha kv pfx M s' (f V) r" "\<And>V. nonce_at (f V) = nonce_at V"
  shows "dstep sha kv pfx M s s'"
  using assms op_reach [of sha kv pfx M s op] by (auto simp: dstep_def)

lemma nonce_fun:
  "nonce_at (credit a n V) = nonce_at V" "nonce_at (debit a n V) = nonce_at V" "nonce_at (store_at a k v V) = nonce_at V"
  "nonce_at (open_account sha M a V) = nonce_at V"
  by (simp_all add: fun_eq_iff)

lemma dstep_write:
  assumes "dstep sha kv pfx M s s'"
  shows "dstep sha kv pfx M s (SetData (mpt_ops sha) sha a k v s')" "dstep sha kv pfx M s (AddBalance (mpt_ops sha) sha a n s')"
    "dstep sha kv pfx M s (SubBalance (mpt_ops sha) sha a n s')" "dstep sha kv pfx M s (CreateAccount (mpt_ops sha) sha a s')"
proof -
  have "dstep sha kv pfx M s' (SetData (mpt_ops sha) sha a k v s')"
    by (rule dstep_op [where op = "OpSetData a k v" and f = "store_at a k v"]) (simp_all add: data_refines nonce_fun)
  moreover have "dstep sha kv pfx M s' (AddBalance (mpt_ops sha) sha a n s')"
    by (rule dstep_op [where op = "OpAddBalance a n" and f = "credit a n"]) (simp_all add: balance_refines nonce_fun)
  moreover have "dstep sha kv pfx M s' (SubBalance (mpt_ops sha) sha a n s')"
    by (rule dstep_op [where op = "OpSubBalance a n" and f = "debit a n"]) (simp_all add: balance_refines nonce_fun)
  moreover have "dstep sha kv pfx M s' (CreateAccount (mpt_ops sha) sha a s')"
    by (rule dstep_op [where op = "OpCreateAccount a" and f = "open_account sha M a"]) (simp_all add: create_refines nonce_fun)
  ultimately show "dstep sha kv pfx M s (SetData (mpt_ops sha) sha a k v s')" "dstep sha kv pfx M s (AddBalance (mpt_ops sha) sha a n s')"
    "dstep sha kv pfx M s (SubBalance (mpt_ops sha) sha a n s')" "dstep sha kv pfx M s (CreateAccount (mpt_ops sha) sha a s')"
    using dstep_trans [OF assms] by blast+
qed

lemma dstep_read:
  assumes "dstep sha kv pfx M s s'"
  shows "GetData (mpt_ops sha) sha a k s' = (s'', v) \<Longrightarrow> dstep sha kv pfx M s s''"
    "Exist (mpt_ops sha) sha a s' = (s'', b) \<Longrightarrow> dstep sha kv pfx M s s''"
    "GetBalance (mpt_ops sha) sha a s' = (s'', n) \<Longrightarrow> dstep sha kv pfx M s s''"
    "GetNonce (mpt_ops sha) sha a s' = (s'', c) \<Longrightarrow> dstep sha kv pfx M s s''"
proof -
  note g = getter_refines [where s = s']
  have "dstep sha kv pfx M s' (fst (GetData (mpt_ops sha) sha a k s'))"
    by (rule dstep_op [where op = "OpGetData a k" and f = "\<lambda>V. V"]) (auto dest: g(3) [where a = a and k = k])
  then show "GetData (mpt_ops sha) sha a k s' = (s'', v) \<Longrightarrow> dstep sha kv pfx M s s''"
    using dstep_trans [OF assms] by simp
  have "dstep sha kv pfx M s' (fst (Exist (mpt_ops sha) sha a s'))"
    by (rule dstep_op [where op = "OpExist a" and f = "\<lambda>V. V"]) (auto dest: g(4) [where a = a])
  then show "Exist (mpt_ops sha) sha a s' = (s'', b) \<Longrightarrow> dstep sha kv pfx M s s''"
    using dstep_trans [OF assms] by simp
  have "dstep sha kv pfx M s' (fst (GetBalance (mpt_ops sha) sha a s'))"
    by (rule dstep_op [where op = "OpGetBalance a" and f = "\<lambda>V. V"]) (auto dest: g(1) [where a = a])
  then show "GetBalance (mpt_ops sha) sha a s' = (s'', n) \<Longrightarrow> dstep sha kv pfx M s s''"
    using dstep_trans [OF assms] by simp
  have "dstep sha kv pfx M s' (fst (GetNonce (mpt_ops sha) sha a s'))"
    by (rule dstep_op [where op = "OpGetNonce a" and f = "\<lambda>V. V"]) (auto dest: g(2) [where a = a])
  then show "GetNonce (mpt_ops sha) sha a s' = (s'', c) \<Longrightarrow> dstep sha kv pfx M s s''"
    using dstep_trans [OF assms] by simp
qed

section \<open>System contracts are steps\<close>

abbreviation wstep where "wstep sha kv pfx M w w' \<equiv> dstep sha kv pfx M (wd_db w) (wd_db w')"

lemma helper_steps:
  "haveContract (mpt_ops sha) sha h w = (w', x) \<Longrightarrow> wstep sha kv pfx M w w'"
  "getInfo (mpt_ops sha) sha addr w = (w', y) \<Longrightarrow> wstep sha kv pfx M w w'"
  "getBTCBlocks J (mpt_ops sha) sha w = (w', z) \<Longrightarrow> wstep sha kv pfx M w w'"
  by (auto simp: haveContract_def getInfo_def getBTCBlocks_def split: prod.splits intro: dstep_read dstep_refl)

lemma name_steps:
  "wstep sha kv pfx M w (fst (createDomainName (mpt_ops sha) sha i ctx w))"
  "wstep sha kv pfx M w (fst (getDomainNameOwner (mpt_ops sha) sha i ctx w))"
  "wstep sha kv pfx M w (fst (registerSubChain J (mpt_ops sha) sha i ctx w))"
  "wstep sha kv pfx M w (fst (querySubChain (mpt_ops sha) sha i ctx w))"
  by (auto simp: createDomainName_def getDomainNameOwner_def registerSubChain_def querySubChain_def dstep_refl
      split: prod.splits sum.splits option.splits intro: dstep_read dstep_refl intro!: dstep_write)

lemma lock_steps:
  "wstep sha kv pfx M w (fst (newHTLC J (mpt_ops sha) sha i ctx w))"
  "wstep sha kv pfx M w (fst (withdraw J f (mpt_ops sha) sha i ctx w))"
  "wstep sha kv pfx M w (fst (refund J (mpt_ops sha) sha i ctx w))"
  "wstep sha kv pfx M w (fst (getContract (mpt_ops sha) sha i ctx w))"
proof -
  show "wstep sha kv pfx M w (fst (newHTLC J (mpt_ops sha) sha i ctx w))"
    by (auto simp: newHTLC_def dstep_refl split: option.splits intro!: dstep_write)
  show "wstep sha kv pfx M w (fst (withdraw J f (mpt_ops sha) sha i ctx w))"
    by (auto simp: withdraw_def dstep_refl split: option.splits prod.splits sum.splits dest: helper_steps intro!: dstep_write)
  show "wstep sha kv pfx M w (fst (refund J (mpt_ops sha) sha i ctx w))"
    by (auto simp: refund_def dstep_refl split: option.splits prod.splits sum.splits dest: helper_steps intro!: dstep_write)
  show "wstep sha kv pfx M w (fst (getContract (mpt_ops sha) sha i ctx w))"
    using helper_steps(1) [of sha "BytesToHash i" w] by (simp add: getContract_def) (metis prod.collapse)
qed

lemma node_steps:
  "wstep sha kv pfx M w (fst (deposit (mpt_ops sha) sha i ctx w))"
  "wstep sha kv pfx M w (fst (queryMasternodeCmd (mpt_ops sha) sha i ctx w))"
  "wstep sha kv pfx M w (fst (recallCmd (mpt_ops sha) sha i ctx w))"
  "wstep sha kv pfx M w (fst (quitCmd (mpt_ops sha) sha i ctx w))"
  by (auto simp: deposit_def queryMasternodeCmd_def recallCmd_def quitCmd_def saveInfo_def dstep_refl Let_def
      split: option.splits prod.splits sum.splits dest: helper_steps intro!: dstep_write)

lemma relay_steps:
  "wstep sha kv pfx M w (fst (verifyTx J (mpt_ops sha) sha i ctx w))"
  "wstep sha kv pfx M w (fst (relayTx J (mpt_ops sha) sha i ctx w))"
  "wstep sha kv pfx M w (fst (storeBlockHeader J (mpt_ops sha) sha i ctx w))"
  "wstep sha kv pfx M w (fst (getBlockHeader J (mpt_ops sha) sha i ctx w))"
proof -
  show v: "wstep sha kv pfx M w (fst (verifyTx J (mpt_ops sha) sha i ctx w))"
    by (auto simp: verifyTx_def pay_relayer_def dstep_refl Let_def split: option.splits prod.splits dest: helper_steps intro!: dstep_write)
  show "wstep sha kv pfx M w (fst (relayTx J (mpt_ops sha) sha i ctx w))"
    using v by (auto simp: relayTx_def split: prod.splits sum.splits)
  show "wstep sha kv pfx M w (fst (storeBlockHeader J (mpt_ops sha) sha i ctx w))"
    by (auto simp: storeBlockHeader_def dstep_refl Let_def split: option.splits prod.splits dest: helper_steps intro!: dstep_write)
  show "wstep sha kv pfx M w (fst (getBlockHeader J (mpt_ops sha) sha i ctx w))"
    by (auto simp: getBlockHeader_def pay_relayer_def dstep_refl split: option.splits prod.splits dest: helper_steps intro!: dstep_write)
qed

lemma contract_Run_step:
  assumes "GetContractByAddress J f (mpt_ops sha) sha a = Some cmds"
  shows "wstep sha kv pfx M w (fst (contract_Run cmds input ctx w))"
proof -
  have "(c, g, h) \<in> set cmds \<Longrightarrow> wstep sha kv pfx M w (fst (h i ctx w))" for c g h i
    using assms name_steps lock_steps node_steps relay_steps
    by (auto simp: GetContractByAddress_def domainNameCommands_def subChainCommands_def htlcCommands_def masternodeCommands_def
        brCommands_def split: if_splits)
  then show ?thesis
    by (auto simp: contract_Run_def dstep_refl split: list.split option.split dest!: map_of_SomeD)
qed

section \<open>Parts of the processing on ledgers\<close>

text \<open>\<open>rooted E s w' receipt\<close>: computing the root of the database \<open>s\<close> gives the state \<open>w'\<close> and the root in the receipt.\<close>

definition rooted :: "'t svm_env \<Rightarrow> 't statedb \<Rightarrow> 't world \<Rightarrow> Receipt \<Rightarrow> bool" where
  "rooted E s w' receipt \<longleftrightarrow>
     (case se_order E s of (ord, as) \<Rightarrow>
        Statedb_Hash (se_ops E) (se_sha E) ord as s = (wd_db w', Inr (rc_PostState receipt)))"

lemma renonce_same [simp]: "renonce a (nonce_at V a) V = V"
  by (auto simp: renonce_def on_account_def nonce_at_def split: option.splits)

lemma nonce_steps:
  assumes E: "se_ops E = mpt_ops (se_sha E)" and L: "is_ledger (se_sha E) kv pfx M s V r"
  shows "is_ledger (se_sha E) kv pfx M (set_nonce_count E a n s) (renonce a n V) r"
    "is_ledger (se_sha E) kv pfx M (set_count_of E a b s) (renonce a (nonce_at V b) V) r"
proof -
  show "is_ledger (se_sha E) kv pfx M (set_nonce_count E a n s) (renonce a n V) r"
    using nonce_refines [OF getter_refines(5) [OF L]] by (auto simp: set_nonce_count_def E split: prod.splits) (metis fst_conv)
  obtain s1 where s1: "GetNonce (mpt_ops (se_sha E)) (se_sha E) b s = (s1, nonce_at V b)" "is_ledger (se_sha E) kv pfx M s1 V r"
    using getter_refines(2) [OF L] by blast
  show "is_ledger (se_sha E) kv pfx M (set_count_of E a b s) (renonce a (nonce_at V b) V) r"
    using nonce_refines [OF getter_refines(5) [OF s1(2)]] s1(1)
    by (auto simp: set_count_of_def E split: prod.splits) (metis fst_conv)
qed

lemma count_step:
  assumes "se_ops E = mpt_ops (se_sha E)" "is_ledger (se_sha E) kv pfx M s V r"
  shows "is_ledger (se_sha E) kv pfx M (set_count_of E a a s) V r"
  using nonce_steps(2) [OF assms, of a a] by simp

lemma nonce_reach:
  assumes E: "se_ops E = mpt_ops (se_sha E)"
  shows "db_reach (se_sha E) kv pfx M s (set_nonce_count E a n s)" "db_reach (se_sha E) kv pfx M s (set_count_of E a b s)"
proof -
  let ?sha = "se_sha E"
  have w: "db_reach ?sha kv pfx M s (SetNonce2 (mpt_ops ?sha) ?sha a n c s')" if "db_reach ?sha kv pfx M s s'" for s' n c
    using reach_trans [OF that] op_reach [of ?sha kv pfx M s' "OpSetNonce2 a n c"] by simp
  have g: "db_reach ?sha kv pfx M s (fst (GetTxCount (mpt_ops ?sha) ?sha x s'))" "db_reach ?sha kv pfx M s (fst (GetNonce (mpt_ops ?sha) ?sha x s'))"
    if "db_reach ?sha kv pfx M s s'" for s' x
    using reach_trans [OF that op_reach [of ?sha kv pfx M s' "OpGetTxCount x"]] reach_trans [OF that op_reach [of ?sha kv pfx M s' "OpGetNonce x"]]
    by simp_all
  show "db_reach ?sha kv pfx M s (set_nonce_count E a n s)"
    using w [OF g(1) [OF reach_refl]] by (simp add: set_nonce_count_def E split: prod.split) (metis fst_conv)
  show "db_reach ?sha kv pfx M s (set_count_of E a b s)"
    using w [OF g(1) [OF g(2) [OF reach_refl]]] by (simp add: set_count_of_def E split: prod.split) (metis fst_conv)
qed

lemma Prepare_ledger:
  assumes "is_ledger sha kv pfx M s V r" "Prepare i s = (s', n)"
  shows "is_ledger sha kv pfx M s' V 0" "n = Snapshot s'"
  using assms
  by (auto simp: Prepare_def Let_def clearJournalAndRefund_def is_ledger_def good_def journal_ok_def dirt_def fun_eq_iff)

lemma ValidateState_ledger:
  assumes E: "se_ops E = mpt_ops (se_sha E)" and L: "is_ledger (se_sha E) kv pfx M s V r"
    and v: "ValidateState (GetBalance (se_ops E) (se_sha E) a) (GetNonce (se_ops E) (se_sha E) a) tx s = (s', err)"
  shows "is_ledger (se_sha E) kv pfx M s' V r"
    "err = None \<Longrightarrow> \<exists>price amount. td_GasPrice (tx_Data tx) = Some price \<and> td_Amount (tx_Data tx) = Some amount
       \<and> amount + price * uint (td_GasLimit (tx_Data tx)) \<le> balance V a \<and> nonce_at V a \<le> td_AccountNonce (tx_Data tx)"
proof -
  let ?sha = "se_sha E"
  obtain s1 where s1: "GetBalance (mpt_ops ?sha) ?sha a s = (s1, balance V a)" "is_ledger ?sha kv pfx M s1 V r"
    using getter_refines(1) [OF L] by blast
  obtain s2 where s2: "GetNonce (mpt_ops ?sha) ?sha a s1 = (s2, nonce_at V a)" "is_ledger ?sha kv pfx M s2 V r"
    using getter_refines(2) [OF s1(2)] by blast
  show "is_ledger ?sha kv pfx M s' V r"
    "err = None \<Longrightarrow> \<exists>price amount. td_GasPrice (tx_Data tx) = Some price \<and> td_Amount (tx_Data tx) = Some amount
       \<and> amount + price * uint (td_GasLimit (tx_Data tx)) \<le> balance V a \<and> nonce_at V a \<le> td_AccountNonce (tx_Data tx)"
    using v L s1 s2 by (auto simp: ValidateState_def E Let_def not_less split: option.splits if_splits)
qed

lemma record_state_ok:
  assumes "record_state E sn receipt w = (w', Inr r)"
  shows "rooted E (wd_db w) w' r" "r = receipt\<lparr>rc_PostState := rc_PostState r\<rparr>"
  using assms by (auto simp: record_state_def rooted_def split: prod.splits sum.splits)

lemma handleFee_ok:
  assumes E: "se_ops E = mpt_ops (se_sha E)" and L: "is_ledger (se_sha E) kv pfx M (wd_db w) V q"
    and h: "handleFee E ctx receipt sn w = (w', Inr r)"
  defines "fee \<equiv> uint (rc_UsedGas receipt) * sv_GasPrice ctx"
  shows "\<exists>s. is_ledger (se_sha E) kv pfx M s (credit (fee_account ctx) fee (debit (sv_From ctx) fee V)) q \<and> rooted E s w' r"
    "rc_UsedGas r = rc_UsedGas receipt" "rc_Failed r = rc_Failed receipt" "rc_TotalFee r = Uint64 fee"
proof -
  let ?s = "AddBalance (se_ops E) (se_sha E) (fee_account ctx) fee (SubBalance (se_ops E) (se_sha E) (sv_From ctx) fee (wd_db w))"
  obtain r0 where r0: "record_state E sn (receipt\<lparr>rc_TotalFee := Uint64 fee\<rparr>) (w\<lparr>wd_db := ?s\<rparr>) = (w', Inr r0)"
    "r = r0\<lparr>rc_Logs := sd_curLogs (wd_db w')\<rparr>"
    using h by (auto simp: handleFee_def Let_def fee_def split: prod.splits sum.splits)
  note ok = record_state_ok [OF r0(1)]
  have "is_ledger (se_sha E) kv pfx M ?s (credit (fee_account ctx) fee (debit (sv_From ctx) fee V)) q"
    using balance_refines [OF balance_refines(2) [OF L]] by (simp add: E)
  then show "\<exists>s. is_ledger (se_sha E) kv pfx M s (credit (fee_account ctx) fee (debit (sv_From ctx) fee V)) q \<and> rooted E s w' r"
    using ok(1) r0(2) by (auto simp: rooted_def)
  have "rc_UsedGas r0 = rc_UsedGas receipt \<and> rc_Failed r0 = rc_Failed receipt \<and> rc_TotalFee r0 = Uint64 fee"
    by (subst ok(2), subst ok(2), subst ok(2)) simp
  then show "rc_UsedGas r = rc_UsedGas receipt" "rc_Failed r = rc_Failed receipt" "rc_TotalFee r = Uint64 fee"
    using r0(2) by simp_all
qed

section \<open>Failed transactions\<close>

lemma system_reach:
  assumes E: "se_ops E = mpt_ops (se_sha E)" and c: "GetContractByAddress J f (mpt_ops (se_sha E)) (se_sha E) (sv_To ctx) = Some cmds"
    and p: "processSystemContract E ctx cmds sn left w = (w', receipt, err)"
  shows "\<not> rc_Failed receipt"
    "err \<notin> {Some (SvVm ErrInsufficientBalance), Some SvPanic} \<Longrightarrow> db_reach (se_sha E) kv pfx M (wd_db w) (wd_db w')"
proof -
  let ?sha = "se_sha E"
  let ?R = "\<lambda>s s'. db_reach ?sha kv pfx M s s'"
  have op: "?R s (sdb_exec (mpt_ops ?sha) ?sha x s')" if "?R s s'" for s s' x
    by (rule reach_trans [OF that op_reach])
  obtain s0 ex where s0: "Exist (mpt_ops ?sha) ?sha (sv_To ctx) (wd_db w) = (s0, ex)" by fastforce
  have r0: "?R (wd_db w) s0" using op [OF reach_refl, of _ "OpExist (sv_To ctx)"] s0 by simp (metis fst_conv)
  define s3 where "s3 = set_count_of E (sv_From ctx) (sv_To ctx) (set_nonce_count E (sv_From ctx)
    (td_AccountNonce (tx_Data (sv_Tx ctx)) + 1) (if ex then s0 else CreateAccount (mpt_ops ?sha) ?sha (sv_To ctx) s0))"
  have "?R (wd_db w) (if ex then s0 else CreateAccount (mpt_ops ?sha) ?sha (sv_To ctx) s0)"
    using op [OF r0, of "OpCreateAccount (sv_To ctx)"] r0 by simp
  then have r3: "?R (wd_db w) s3"
    unfolding s3_def by (rule reach_trans [OF reach_trans [OF _ nonce_reach(1) [OF E]] nonce_reach(2) [OF E]])
  obtain s4 b where s4: "GetBalance (mpt_ops ?sha) ?sha (sv_From ctx) s3 = (s4, b)" by fastforce
  have r4: "?R (wd_db w) s4" using op [OF r3, of "OpGetBalance (sv_From ctx)"] s4 by simp
  define w5 where "w5 = w\<lparr>wd_db := AddBalance (mpt_ops ?sha) ?sha (sv_To ctx) (sv_Amount ctx)
    (SubBalance (mpt_ops ?sha) ?sha (sv_From ctx) (sv_Amount ctx) s4)\<rparr>"
  have r5: "?R (wd_db w) (wd_db w5)"
    using op [OF op [OF r4, of "OpSubBalance (sv_From ctx) (sv_Amount ctx)"], of "OpAddBalance (sv_To ctx) (sv_Amount ctx)"]
    by (simp add: w5_def)
  have r6: "?R (wd_db w) (wd_db w6)" if "contract_Run cmds i cx w5 = (w6, x)" for i cx w6 x
    using reach_trans [OF r5] contract_Run_step [OF c, of kv pfx M w5 i cx] that by (simp add: dstep_def)
  note unf = processSystemContract_def Let_def E s0 s3_def [symmetric] s4 w5_def [symmetric]
  show "\<not> rc_Failed receipt"
    using p by (auto simp: unf new_receipt_def revertStatedb_def split: prod.splits sum.splits if_splits)
  show "?R (wd_db w) (wd_db w')" if "err \<notin> {Some (SvVm ErrInsufficientBalance), Some SvPanic}"
    using p r5 r6 that by (auto simp: unf revertStatedb_def split: prod.splits sum.splits if_splits)
qed

lemma machine_reach:
  assumes "F = chain_env shards sha getHash origin coinbase height time difficulty K"
  shows "db_reach sha kv pfx M s (ev_StateDB (fst (evm_Call (interp n F) F (NewEVM s) a b i g v)))"
    "db_reach sha kv pfx M s (ev_StateDB (fst (evm_Create (interp n F) F (NewEVM s) a i g v)))"
proof -
  have r: "\<not> ev_readOnly (NewEVM s)" by (simp add: NewEVM_def)
  have "chain.sound_call sha kv pfx M K (NewEVM s) (evm_Call (interp n F) F (NewEVM s) a b i g v)"
    unfolding assms by (rule chain.execution(1)) (use r in simp)
  then show "db_reach sha kv pfx M s (ev_StateDB (fst (evm_Call (interp n F) F (NewEVM s) a b i g v)))"
    by (auto simp: chain.sound_call_def chain.call_frame_def chain.moves_def NewEVM_def split: prod.splits)
  have "chain.calls_framed sha kv pfx M K (evm_calls (interp n F) F)"
    unfolding assms by (rule chain.calls_framed_evm [OF chain.interp_framed])
  then have "chain.call_frame sha kv pfx M K (NewEVM s) (fst (ca_Create (evm_calls (interp n F) F) (NewEVM s) a i g v))"
    using r by (simp add: chain.calls_framed_def)
  then show "db_reach sha kv pfx M s (ev_StateDB (fst (evm_Create (interp n F) F (NewEVM s) a i g v)))"
    by (simp add: evm_calls_def chain.call_frame_def chain.moves_def NewEVM_def)
qed

lemma evm_reach:
  assumes E: "se_ops E = mpt_ops (se_sha E)" and p: "processEvmContract E ctx gas w = (w', receipt, err)"
  shows "\<not> rc_Failed receipt" "db_reach (se_sha E) kv pfx M (wd_db w) (wd_db w')"
proof -
  let ?sha = "se_sha E" and ?F = "newEVMContext E ctx"
  show "\<not> rc_Failed receipt"
    using p by (auto simp: processEvmContract_def new_receipt_def Let_def split: prod.splits if_splits)
  have F: "\<exists>time difficulty. ?F = chain_env (se_ShardCount E) ?sha (se_GetHash E (sv_BlockHeader ctx)) (sv_From ctx)
      (bh_Creator (sv_BlockHeader ctx)) (bh_Height (sv_BlockHeader ctx)) time difficulty (se_crypto E)"
    by (auto simp: newEVMContext_def Let_def E)
  then obtain time difficulty where F: "?F = chain_env (se_ShardCount E) ?sha (se_GetHash E (sv_BlockHeader ctx)) (sv_From ctx)
      (bh_Creator (sv_BlockHeader ctx)) (bh_Height (sv_BlockHeader ctx)) time difficulty (se_crypto E)" by blast
  note m = machine_reach [OF F]
  define s2 where "s2 = set_count_of E (sv_To ctx) (sv_To ctx)
    (set_nonce_count E (sv_From ctx) (td_AccountNonce (tx_Data (sv_Tx ctx)) + 1) (wd_db w))"
  have r2: "db_reach ?sha kv pfx M (wd_db w) s2"
    unfolding s2_def by (rule reach_trans [OF nonce_reach(1) [OF E] nonce_reach(2) [OF E]])
  show "db_reach ?sha kv pfx M (wd_db w) (wd_db w')"
  proof (cases "Address_IsEmpty (sv_To ctx)")
    case True
    have "wd_db w' = ev_StateDB (fst (evm_Create (interp (Suc (unat gas)) ?F) ?F (NewEVM (wd_db w)) (sv_From ctx)
        (td_Payload (tx_Data (sv_Tx ctx))) gas (sv_Amount ctx)))"
      using p True by (auto simp: processEvmContract_def Let_def simp del: interp.simps split: prod.splits)
    then show ?thesis using m(2) by (simp only:)
  next
    case False
    have "wd_db w' = ev_StateDB (fst (evm_Call (interp (Suc (unat gas)) ?F) ?F (NewEVM s2) (sv_From ctx) (sv_To ctx)
        (td_Payload (tx_Data (sv_Tx ctx))) gas (sv_Amount ctx)))"
      using p False by (auto simp: processEvmContract_def Let_def s2_def simp del: interp.simps split: prod.splits)
    then show ?thesis using reach_trans [OF r2 m(1)] by (simp only:)
  qed
qed

lemma revert_ledger:
  assumes "is_ledger sha kv pfx M s V r" "db_reach sha kv pfx M s s'" "RevertToSnapshot (mpt_ops sha) sha (Snapshot s) s' = Inr s''"
  shows "is_ledger sha kv pfx M s'' V r"
proof -
  have g: "good sha kv pfx M s" using assms(1) by (simp add: is_ledger_def)
  have k: "db_keeps {} sha kv pfx M s s''" by (rule revert_keeps [OF assms(2,3)])
  have "good sha kv pfx M s''" using path_good(1) [OF g] k g by (simp add: db_keeps_def db_reach_def)
  then show ?thesis using assms(1) k g by (auto simp: is_ledger_def db_keeps_def)
qed

lemma nonce_next: "(m :: uint64) < m + 1 \<or> m = - 1"
proof (cases "m = - 1")
  case False
  then have "1 + m \<noteq> 0" by (simp add: eq_neg_iff_add_eq_0 add.commute)
  then have "unat (m + 1) = Suc (unat m)" using unatSuc [of m] by (simp add: add.commute)
  then show ?thesis by (simp add: word_less_nat_alt)
qed simp

text \<open>The nonce noted after a failure is above the nonce of the transaction, unless that is the last one.\<close>

lemma failed_ledger:
  assumes E: "se_ops E = mpt_ops (se_sha E)" and L: "is_ledger (se_sha E) kv pfx M s V 0"
    and r: "db_reach (se_sha E) kv pfx M s (wd_db w)" and f: "failed_execution E ctx height (Snapshot s) w = Some w'"
  shows "\<exists>n. is_ledger (se_sha E) kv pfx M (wd_db w')
      (if height \<le> SmartContractNonceForkHeight then V else renonce (sv_From ctx) n V) 0
    \<and> (td_AccountNonce (tx_Data (sv_Tx ctx)) < n \<or> td_AccountNonce (tx_Data (sv_Tx ctx)) = - 1)"
proof -
  let ?sha = "se_sha E" and ?m = "td_AccountNonce (tx_Data (sv_Tx ctx))"
  obtain s1 c where s1: "GetNonce (mpt_ops ?sha) ?sha (sv_From ctx) (wd_db w) = (s1, c)" by fastforce
  let ?n = "if ?m \<ge> c then ?m + 1 else c"
  have r1: "db_reach ?sha kv pfx M s s1"
    using reach_trans [OF r op_reach [of ?sha kv pfx M "wd_db w" "OpGetNonce (sv_From ctx)"]] s1 by simp
  have n: "?m < ?n \<or> ?m = - 1" using nonce_next [of ?m] by auto
  show ?thesis
  proof (cases "height \<le> SmartContractNonceForkHeight")
    case True
    then obtain s2 where s2: "RevertToSnapshot (mpt_ops ?sha) ?sha (Snapshot s) (wd_db w) = Inr s2" "w' = w\<lparr>wd_db := s2\<rparr>"
      using f by (auto simp: failed_execution_def E split: sum.splits)
    then show ?thesis using True revert_ledger [OF L r s2(1)] n by auto
  next
    case False
    then obtain s2 where s2: "RevertToSnapshot (mpt_ops ?sha) ?sha (Snapshot s) s1 = Inr s2"
      "w' = w\<lparr>wd_db := set_count_of E (sv_To ctx) (sv_To ctx) (set_nonce_count E (sv_From ctx) ?n s2)\<rparr>"
      using f s1 by (auto simp: failed_execution_def E Let_def split: sum.splits)
    have "is_ledger ?sha kv pfx M (set_count_of E (sv_To ctx) (sv_To ctx) (set_nonce_count E (sv_From ctx) ?n s2))
        (renonce (sv_From ctx) ?n V) 0"
      by (rule count_step [OF E nonce_steps(1) [OF E revert_ledger [OF L r1 s2(1)]]])
    moreover have "wd_db w' = set_count_of E (sv_To ctx) (sv_To ctx) (set_nonce_count E (sv_From ctx) ?n s2)" using s2(2) by simp
    ultimately have "is_ledger ?sha kv pfx M (wd_db w') (renonce (sv_From ctx) ?n V) 0" by (simp only:)
    then show ?thesis unfolding if_not_P [OF False] using n by blast
  qed
qed

lemma charge_ok:
  assumes E: "se_ops E = mpt_ops (se_sha E)" and L: "is_ledger (se_sha E) kv pfx M (wd_db w) V q"
    and c: "charge E ctx intr sn receipt w = (w', Inr r)"
  defines "fee \<equiv> uint (rc_UsedGas r) * sv_GasPrice ctx"
  shows "\<exists>s. is_ledger (se_sha E) kv pfx M s (credit (fee_account ctx) fee (debit (sv_From ctx) fee V)) q \<and> rooted E s w' r"
    "rc_UsedGas r = rc_UsedGas receipt + intr - capped_refund (rc_UsedGas receipt + intr) q" "rc_Failed r = rc_Failed receipt"
proof -
  have "sd_refund (wd_db w) = q" using L by (simp add: is_ledger_def)
  then have h: "handleFee E ctx (receipt\<lparr>rc_UsedGas := rc_UsedGas receipt + intr - capped_refund (rc_UsedGas receipt + intr) q\<rparr>) sn w = (w', Inr r)"
    using c by (simp add: charge_def Let_def GetRefund_def)
  show "\<exists>s. is_ledger (se_sha E) kv pfx M s (credit (fee_account ctx) fee (debit (sv_From ctx) fee V)) q \<and> rooted E s w' r"
    "rc_UsedGas r = rc_UsedGas receipt + intr - capped_refund (rc_UsedGas receipt + intr) q" "rc_Failed r = rc_Failed receipt"
    using handleFee_ok [OF E L h] by (simp_all add: fee_def)
qed

lemma no_refund [simp]: "capped_refund u 0 = 0"
  by (simp add: capped_refund_def Let_def)

lemma charge_flag:
  assumes "charge E ctx intr sn receipt w = (w', Inr r)"
  shows "rc_Failed r = rc_Failed receipt"
  using assms by (auto simp: charge_def Let_def handleFee_def record_state_def split: prod.splits sum.splits)

lemma conclude_flag:
  assumes "conclude E ctx height intr sn (w1, receipt1, err) = (w', Inr receipt)" "\<not> rc_Failed receipt1"
  shows "rc_Failed receipt \<longleftrightarrow> err \<noteq> None"
proof (cases err)
  case None
  then show ?thesis using assms charge_flag [of E ctx intr sn receipt1 w1 w' receipt] by (simp add: conclude_def)
next
  case (Some e)
  then obtain w2 where "charge E ctx intr sn (receipt1\<lparr>rc_Failed := True, rc_Result := se_Error E e\<rparr>) w2 = (w', Inr receipt)"
    using assms(1) by (auto simp: conclude_def revertStatedb_def split: if_splits option.splits sum.splits)
  then show ?thesis using charge_flag Some by fastforce
qed

lemma conclude_failed:
  assumes E: "se_ops E = mpt_ops (se_sha E)" and L: "is_ledger (se_sha E) kv pfx M s V 0"
    and c: "conclude E ctx height intr (Snapshot s) (w1, receipt1, err) = (w', Inr receipt)" "rc_Failed receipt" "\<not> rc_Failed receipt1"
    and r: "err \<notin> {Some (SvVm ErrInsufficientBalance), Some SvPanic} \<Longrightarrow> db_reach (se_sha E) kv pfx M s (wd_db w1)"
  defines "fee \<equiv> uint (rc_UsedGas receipt) * sv_GasPrice ctx"
  shows "\<exists>n s1. is_ledger (se_sha E) kv pfx M s1 (credit (fee_account ctx) fee (debit (sv_From ctx) fee
        (if height \<le> SmartContractNonceForkHeight then V else renonce (sv_From ctx) n V))) 0
    \<and> rooted E s1 w' receipt \<and> (td_AccountNonce (tx_Data (sv_Tx ctx)) < n \<or> td_AccountNonce (tx_Data (sv_Tx ctx)) = - 1)
    \<and> rc_UsedGas receipt = rc_UsedGas receipt1 + intr"
proof (cases err)
  case None
  then show ?thesis using conclude_flag [OF c(1,3)] c(2) by simp
next
  case (Some e)
  have e: "err \<notin> {Some (SvVm ErrInsufficientBalance), Some SvPanic}"
    using Some c(1) by (auto simp: conclude_def revertStatedb_def split: if_splits sum.splits)
  obtain w2 where w2: "failed_execution E ctx height (Snapshot s) w1 = Some w2"
    "charge E ctx intr (Snapshot s) (receipt1\<lparr>rc_Failed := True, rc_Result := se_Error E e\<rparr>) w2 = (w', Inr receipt)"
    using Some c(1) e by (auto simp: conclude_def split: if_splits option.splits)
  obtain n where n: "is_ledger (se_sha E) kv pfx M (wd_db w2)
      (if height \<le> SmartContractNonceForkHeight then V else renonce (sv_From ctx) n V) 0"
    "td_AccountNonce (tx_Data (sv_Tx ctx)) < n \<or> td_AccountNonce (tx_Data (sv_Tx ctx)) = - 1"
    using failed_ledger [OF E L r [OF e] w2(1)] by blast
  note ch = charge_ok [OF E n(1) w2(2)]
  obtain s1 where s1: "is_ledger (se_sha E) kv pfx M s1 (credit (fee_account ctx) fee (debit (sv_From ctx) fee
      (if height \<le> SmartContractNonceForkHeight then V else renonce (sv_From ctx) n V))) 0" "rooted E s1 w' receipt"
    using ch(1) unfolding fee_def by blast
  have "rc_UsedGas receipt = rc_UsedGas receipt1 + intr" using ch(2) by simp
  then show ?thesis using s1 n(2) by blast
qed

lemma Process_cases:
  assumes E: "se_ops E = mpt_ops (se_sha E)" and L: "is_ledger (se_sha E) kv pfx M (wd_db w) V q"
    and p: "Process E ctx height w = (w', Inr receipt)"
  obtains s where "is_ledger (se_sha E) kv pfx M s V 0" "IntrinsicGas (se_ShardCount E) (sv_Tx ctx) \<le> td_GasLimit (tx_Data (sv_Tx ctx))"
    "sv_Amount ctx + sv_GasPrice ctx * uint (td_GasLimit (tx_Data (sv_Tx ctx))) \<le> balance V (sv_From ctx)"
    "nonce_at V (sv_From ctx) \<le> td_AccountNonce (tx_Data (sv_Tx ctx))"
    "case GetContractByAddress (se_json E) (cr_sha256 (se_crypto E)) (mpt_ops (se_sha E)) (se_sha E) (sv_To ctx) of
       Some cmds \<Rightarrow> conclude E ctx height (IntrinsicGas (se_ShardCount E) (sv_Tx ctx)) (Snapshot s)
         (processSystemContract E ctx cmds (Snapshot s) (td_GasLimit (tx_Data (sv_Tx ctx)) - IntrinsicGas (se_ShardCount E) (sv_Tx ctx)) (w\<lparr>wd_db := s\<rparr>))
         = (w', Inr receipt)
     | None \<Rightarrow> (if IsCrossShardTx (se_ShardCount E) (sv_Tx ctx) \<and> \<not> IsEVMContract (sv_To ctx)
         then processCrossShardTransaction E ctx (Snapshot s) (w\<lparr>wd_db := s\<rparr>)
         else conclude E ctx height (IntrinsicGas (se_ShardCount E) (sv_Tx ctx)) (Snapshot s)
           (processEvmContract E ctx (td_GasLimit (tx_Data (sv_Tx ctx)) - IntrinsicGas (se_ShardCount E) (sv_Tx ctx)) (w\<lparr>wd_db := s\<rparr>)))
         = (w', Inr receipt)"
proof -
  obtain s0 err where v: "ValidateState (GetBalance (se_ops E) (se_sha E) (sv_From ctx)) (GetNonce (se_ops E) (se_sha E) (sv_From ctx))
      (sv_Tx ctx) (wd_db w) = (s0, err)" by fastforce
  obtain s sn where s: "Prepare (sv_TxIndex ctx) s0 = (s, sn)" by fastforce
  have err: "err = None" using p v by (auto simp: Process_def Let_def split: option.splits)
  note vl = ValidateState_ledger [OF E L v]
  note pl = Prepare_ledger [OF vl(1) s]
  have g: "\<not> td_GasLimit (tx_Data (sv_Tx ctx)) < IntrinsicGas (se_ShardCount E) (sv_Tx ctx)"
    using p v err by (auto simp: Process_def Let_def split: if_splits)
  have k: "sv_Amount ctx + sv_GasPrice ctx * uint (td_GasLimit (tx_Data (sv_Tx ctx))) \<le> balance V (sv_From ctx)"
    "nonce_at V (sv_From ctx) \<le> td_AccountNonce (tx_Data (sv_Tx ctx))"
    using vl(2) [OF err] by (auto simp: sv_Amount_def sv_GasPrice_def)
  have g': "IntrinsicGas (se_ShardCount E) (sv_Tx ctx) \<le> td_GasLimit (tx_Data (sv_Tx ctx))" using g by simp
  show thesis
    by (rule that [OF pl(1) g' k]) (use p v err s g pl(2) in \<open>auto simp: Process_def Let_def E split: option.splits if_splits\<close>)
qed

lemma debit_short: "balance V a < n \<Longrightarrow> debit a n V = V"
  by (auto simp: debit_def on_account_def with_amount_def balance_def split: option.splits)

text \<open>
  C28: A failed transaction changes the nonce of its sender and moves the fee, and nothing else of the ledger. When
  processing ends with a receipt marked failed, whatever contract ran and however far it got, the
  existence, balance, nonce, code, storage and suicide mark of every account before the state root is computed
  are those before the transaction, but for the following. After the fork height the nonce of the sender is above that of
  the transaction (unless that is the largest number). The fee, the used gas times the price, is taken from the
  sender when the balance covers it, and not at all otherwise; in both cases it is added to the fee
  account, if that exists. Transaction counts and logs are not part of the ledger.
\<close>

theorem failed_transaction_effect:
  assumes "se_ops E = mpt_ops (se_sha E)" and "is_ledger (se_sha E) kv pfx M (wd_db w) V q"
    and "Process E ctx height w = (w', Inr receipt)" and "rc_Failed receipt"
    and "fee = uint (rc_UsedGas receipt) * sv_GasPrice ctx"
  shows "\<exists>n s V1. V1 = (if height \<le> SmartContractNonceForkHeight then V else renonce (sv_From ctx) n V)
    \<and> is_ledger (se_sha E) kv pfx M s (credit (fee_account ctx) fee
        (if fee \<le> balance V (sv_From ctx) then debit (sv_From ctx) fee V1 else V1)) 0
    \<and> rooted E s w' receipt \<and> (td_AccountNonce (tx_Data (sv_Tx ctx)) < n \<or> td_AccountNonce (tx_Data (sv_Tx ctx)) = - 1)"
proof -
  let ?cross = "IsCrossShardTx (se_ShardCount E) (sv_Tx ctx) \<and> \<not> IsEVMContract (sv_To ctx)"
  let ?c = "GetContractByAddress (se_json E) (cr_sha256 (se_crypto E)) (mpt_ops (se_sha E)) (se_sha E) (sv_To ctx)"
  let ?i = "IntrinsicGas (se_ShardCount E) (sv_Tx ctx)"
  let ?l = "td_GasLimit (tx_Data (sv_Tx ctx)) - ?i"
  obtain s where L: "is_ledger (se_sha E) kv pfx M s V 0"
    and p: "case ?c of
       Some cmds \<Rightarrow> conclude E ctx height ?i (Snapshot s) (processSystemContract E ctx cmds (Snapshot s) ?l (w\<lparr>wd_db := s\<rparr>)) = (w', Inr receipt)
     | None \<Rightarrow> (if ?cross then processCrossShardTransaction E ctx (Snapshot s) (w\<lparr>wd_db := s\<rparr>)
         else conclude E ctx height ?i (Snapshot s) (processEvmContract E ctx ?l (w\<lparr>wd_db := s\<rparr>))) = (w', Inr receipt)"
    using Process_cases [OF assms(1-3)] by blast
  define V1 where "V1 n = (if height \<le> SmartContractNonceForkHeight then V else renonce (sv_From ctx) n V)" for n
  have b: "balance (V1 n) (sv_From ctx) = balance V (sv_From ctx)" for n by (simp add: V1_def)
  have d: "debit (sv_From ctx) fee (V1 n) = (if fee \<le> balance V (sv_From ctx) then debit (sv_From ctx) fee (V1 n) else V1 n)" for n
    using debit_short [of "V1 n" "sv_From ctx" fee] b by simp
  have "\<exists>n s. is_ledger (se_sha E) kv pfx M s (credit (fee_account ctx) fee (debit (sv_From ctx) fee (V1 n))) 0
    \<and> rooted E s w' receipt \<and> (td_AccountNonce (tx_Data (sv_Tx ctx)) < n \<or> td_AccountNonce (tx_Data (sv_Tx ctx)) = - 1)"
  proof (cases ?c)
    case (Some cmds)
    obtain w1 receipt1 err where r: "processSystemContract E ctx cmds (Snapshot s) ?l (w\<lparr>wd_db := s\<rparr>) = (w1, receipt1, err)"
      by (metis prod_cases3)
    have c: "conclude E ctx height ?i (Snapshot s) (w1, receipt1, err) = (w', Inr receipt)" using p Some r by simp
    have r1: "err \<notin> {Some (SvVm ErrInsufficientBalance), Some SvPanic} \<Longrightarrow> db_reach (se_sha E) kv pfx M s (wd_db w1)"
      using system_reach(2) [OF assms(1) Some r, of kv pfx M] by simp
    show ?thesis
      using conclude_failed [OF assms(1) L c assms(4) system_reach(1) [OF assms(1) Some r] r1] unfolding assms(5) V1_def by blast
  next
    case None
    have nc: "\<not> ?cross"
    proof
      assume ?cross
      then have "processCrossShardTransaction E ctx (Snapshot s) (w\<lparr>wd_db := s\<rparr>) = (w', Inr receipt)" using p None by simp
      then have "\<not> rc_Failed receipt"
        by (auto simp: processCrossShardTransaction_def Let_def new_receipt_def record_state_def
            split: prod.splits sum.splits if_splits)
      then show False using assms(4) by simp
    qed
    obtain w1 receipt1 err where r: "processEvmContract E ctx ?l (w\<lparr>wd_db := s\<rparr>) = (w1, receipt1, err)"
      by (metis prod_cases3)
    have c: "conclude E ctx height ?i (Snapshot s) (w1, receipt1, err) = (w', Inr receipt)" using p None nc r by simp
    have r1: "db_reach (se_sha E) kv pfx M s (wd_db w1)" using evm_reach(2) [OF assms(1) r, of kv pfx M] by simp
    show ?thesis
      using conclude_failed [OF assms(1) L c assms(4) evm_reach(1) [OF assms(1) r] r1] unfolding assms(5) V1_def by blast
  qed
  then obtain n s where ns: "is_ledger (se_sha E) kv pfx M s (credit (fee_account ctx) fee (debit (sv_From ctx) fee (V1 n))) 0"
    "rooted E s w' receipt" "td_AccountNonce (tx_Data (sv_Tx ctx)) < n \<or> td_AccountNonce (tx_Data (sv_Tx ctx)) = - 1" by blast
  have "is_ledger (se_sha E) kv pfx M s (credit (fee_account ctx) fee
      (if fee \<le> balance V (sv_From ctx) then debit (sv_From ctx) fee (V1 n) else V1 n)) 0"
    unfolding d [symmetric] by (rule ns(1))
  then show ?thesis using ns(2,3) V1_def [of n] by blast
qed

section \<open>Transfers to another shard\<close>

lemma cross_gas [simp]:
  "uint CrossShardTotalGas = 63000" "uint CrossShardTransactionGas = 21000" "uint DebtGas = 42000"
  by (simp_all add: CrossShardTotalGas_def CrossShardTransactionGas_def DebtGas_def TransferAmountIntrinsicGas_def ethIntrinsicGas_def
      TxGas_def)

lemma cross_ledger:
  assumes E: "se_ops E = mpt_ops (se_sha E)" and L: "is_ledger (se_sha E) kv pfx M (wd_db w) V q"
    and p: "processCrossShardTransaction E ctx sn w = (w', Inr receipt)"
  defines "V2 \<equiv> debit (sv_From ctx) (sv_Amount ctx) (renonce (sv_From ctx) (td_AccountNonce (tx_Data (sv_Tx ctx)) + 1) V)"
  shows "sv_Amount ctx \<le> balance V (sv_From ctx)" "sv_GasPrice ctx * 63000 \<le> balance V2 (sv_From ctx)"
    "\<exists>s. is_ledger (se_sha E) kv pfx M s (credit (bh_Creator (sv_BlockHeader ctx)) (sv_GasPrice ctx * 21000)
         (debit (sv_From ctx) (sv_GasPrice ctx * 63000) V2)) q \<and> rooted E s w' receipt"
proof -
  let ?sha = "se_sha E" and ?from = "sv_From ctx" and ?amount = "sv_Amount ctx" and ?price = "sv_GasPrice ctx"
  let ?V1 = "renonce ?from (td_AccountNonce (tx_Data (sv_Tx ctx)) + 1) V"
  define s2 where "s2 = set_count_of E (sv_To ctx) (sv_To ctx) (set_nonce_count E ?from (td_AccountNonce (tx_Data (sv_Tx ctx)) + 1) (wd_db w))"
  have L2: "is_ledger ?sha kv pfx M s2 ?V1 q" unfolding s2_def by (rule count_step [OF E nonce_steps(1) [OF E L]])
  obtain s3 where s3: "GetBalance (mpt_ops ?sha) ?sha ?from s2 = (s3, balance ?V1 ?from)" "is_ledger ?sha kv pfx M s3 ?V1 q"
    using getter_refines(1) [OF L2] by blast
  have L4: "is_ledger ?sha kv pfx M (SubBalance (mpt_ops ?sha) ?sha ?from ?amount s3) V2 q"
    unfolding V2_def by (rule balance_refines(2) [OF s3(2)])
  obtain s5 where s5: "GetBalance (mpt_ops ?sha) ?sha ?from (SubBalance (mpt_ops ?sha) ?sha ?from ?amount s3) = (s5, balance V2 ?from)"
    "is_ledger ?sha kv pfx M s5 V2 q"
    using getter_refines(1) [OF L4] by blast
  note unf = processCrossShardTransaction_def Let_def E s2_def [symmetric] s3(1) s5(1)
  have a: "\<not> balance ?V1 ?from < ?amount"
    using p by (auto simp: unf revertStatedb_def simp del: balance_ops split: if_splits sum.splits)
  have b: "\<not> balance V2 ?from < ?price * 63000"
    using p a by (auto simp: unf revertStatedb_def new_receipt_def simp del: balance_ops split: if_splits sum.splits)
  show "?amount \<le> balance V ?from" "?price * 63000 \<le> balance V2 ?from" using a b by simp_all
  let ?s7 = "AddBalance (mpt_ops ?sha) ?sha (bh_Creator (sv_BlockHeader ctx)) (?price * 21000)
    (SubBalance (mpt_ops ?sha) ?sha ?from (?price * 63000) s5)"
  have "rooted E ?s7 w' receipt"
    using p a b record_state_ok(1) [of E sn _ "w\<lparr>wd_db := ?s7\<rparr>" w' receipt]
    by (simp add: unf new_receipt_def del: balance_ops)
  then show "\<exists>s. is_ledger ?sha kv pfx M s (credit (bh_Creator (sv_BlockHeader ctx)) (?price * 21000)
      (debit ?from (?price * 63000) V2)) q \<and> rooted E s w' receipt"
    using balance_refines(1) [OF balance_refines(2) [OF s5(2)]] by blast
qed

lemma debt_ledger:
  assumes E: "se_ops E = mpt_ops (se_sha E)" and L: "is_ledger (se_sha E) kv pfx M (wd_db w) V q"
    and a: "ApplyDebtWithoutVerify E packed coinbase d w = (w', None)"
  obtains amount fee where "dd_Amount (de_Data d) = Some amount" "debt_Fee d = Some fee" "0 \<le> amount" "0 \<le> fee" "\<not> packed (de_Hash d)"
    "is_ledger (se_sha E) kv pfx M (wd_db w') (credit coinbase fee (credit (dd_Account (de_Data d)) amount
       (open_account (se_sha E) M (dd_Account (de_Data d)) V))) q"
proof -
  let ?sha = "se_sha E" and ?acct = "dd_Account (de_Data d)"
  obtain s0 where s0: "Exist (mpt_ops ?sha) ?sha ?acct (wd_db w) = (s0, V ?acct \<noteq> None)" "is_ledger ?sha kv pfx M s0 V q"
    using getter_refines(4) [OF L] by blast
  define s1 where "s1 = (if V ?acct \<noteq> None then s0 else CreateAccount (mpt_ops ?sha) ?sha ?acct s0)"
  have L1: "is_ledger ?sha kv pfx M s1 (open_account ?sha M ?acct V) q"
    using s0(2) create_refines [OF s0(2), of ?acct] by (cases "V ?acct") (simp_all add: s1_def open_account_def)
  show thesis
    using a that balance_refines(1) [OF balance_refines(1) [OF L1]] s0(1)
    by (cases "V ?acct") (auto simp: ApplyDebtWithoutVerify_def Let_def E s1_def not_less split: if_splits option.splits)
qed

text \<open>
  C27: What a transfer to another shard costs and pays. The sender pays the amount and the
  price of 63000 gas. The creator of the block gets the price of 21000 gas if it has an account. When the other shard applies
  the debt made from the transaction, the receiver gets the amount, its account being opened if needed, and the
  creator of that block gets the price of 42000 gas if it has an account. No other balance changes. So the sum over the two
  shards is what it was when both creators have an account; the share of a creator without one is destroyed, which
  happens to every new creator's debts, since a block applies its debts before its reward opens the account.
\<close>

theorem cross_shard_conserves:
  assumes "se_ops E = mpt_ops (se_sha E)" and "is_ledger (se_sha E) kv pfx M (wd_db w) V q"
    and "Process E ctx height w = (w', Inr receipt)"
    and "GetContractByAddress (se_json E) (cr_sha256 (se_crypto E)) (mpt_ops (se_sha E)) (se_sha E) (sv_To ctx) = None"
    and "IsCrossShardTx (se_ShardCount E) (sv_Tx ctx)" and "\<not> IsEVMContract (sv_To ctx)"
    and "0 \<le> sv_Amount ctx" and "0 < sv_GasPrice ctx"
    and "NewDebtWithoutContext (se_ShardCount E) (se_Local E) (se_sha E) (sv_Tx ctx) = Some d"
    and "se_ops E2 = mpt_ops (se_sha E2)" and "is_ledger (se_sha E2) kv2 pfx2 M2 (wd_db u) U q2"
    and "ApplyDebtWithoutVerify E2 packed creator2 d u = (u', None)"
    and "creator = bh_Creator (sv_BlockHeader ctx)"
    and "share = (if V creator = None then 0 else 21000 * sv_GasPrice ctx)"
    and "share2 = (if U creator2 = None \<and> creator2 \<noteq> sv_To ctx then 0 else 42000 * sv_GasPrice ctx)"
    and "finite A" and "{sv_From ctx, sv_To ctx, creator, creator2} \<subseteq> A"
  shows "\<exists>s V' U'. is_ledger (se_sha E) kv pfx M s V' 0 \<and> rooted E s w' receipt
    \<and> is_ledger (se_sha E2) kv2 pfx2 M2 (wd_db u') U' q2
    \<and> (\<forall>a. balance V' a = balance V a - (if a = sv_From ctx then sv_Amount ctx + 63000 * sv_GasPrice ctx else 0)
         + (if a = creator then share else 0))
    \<and> (\<forall>a. balance U' a = balance U a + (if a = sv_To ctx then sv_Amount ctx else 0) + (if a = creator2 then share2 else 0))
    \<and> (\<Sum>a\<in>A. balance V' a + balance U' a) = (\<Sum>a\<in>A. balance V a + balance U a) - (63000 * sv_GasPrice ctx - share - share2)"
proof -
  let ?from = "sv_From ctx" and ?amount = "sv_Amount ctx" and ?price = "sv_GasPrice ctx"
  obtain s0 where L: "is_ledger (se_sha E) kv pfx M s0 V 0"
    and funds: "?amount + ?price * uint (td_GasLimit (tx_Data (sv_Tx ctx))) \<le> balance V ?from"
    and gas: "IntrinsicGas (se_ShardCount E) (sv_Tx ctx) \<le> td_GasLimit (tx_Data (sv_Tx ctx))"
    and p: "processCrossShardTransaction E ctx (Snapshot s0) (w\<lparr>wd_db := s0\<rparr>) = (w', Inr receipt)"
    using Process_cases [OF assms(1-3)] assms(4-6) by (auto split: if_splits)
  note cl = cross_ledger [OF assms(1) _ p, simplified, OF L]
  have f: "V ?from \<noteq> None" using cl(2) assms(8) balance_none [of V ?from] by (cases "V ?from") auto
  let ?V' = "credit creator (?price * 21000) (debit ?from (?price * 63000)
      (debit ?from ?amount (renonce ?from (td_AccountNonce (tx_Data (sv_Tx ctx)) + 1) V)))"
  obtain s where s: "is_ledger (se_sha E) kv pfx M s ?V' 0" "rooted E s w' receipt" using cl(3) assms(13) by blast
  have d: "dd_Amount (de_Data d) = td_Amount (tx_Data (sv_Tx ctx))" "dd_Price (de_Data d) = td_GasPrice (tx_Data (sv_Tx ctx))"
    "dd_Account (de_Data d) = sv_To ctx"
    using assms(9) by (auto simp: NewDebtWithoutContext_def newDebt_def Let_def sv_To_def split: if_splits)
  obtain amount fee where af: "dd_Amount (de_Data d) = Some amount" "debt_Fee d = Some fee" "0 \<le> amount" "0 \<le> fee"
    "is_ledger (se_sha E2) kv2 pfx2 M2 (wd_db u') (credit creator2 fee (credit (sv_To ctx) amount
       (open_account (se_sha E2) M2 (sv_To ctx) U))) q2"
    using debt_ledger [OF assms(10-12)] d(3) by metis
  have e: "amount = ?amount" "fee = 42000 * ?price"
    using af(1,2) d(1,2) by (auto simp: sv_Amount_def sv_GasPrice_def debt_Fee_def)
  let ?U' = "credit creator2 fee (credit (sv_To ctx) amount (open_account (se_sha E2) M2 (sv_To ctx) U))"
  have V': "balance ?V' a = balance V a - (if a = ?from then ?amount + 63000 * ?price else 0) + (if a = creator then share else 0)" for a
    using f assms(7,8) cl(1,2) ledger_nonneg [OF L, of creator] by (auto simp: assms(14))
  have U': "balance ?U' a = balance U a + (if a = sv_To ctx then ?amount else 0) + (if a = creator2 then share2 else 0)" for a
    using af(3,4) e ledger_nonneg [OF assms(11), of creator2] ledger_nonneg [OF assms(11), of "sv_To ctx"] by (auto simp: assms(15))
  have "(\<Sum>a\<in>A. balance ?V' a + balance ?U' a) = (\<Sum>a\<in>A. balance V a + balance U a) - (63000 * ?price - share - share2)"
    using assms(16,17) by (simp only: V' U') (simp add: sum.distrib sum_subtractf)
  then show ?thesis using s af(5) V' U' by blast
qed

section \<open>System contracts\<close>

lemma system_ledger:
  assumes E: "se_ops E = mpt_ops (se_sha E)" and L: "is_ledger (se_sha E) kv pfx M (wd_db w) V q"
    and c: "GetContractByAddress J f (mpt_ops (se_sha E)) (se_sha E) (sv_To ctx) = Some cmds"
    and p: "processSystemContract E ctx cmds sn left w = (w', receipt, None)"
    and ft: "sv_From ctx \<noteq> sv_To ctx" "V (sv_From ctx) \<noteq> None"
  shows "\<exists>V'. is_ledger (se_sha E) kv pfx M (wd_db w') V' q \<and> nonce_at V' (sv_From ctx) = nonce_at V (sv_To ctx)"
proof -
  let ?sha = "se_sha E" and ?from = "sv_From ctx" and ?to = "sv_To ctx"
  obtain s0 where s0: "Exist (mpt_ops ?sha) ?sha ?to (wd_db w) = (s0, V ?to \<noteq> None)" "is_ledger ?sha kv pfx M s0 V q"
    using getter_refines(4) [OF L] by blast
  define s1 where "s1 = (if V ?to \<noteq> None then s0 else CreateAccount (mpt_ops ?sha) ?sha ?to s0)"
  have L1: "is_ledger ?sha kv pfx M s1 (open_account ?sha M ?to V) q"
    using s0(2) create_refines [OF s0(2), of ?to] by (cases "V ?to") (simp_all add: s1_def open_account_def)
  define s3 where "s3 = set_count_of E ?from ?to (set_nonce_count E ?from (td_AccountNonce (tx_Data (sv_Tx ctx)) + 1) s1)"
  obtain V3 where L3: "is_ledger ?sha kv pfx M s3 V3 q" "nonce_at V3 ?from = nonce_at V ?to"
    unfolding s3_def using nonce_steps(2) [OF E nonce_steps(1) [OF E L1], of ?from ?to] ft by fastforce
  obtain s4 b where s4: "GetBalance (mpt_ops ?sha) ?sha ?from s3 = (s4, b)" "is_ledger ?sha kv pfx M s4 V3 q"
    using getter_refines(1) [OF L3(1)] by blast
  define w5 where "w5 = w\<lparr>wd_db := AddBalance (mpt_ops ?sha) ?sha ?to (sv_Amount ctx) (SubBalance (mpt_ops ?sha) ?sha ?from (sv_Amount ctx) s4)\<rparr>"
  have L5: "is_ledger ?sha kv pfx M (wd_db w5) (credit ?to (sv_Amount ctx) (debit ?from (sv_Amount ctx) V3)) q"
    using balance_refines(1) [OF balance_refines(2) [OF s4(2)]] by (simp add: w5_def)
  have "w' = fst (contract_Run cmds (td_Payload (tx_Data (sv_Tx ctx))) \<lparr>cx_tx = sv_Tx ctx, cx_header = sv_BlockHeader ctx\<rparr> w5)"
    using p s0(1) s4(1)
    by (auto simp: processSystemContract_def Let_def E s1_def [symmetric] s3_def [symmetric] w5_def [symmetric] revertStatedb_def
        simp del: not_None_eq split: prod.splits sum.splits if_splits)
  then have "wstep ?sha kv pfx M w5 w'" using contract_Run_step [OF c] by simp
  then show ?thesis using L5 L3(2) unfolding dstep_def by fastforce
qed

text \<open>
  C31: A successful call of a system contract leaves the sender with the nonce of the contract's account, not
  with the nonce after the transaction. As that account's nonce is not above the nonce of the
  transaction, the same signed transaction passes the check against the state again as long as the balance covers it.
\<close>

theorem system_contract_replay:
  assumes "se_ops E = mpt_ops (se_sha E)" and "is_ledger (se_sha E) kv pfx M (wd_db w) V q"
    and "Process E ctx height w = (w', Inr receipt)" and "\<not> rc_Failed receipt"
    and "GetContractByAddress (se_json E) (cr_sha256 (se_crypto E)) (mpt_ops (se_sha E)) (se_sha E) (sv_To ctx) = Some cmds"
    and "sv_From ctx \<noteq> sv_To ctx" and "V (sv_From ctx) \<noteq> None"
    and "td_Amount (tx_Data (sv_Tx ctx)) = Some amount" and "td_GasPrice (tx_Data (sv_Tx ctx)) = Some price"
  shows "\<exists>s V'. is_ledger (se_sha E) kv pfx M s V' 0 \<and> rooted E s w' receipt
    \<and> nonce_at V' (sv_From ctx) = nonce_at V (sv_To ctx)
    \<and> (nonce_at V (sv_To ctx) \<le> td_AccountNonce (tx_Data (sv_Tx ctx))
        \<and> amount + price * uint (td_GasLimit (tx_Data (sv_Tx ctx))) \<le> balance V' (sv_From ctx)
        \<longrightarrow> snd (ValidateState (GetBalance (se_ops E) (se_sha E) (sv_From ctx)) (GetNonce (se_ops E) (se_sha E) (sv_From ctx)) (sv_Tx ctx) s) = None)"
proof -
  let ?i = "IntrinsicGas (se_ShardCount E) (sv_Tx ctx)"
  let ?l = "td_GasLimit (tx_Data (sv_Tx ctx)) - ?i"
  obtain s0 where L: "is_ledger (se_sha E) kv pfx M s0 V 0"
    and p: "conclude E ctx height ?i (Snapshot s0) (processSystemContract E ctx cmds (Snapshot s0) ?l (w\<lparr>wd_db := s0\<rparr>)) = (w', Inr receipt)"
    using Process_cases [OF assms(1-3)] unfolding assms(5) option.case by blast
  obtain w1 receipt1 err where r: "processSystemContract E ctx cmds (Snapshot s0) ?l (w\<lparr>wd_db := s0\<rparr>) = (w1, receipt1, err)"
    by (metis prod_cases3)
  have err: "err = None"
    using conclude_flag [OF p [unfolded r] system_reach(1) [OF assms(1,5) r]] assms(4) by simp
  obtain V1 where V1: "is_ledger (se_sha E) kv pfx M (wd_db w1) V1 0" "nonce_at V1 (sv_From ctx) = nonce_at V (sv_To ctx)"
    using system_ledger [where V = V and q = 0 and kv = kv and pfx = pfx and M = M, OF assms(1) _ assms(5) r [unfolded err] assms(6,7)] L
    by auto
  have c: "charge E ctx ?i (Snapshot s0) receipt1 w1 = (w', Inr receipt)" using p r err by (simp add: conclude_def)
  let ?fee = "uint (rc_UsedGas receipt) * sv_GasPrice ctx"
  let ?V' = "credit (fee_account ctx) ?fee (debit (sv_From ctx) ?fee V1)"
  obtain s where s: "is_ledger (se_sha E) kv pfx M s ?V' 0" "rooted E s w' receipt"
    using charge_ok(1) [OF assms(1) V1(1) c] by blast
  obtain s2 where s2: "GetBalance (mpt_ops (se_sha E)) (se_sha E) (sv_From ctx) s = (s2, balance ?V' (sv_From ctx))"
    "is_ledger (se_sha E) kv pfx M s2 ?V' 0" using getter_refines(1) [OF s(1)] by blast
  obtain s3 where s3: "GetNonce (mpt_ops (se_sha E)) (se_sha E) (sv_From ctx) s2 = (s3, nonce_at ?V' (sv_From ctx))"
    using getter_refines(2) [OF s2(2)] by blast
  have n: "nonce_at ?V' (sv_From ctx) = nonce_at V (sv_To ctx)" using V1(2) by simp
  have "snd (ValidateState (GetBalance (se_ops E) (se_sha E) (sv_From ctx)) (GetNonce (se_ops E) (se_sha E) (sv_From ctx)) (sv_Tx ctx) s) = None"
    if "nonce_at V (sv_To ctx) \<le> td_AccountNonce (tx_Data (sv_Tx ctx))"
      "amount + price * uint (td_GasLimit (tx_Data (sv_Tx ctx))) \<le> balance ?V' (sv_From ctx)"
    using that s2(1) s3 n assms(8,9) unfolding ValidateState_def assms(1)
    by (simp add: Let_def not_less del: balance_ops nonce_ops)
  then show ?thesis using s n by blast
qed

lemma system_out_of_gas:
  assumes "contract_RequiredGas cmds (td_Payload (tx_Data (sv_Tx ctx))) > left"
    and "processSystemContract E ctx cmds sn left w = (w', receipt, err)"
  shows "err = Some (SvVm ErrOutOfGas) \<and> rc_UsedGas receipt = contract_RequiredGas cmds (td_Payload (tx_Data (sv_Tx ctx)))
    \<or> err \<in> {Some (SvVm ErrInsufficientBalance), Some SvPanic}"
  using assms by (auto simp: processSystemContract_def Let_def revertStatedb_def split: prod.splits if_splits sum.splits)

text \<open>
  C32: A call of a system contract whose gas limit does not cover the contract's price makes money. The transaction
  fails, but the receipt charges the full price, above the gas limit; when the sender cannot pay that fee the
  debit is dropped, and the fee is still credited.
\<close>

theorem out_of_gas_mints:
  assumes "se_ops E = mpt_ops (se_sha E)" and "is_ledger (se_sha E) kv pfx M (wd_db w) V q"
    and "Process E ctx height w = (w', Inr receipt)"
    and "GetContractByAddress (se_json E) (cr_sha256 (se_crypto E)) (mpt_ops (se_sha E)) (se_sha E) (sv_To ctx) = Some cmds"
    and "intrGas = IntrinsicGas (se_ShardCount E) (sv_Tx ctx)"
    and "required = contract_RequiredGas cmds (td_Payload (tx_Data (sv_Tx ctx)))"
    and "required > td_GasLimit (tx_Data (sv_Tx ctx)) - intrGas"
    and "fee = uint (required + intrGas) * sv_GasPrice ctx" and "balance V (sv_From ctx) < fee"
    and "fee_account ctx \<noteq> sv_From ctx" and "V (fee_account ctx) \<noteq> None"
  shows "rc_Failed receipt \<and> rc_UsedGas receipt = required + intrGas
    \<and> (\<exists>s V'. is_ledger (se_sha E) kv pfx M s V' 0 \<and> rooted E s w' receipt
          \<and> balance V' (sv_From ctx) = balance V (sv_From ctx)
          \<and> balance V' (fee_account ctx) = balance V (fee_account ctx) + fee
          \<and> (\<forall>a. a \<noteq> fee_account ctx \<longrightarrow> balance V' a = balance V a))"
proof -
  let ?l = "td_GasLimit (tx_Data (sv_Tx ctx)) - intrGas"
  obtain s0 where L: "is_ledger (se_sha E) kv pfx M s0 V 0"
    and p: "conclude E ctx height intrGas (Snapshot s0) (processSystemContract E ctx cmds (Snapshot s0) ?l (w\<lparr>wd_db := s0\<rparr>)) = (w', Inr receipt)"
    using Process_cases [OF assms(1-3)] unfolding assms(4,5) option.case by blast
  obtain w1 receipt1 err where r: "processSystemContract E ctx cmds (Snapshot s0) ?l (w\<lparr>wd_db := s0\<rparr>) = (w1, receipt1, err)"
    by (metis prod_cases3)
  note sr = system_reach [OF assms(1,4) r]
  have "err \<notin> {Some (SvVm ErrInsufficientBalance), Some SvPanic}"
    using p r by (auto simp: conclude_def revertStatedb_def split: if_splits sum.splits)
  then have err: "err = Some (SvVm ErrOutOfGas)" "rc_UsedGas receipt1 = required"
    using system_out_of_gas [OF assms(7) [unfolded assms(6)] r] assms(6) by auto
  have failed: "rc_Failed receipt" using conclude_flag [OF p [unfolded r] sr(1)] err by simp
  have r1: "db_reach (se_sha E) kv pfx M s0 (wd_db w1)" using sr(2) [of kv pfx M] err(1) by simp
  obtain n s where s: "is_ledger (se_sha E) kv pfx M s (credit (fee_account ctx) (uint (rc_UsedGas receipt) * sv_GasPrice ctx)
      (debit (sv_From ctx) (uint (rc_UsedGas receipt) * sv_GasPrice ctx)
        (if height \<le> SmartContractNonceForkHeight then V else renonce (sv_From ctx) n V))) 0"
    "rooted E s w' receipt" "rc_UsedGas receipt = rc_UsedGas receipt1 + intrGas"
    using conclude_failed [OF assms(1) L p [unfolded r] failed sr(1) r1] by blast
  have u: "rc_UsedGas receipt = required + intrGas" using s(3) err(2) by simp
  note s1 = s(1) [unfolded u, folded assms(8)]
  have f: "0 \<le> fee" using assms(9) ledger_nonneg [OF L, of "sv_From ctx"] by simp
  let ?V' = "credit (fee_account ctx) fee (debit (sv_From ctx) fee
    (if height \<le> SmartContractNonceForkHeight then V else renonce (sv_From ctx) n V))"
  have "balance ?V' (sv_From ctx) = balance V (sv_From ctx)" "balance ?V' (fee_account ctx) = balance V (fee_account ctx) + fee"
    "\<forall>a. a \<noteq> fee_account ctx \<longrightarrow> balance ?V' a = balance V a"
    using f assms(9-11) ledger_nonneg [OF L] by auto
  then show ?thesis using failed u s1 s(2) by blast
qed

section \<open>Bounds on gas and fees\<close>

lemma capped_refund_half: "unat (capped_refund u r) \<le> unat u div 2"
proof -
  have "unat (u div 2) = unat u div 2" by (simp add: unat_div)
  then show ?thesis by (auto simp: capped_refund_def Let_def word_less_nat_alt)
qed

lemma charge_gas:
  assumes "charge E ctx intr sn receipt w = (w', Inr r)"
  shows "rc_UsedGas r = rc_UsedGas receipt + intr - capped_refund (rc_UsedGas receipt + intr) (GetRefund (wd_db w))"
    "rc_TotalFee r = Uint64 (uint (rc_UsedGas r) * sv_GasPrice ctx)"
  using assms by (auto simp: charge_def Let_def handleFee_def record_state_def split: prod.splits sum.splits)

lemma refunded_gas:
  fixes limit :: uint64
  assumes "unat used + unat intr \<le> unat limit"
  shows "unat (used + intr - capped_refund (used + intr) r) \<le> unat limit"
    "unat used + unat intr \<le> 2 * unat (used + intr - capped_refund (used + intr) r)"
proof -
  have "unat limit < 2 ^ 64" using unsigned_less [of limit] by simp
  then have u: "unat (used + intr) = unat used + unat intr" using assms by (intro unat_add_lem [THEN iffD1]) simp
  note c = capped_refund_half [of "used + intr" r]
  then have "capped_refund (used + intr) r \<le> used + intr" by (simp add: word_le_nat_alt)
  then have "unat (used + intr - capped_refund (used + intr) r) = unat used + unat intr - unat (capped_refund (used + intr) r)"
    using u by (simp add: unat_sub)
  then show "unat (used + intr - capped_refund (used + intr) r) \<le> unat limit"
    "unat used + unat intr \<le> 2 * unat (used + intr - capped_refund (used + intr) r)"
    using c u assms by simp_all
qed

lemma evm_gas:
  assumes p: "processEvmContract E ctx gas w = (w', receipt, err)"
  shows "rc_UsedGas receipt \<le> gas"
proof -
  let ?F = "newEVMContext E ctx"
  have "prices_ok ?F" "precompiles_ok ?F" using default_env_ok by (simp_all add: newEVMContext_def Let_def)
  note l = interp_gas [OF this, of "Suc (unat gas)"]
  have g: "unat gas < Suc (unat gas)" by simp
  have le: "gas - left \<le> gas" if "unat left \<le> unat gas" for left
    using that by (simp add: word_le_nat_alt unat_sub)
  have "calls_ok (Suc (unat gas)) (evm_calls (interp (Suc (unat gas)) ?F) ?F)" by (rule calls_ok_evm [OF l \<open>precompiles_ok ?F\<close>])
  then have "call_ok gas (evm_Call (interp (Suc (unat gas)) ?F) ?F ev a b i gas v)"
    "create_ok gas (evm_Create (interp (Suc (unat gas)) ?F) ?F ev a i gas v)" for ev a b i v
    using g by (simp_all add: calls_ok_def evm_calls_def del: interp.simps)
  then have c: "evm_Call (interp (Suc (unat gas)) ?F) ?F ev a b i gas v = (ev', ret, left, err) \<Longrightarrow> gas - left \<le> gas"
    "evm_Create (interp (Suc (unat gas)) ?F) ?F ev a i gas v = (ev', ret, ad, left, err) \<Longrightarrow> gas - left \<le> gas"
    for ev a b i v ev' ret left err ad
    using le unfolding call_ok_def create_ok_def by (metis (no_types, lifting) case_prod_conv)+
  show ?thesis
    using p by (auto simp: processEvmContract_def Let_def simp del: interp.simps split: prod.splits if_splits dest: c)
qed

lemma Process_machine:
  assumes "Process E ctx height w = (w', Inr receipt)"
    and "GetContractByAddress (se_json E) (cr_sha256 (se_crypto E)) (se_ops E) (se_sha E) (sv_To ctx) = None"
    and "\<not> (IsCrossShardTx (se_ShardCount E) (sv_Tx ctx) \<and> \<not> IsEVMContract (sv_To ctx))"
  obtains s sn where "IntrinsicGas (se_ShardCount E) (sv_Tx ctx) \<le> td_GasLimit (tx_Data (sv_Tx ctx))"
    "conclude E ctx height (IntrinsicGas (se_ShardCount E) (sv_Tx ctx)) sn
       (processEvmContract E ctx (td_GasLimit (tx_Data (sv_Tx ctx)) - IntrinsicGas (se_ShardCount E) (sv_Tx ctx)) (w\<lparr>wd_db := s\<rparr>))
     = (w', Inr receipt)"
  using assms by (auto simp: Process_def Let_def not_less split: prod.splits option.splits if_splits)

text \<open>
  C30: Gas and fee of a transaction that the virtual machine runs, whether it succeeds or fails: the gas charged is
  at most the gas limit, it is at least half of the intrinsic gas (a refund takes at most half), and the fee, the
  gas charged times the price, is at most the gas limit times the price, which the sender was checked to own.
\<close>

theorem transaction_gas_bounds:
  assumes "Process E ctx height w = (w', Inr receipt)"
    and "GetContractByAddress (se_json E) (cr_sha256 (se_crypto E)) (se_ops E) (se_sha E) (sv_To ctx) = None"
    and "\<not> (IsCrossShardTx (se_ShardCount E) (sv_Tx ctx) \<and> \<not> IsEVMContract (sv_To ctx))"
    and "0 \<le> sv_GasPrice ctx"
  shows "rc_UsedGas receipt \<le> td_GasLimit (tx_Data (sv_Tx ctx))
    \<and> unat (IntrinsicGas (se_ShardCount E) (sv_Tx ctx)) \<le> 2 * unat (rc_UsedGas receipt)
    \<and> uint (rc_UsedGas receipt) * sv_GasPrice ctx \<le> sv_GasPrice ctx * uint (td_GasLimit (tx_Data (sv_Tx ctx)))
    \<and> rc_TotalFee receipt = Uint64 (uint (rc_UsedGas receipt) * sv_GasPrice ctx)"
proof -
  let ?i = "IntrinsicGas (se_ShardCount E) (sv_Tx ctx)" and ?limit = "td_GasLimit (tx_Data (sv_Tx ctx))"
  obtain s sn where i: "?i \<le> ?limit"
    and p: "conclude E ctx height ?i sn (processEvmContract E ctx (?limit - ?i) (w\<lparr>wd_db := s\<rparr>)) = (w', Inr receipt)"
    by (rule Process_machine [OF assms(1-3)])
  obtain w1 receipt1 err where r: "processEvmContract E ctx (?limit - ?i) (w\<lparr>wd_db := s\<rparr>) = (w1, receipt1, err)" by (metis prod_cases3)
  have u: "unat (rc_UsedGas receipt1) + unat ?i \<le> unat ?limit"
    using evm_gas [OF r] i by (simp add: word_le_nat_alt unat_sub)
  obtain w2 receipt2 where c: "charge E ctx ?i sn receipt2 w2 = (w', Inr receipt)" "rc_UsedGas receipt2 = rc_UsedGas receipt1"
    using p unfolding r by (auto simp: conclude_def revertStatedb_def split: option.splits if_splits sum.splits)
  note g = refunded_gas [OF u, of "GetRefund (wd_db w2)"]
  have used: "rc_UsedGas receipt = rc_UsedGas receipt1 + ?i - capped_refund (rc_UsedGas receipt1 + ?i) (GetRefund (wd_db w2))"
    using charge_gas(1) [OF c(1)] c(2) by simp
  have le: "rc_UsedGas receipt \<le> ?limit" using g(1) used by (simp add: word_le_nat_alt)
  have fee: "uint (rc_UsedGas receipt) * sv_GasPrice ctx \<le> sv_GasPrice ctx * uint ?limit"
    using mult_left_mono [of "uint (rc_UsedGas receipt)" "uint ?limit" "sv_GasPrice ctx"] le assms(4) by (simp add: word_le_def mult.commute)
  have "unat ?i \<le> 2 * unat (rc_UsedGas receipt)" using g(2) used by simp
  then show ?thesis using le fee charge_gas(2) [OF c(1)] by simp
qed

section \<open>Plain transfers\<close>

definition code_at :: "ledger \<Rightarrow> address \<Rightarrow> bytes" where
  "code_at V a = (case V a of None \<Rightarrow> [] | Some w \<Rightarrow> vw_code w)"

lemma code_ops [simp]:
  "code_at (credit a n V) b = code_at V b" "code_at (debit a n V) b = code_at V b" "code_at (renonce a c V) b = code_at V b"
  "code_at (open_account sha M a V) b = code_at V b"
  by (auto simp: code_at_def credit_def debit_def renonce_def on_account_apply with_amount_def open_account_def split: option.splits)

lemma code_refines:
  assumes "is_ledger sha kv pfx M s V r"
  shows "\<exists>s' c. GetCode (mpt_ops sha) sha a s = (s', c) \<and> opt_bytes c = code_at V a \<and> is_ledger sha kv pfx M s' V r"
    "is_ledger sha kv pfx M (fst (GetCodeHash (mpt_ops sha) sha a s)) V r"
proof -
  have g: "good sha kv pfx M s" and V: "sview sha M (sd_objects s) = V" using assms by (simp_all add: is_ledger_def)
  have m: "mpt_models sha kv pfx (sd_trie s) M" "state_ok sha M (sd_objects s)" using g by (simp_all add: good_def)
  have l: "is_ledger sha kv pfx M s' V r" if "reads sha M s s'" "mpt_models sha kv pfx (sd_trie s') M" for s'
    using that assms by (simp add: is_ledger_def good_def reads_def)
  show "\<exists>s' c. GetCode (mpt_ops sha) sha a s = (s', c) \<and> opt_bytes c = code_at V a \<and> is_ledger sha kv pfx M s' V r"
    using mpt.GetCode_view [OF m, of a] l by (auto simp: V code_at_def)
  show "is_ledger sha kv pfx M (fst (GetCodeHash (mpt_ops sha) sha a s)) V r"
    using mpt.getters(3) [OF m, of a] l by auto
qed

lemma call_without_code:
  assumes F: "F = chain_env shards sha getHash origin coinbase height time difficulty K"
    and L: "is_ledger sha kv pfx M s V r" and b: "v \<le> balance V a"
    and to: "PrecompiledContractsByzantium K b = None" "code_at V b = []" and sh: "Shard shards a = Shard shards b"
  shows "\<exists>ev'. evm_Call (interp n F) F (NewEVM s) a b i g v = (ev', [], g, None)
    \<and> is_ledger sha kv pfx M (ev_StateDB ev') (if V b = None \<and> v = 0 then V else credit b v (debit a v (open_account sha M b V))) r"
proof -
  obtain d0 where d0: "GetBalance (mpt_ops sha) sha a s = (d0, balance V a)" "is_ledger sha kv pfx M d0 V r"
    using getter_refines(1) [OF L] by blast
  obtain d1 where d1: "Exist (mpt_ops sha) sha b d0 = (d1, V b \<noteq> None)" "is_ledger sha kv pfx M d1 V r"
    using getter_refines(4) [OF d0(2)] by blast
  define d2 where "d2 = (if V b \<noteq> None then d1 else CreateAccount (mpt_ops sha) sha b d1)"
  have L2: "is_ledger sha kv pfx M d2 (open_account sha M b V) r"
    using d1(2) create_refines [OF d1(2), of b] by (cases "V b") (simp_all add: d2_def open_account_def)
  define d3 where "d3 = transferFunc shards (mpt_ops sha) sha a b v d2"
  let ?V3 = "credit b v (debit a v (open_account sha M b V))"
  have L3: "is_ledger sha kv pfx M d3 ?V3 r"
    using balance_refines(1) [OF balance_refines(2) [OF L2]] sh by (simp add: d3_def transferFunc_def Let_def)
  obtain d4 h where d4: "GetCodeHash (mpt_ops sha) sha b d3 = (d4, h)" "is_ledger sha kv pfx M d4 ?V3 r"
    using code_refines(2) [OF L3, of b] by (metis prod.collapse)
  obtain d5 c where d5: "GetCode (mpt_ops sha) sha b d4 = (d5, c)" "opt_bytes c = code_at ?V3 b" "is_ledger sha kv pfx M d5 ?V3 r"
    using code_refines(1) [OF d4(2), of b] by blast
  have env: "en_NoRecursion F = False" "en_CanTransfer F = canTransferFunc (mpt_ops sha) sha"
    "en_Transfer F = transferFunc shards (mpt_ops sha) sha" "en_db F = evm_db (mpt_ops sha) sha" "en_precompiles F b = None" "en_IsEIP158 F"
    using to by (simp_all add: F defaultEnv_def)
  have c: "opt_bytes c = []" using d5(2) to(2) by simp
  have "\<exists>ev'. evm_Call (interp n F) F (NewEVM s) a b i g v = (ev', [], g, None)
      \<and> ev_StateDB ev' = (if V b = None \<and> v = 0 then d1 else d5)"
    using d0(1) d1(1) d4(1) d5(1) c b
    by (cases "V b")
      (simp_all add: evm_Call_def env canTransferFunc_def evm_db_def NewEVM_def CallCreateDepth_def Let_def d2_def d3_def
        with_code_def run_def SetCallCode_def NewContract_def Run_def settle_def del: interp.simps)
  then show ?thesis using d1(2) d5(3) by auto
qed

lemma plain_ledger:
  assumes E: "se_ops E = mpt_ops (se_sha E)" and L: "is_ledger (se_sha E) kv pfx M (wd_db w) V q"
    and b: "sv_Amount ctx \<le> balance V (sv_From ctx)" and ne: "\<not> Address_IsEmpty (sv_To ctx)"
    and to: "PrecompiledContractsByzantium (se_crypto E) (sv_To ctx) = None" "code_at V (sv_To ctx) = []"
    and sh: "Shard (se_ShardCount E) (sv_From ctx) = Shard (se_ShardCount E) (sv_To ctx)"
  defines "V1 \<equiv> renonce (sv_From ctx) (td_AccountNonce (tx_Data (sv_Tx ctx)) + 1) V"
  shows "\<exists>w'. processEvmContract E ctx gas w = (w', new_receipt ctx, None)
    \<and> is_ledger (se_sha E) kv pfx M (wd_db w') (if V (sv_To ctx) = None \<and> sv_Amount ctx = 0 then V1
         else credit (sv_To ctx) (sv_Amount ctx) (debit (sv_From ctx) (sv_Amount ctx) (open_account (se_sha E) M (sv_To ctx) V1))) q"
proof -
  let ?F = "newEVMContext E ctx"
  define s2 where "s2 = set_count_of E (sv_To ctx) (sv_To ctx)
    (set_nonce_count E (sv_From ctx) (td_AccountNonce (tx_Data (sv_Tx ctx)) + 1) (wd_db w))"
  have L2: "is_ledger (se_sha E) kv pfx M s2 V1 q" unfolding s2_def V1_def by (rule count_step [OF E nonce_steps(1) [OF E L]])
  have F: "?F = chain_env (se_ShardCount E) (se_sha E) (se_GetHash E (sv_BlockHeader ctx)) (sv_From ctx)
      (bh_Creator (sv_BlockHeader ctx)) (bh_Height (sv_BlockHeader ctx))
      (case bh_CreateTimestamp (sv_BlockHeader ctx) of None \<Rightarrow> 0 | Some t \<Rightarrow> t) (case bh_Difficulty (sv_BlockHeader ctx) of None \<Rightarrow> 0 | Some d \<Rightarrow> d)
      (se_crypto E)"
    by (simp add: newEVMContext_def Let_def E)
  have v: "sv_Amount ctx \<le> balance V1 (sv_From ctx)" "code_at V1 (sv_To ctx) = []" using b to(2) by (simp_all add: V1_def)
  obtain ev where ev: "evm_Call (interp (Suc (unat gas)) ?F) ?F (NewEVM s2) (sv_From ctx) (sv_To ctx) (td_Payload (tx_Data (sv_Tx ctx))) gas (sv_Amount ctx)
      = (ev, [], gas, None)"
    "is_ledger (se_sha E) kv pfx M (ev_StateDB ev) (if V1 (sv_To ctx) = None \<and> sv_Amount ctx = 0 then V1
       else credit (sv_To ctx) (sv_Amount ctx) (debit (sv_From ctx) (sv_Amount ctx) (open_account (se_sha E) M (sv_To ctx) V1))) q"
    using call_without_code [OF F L2 v(1) to(1) v(2) sh] by blast
  have "processEvmContract E ctx gas w = (w\<lparr>wd_db := ev_StateDB ev\<rparr>, new_receipt ctx, None)"
    using ne ev(1) by (simp add: processEvmContract_def Let_def s2_def [symmetric] new_receipt_def vm_result_def del: interp.simps)
  then show ?thesis using ev(2) by (simp add: V1_def)
qed

text \<open>
  C29: A transfer between two accounts of a shard, the receiver having no code. The sender pays the amount and the
  price of the intrinsic gas, the receiver gets the amount, the fee account the price of the gas; no other
  balance changes, the receipt is not a failure, and the nonce of the sender is the one after the transaction's.
\<close>

theorem plain_transfer:
  assumes "se_ops E = mpt_ops (se_sha E)" and "is_ledger (se_sha E) kv pfx M (wd_db w) V q"
    and "Process E ctx height w = (w', Inr receipt)"
    and "GetContractByAddress (se_json E) (cr_sha256 (se_crypto E)) (mpt_ops (se_sha E)) (se_sha E) (sv_To ctx) = None"
    and "Shard (se_ShardCount E) (sv_From ctx) = Shard (se_ShardCount E) (sv_To ctx)" and "\<not> Address_IsEmpty (sv_To ctx)"
    and "PrecompiledContractsByzantium (se_crypto E) (sv_To ctx) = None" and "code_at V (sv_To ctx) = []"
    and "0 \<le> sv_Amount ctx" and "0 < sv_GasPrice ctx"
    and "distinct [sv_From ctx, sv_To ctx, fee_account ctx]" and "V (fee_account ctx) \<noteq> None" and "V (sv_From ctx) \<noteq> None"
    and "gas = IntrinsicGas (se_ShardCount E) (sv_Tx ctx)"
  shows "\<not> rc_Failed receipt \<and> rc_UsedGas receipt = gas
    \<and> (\<exists>s V'. is_ledger (se_sha E) kv pfx M s V' 0 \<and> rooted E s w' receipt
          \<and> balance V' (sv_From ctx) = balance V (sv_From ctx) - sv_Amount ctx - uint gas * sv_GasPrice ctx
          \<and> balance V' (sv_To ctx) = balance V (sv_To ctx) + sv_Amount ctx
          \<and> balance V' (fee_account ctx) = balance V (fee_account ctx) + uint gas * sv_GasPrice ctx
          \<and> (\<forall>a. a \<notin> {sv_From ctx, sv_To ctx, fee_account ctx} \<longrightarrow> balance V' a = balance V a)
          \<and> nonce_at V' (sv_From ctx) = td_AccountNonce (tx_Data (sv_Tx ctx)) + 1)"
proof -
  let ?from = "sv_From ctx" and ?to = "sv_To ctx" and ?v = "sv_Amount ctx" and ?p = "sv_GasPrice ctx"
  let ?limit = "td_GasLimit (tx_Data (sv_Tx ctx))"
  have nc: "\<not> IsCrossShardTx (se_ShardCount E) (sv_Tx ctx)" using assms(5) by (simp add: IsCrossShardTx_def sv_From_def sv_To_def)
  obtain s0 where L: "is_ledger (se_sha E) kv pfx M s0 V 0" and g: "gas \<le> ?limit" and b: "?v + ?p * uint ?limit \<le> balance V ?from"
    and p: "conclude E ctx height gas (Snapshot s0) (processEvmContract E ctx (?limit - gas) (w\<lparr>wd_db := s0\<rparr>)) = (w', Inr receipt)"
    using Process_cases [OF assms(1-3)] nc unfolding assms(4,14) option.case by auto
  have pos: "0 \<le> uint gas * ?p" "uint gas * ?p \<le> ?p * uint ?limit"
    using g assms(10) mult_left_mono [of "uint gas" "uint ?limit" ?p] by (simp_all add: word_le_def mult.commute)
  have bal: "?v \<le> balance V ?from" using b pos by linarith
  define V1 where "V1 = renonce ?from (td_AccountNonce (tx_Data (sv_Tx ctx)) + 1) V"
  define V2 where "V2 = (if V ?to = None \<and> ?v = 0 then V1 else credit ?to ?v (debit ?from ?v (open_account (se_sha E) M ?to V1)))"
  obtain w1 where w1: "processEvmContract E ctx (?limit - gas) (w\<lparr>wd_db := s0\<rparr>) = (w1, new_receipt ctx, None)"
    "is_ledger (se_sha E) kv pfx M (wd_db w1) V2 0"
    using plain_ledger [where V = V and q = 0 and kv = kv and pfx = pfx and M = M and w = "w\<lparr>wd_db := s0\<rparr>",
        OF assms(1) _ bal assms(6-8,5)] L unfolding V1_def V2_def by auto
  have c: "charge E ctx gas (Snapshot s0) (new_receipt ctx) w1 = (w', Inr receipt)" using p w1(1) by (simp add: conclude_def)
  note ch = charge_ok [OF assms(1) w1(2) c]
  have used: "rc_UsedGas receipt = gas" "\<not> rc_Failed receipt"
    using ch(2,3) by (simp_all add: new_receipt_def capped_refund_def Let_def)
  let ?V3 = "credit (fee_account ctx) (uint gas * ?p) (debit ?from (uint gas * ?p) V2)"
  obtain s where s: "is_ledger (se_sha E) kv pfx M s ?V3 0" "rooted E s w' receipt" using ch(1) used(1) by auto
  have "V2 a = None \<longleftrightarrow> V a = None \<and> (a \<noteq> ?to \<or> ?v = 0)" for a by (auto simp: V2_def V1_def)
  moreover have "balance V2 a = (if a = ?from then balance V ?from - ?v else if a = ?to then balance V ?to + ?v else balance V a)" for a
    using assms(9,11,13) bal ledger_nonneg [OF L, of ?to] by (auto simp: V2_def V1_def balance_none)
  moreover have "nonce_at V2 ?from = td_AccountNonce (tx_Data (sv_Tx ctx)) + 1" using assms(13) by (simp add: V2_def V1_def)
  ultimately have "balance ?V3 ?from = balance V ?from - ?v - uint gas * ?p" "balance ?V3 ?to = balance V ?to + ?v"
    "balance ?V3 (fee_account ctx) = balance V (fee_account ctx) + uint gas * ?p"
    "\<forall>a. a \<notin> {?from, ?to, fee_account ctx} \<longrightarrow> balance ?V3 a = balance V a"
    "nonce_at ?V3 ?from = td_AccountNonce (tx_Data (sv_Tx ctx)) + 1"
    using assms(11-13) pos b ledger_nonneg [OF L, of "fee_account ctx"] by auto
  then show ?thesis using used s by blast
qed

end
