(* ===== verification/Svm_Witness.thy ===== *)
theory Svm_Witness
  imports Svm_Ledger "HOL-Library.Code_Target_Nat"
begin

text \<open>
  Concrete transactions for the theorems on transaction processing: a plain transfer, a transfer to
  another shard, and calls of the domain name contract with too little gas and with enough.
\<close>

definition person :: "byte \<Rightarrow> byte \<Rightarrow> address" where "person x k = replicate 12 0 @ x # replicate 6 0 @ [k]"

abbreviation alice where "alice \<equiv> person 7 0x11"
abbreviation bob where "bob \<equiv> person 8 0x01"
abbreviation carol where "carol \<equiv> person 9 0x01"
abbreviation miner where "miner \<equiv> person 10 0x01"

definition no_json :: json_ops where
  "no_json = \<lparr>js_HashTimeLock = (\<lambda>_. None), js_Withdrawing = (\<lambda>_. None), js_htlc = (\<lambda>_. None), js_of_htlc = (\<lambda>_. None),
     js_SubChainInfo = (\<lambda>_. None), js_of_SubChainInfo = (\<lambda>_. None), js_RelayRequest = (\<lambda>_. None), js_blocks = (\<lambda>_. None),
     js_of_blocks = (\<lambda>_. None)\<rparr>"

definition sample_svm :: "trie svm_env" where
  "sample_svm = \<lparr>se_ShardCount = 2, se_Local = 1, se_ops = mpt_ops sample_hash, se_sha = sample_hash, se_crypto = sample_crypto,
     se_json = no_json, se_GetHash = (\<lambda>_ _. EmptyHash), se_order = (\<lambda>_. (\<lambda>a. if a = DomainNameContractAddress then [BytesToHash [97]] else [],
       [alice, bob, carol, miner, DomainNameContractAddress])), se_Error = (\<lambda>_. [1])\<rparr>"

definition sample_header :: BlockHeader where
  "sample_header = \<lparr>bh_PreviousBlockHash = EmptyHash, bh_Creator = miner, bh_StateHash = EmptyHash, bh_TxHash = EmptyHash,
     bh_ReceiptHash = EmptyHash, bh_TxDebtHash = EmptyHash, bh_DebtHash = EmptyHash, bh_Difficulty = Some 1, bh_Height = 2000000,
     bh_CreateTimestamp = Some 100, bh_Witness = [], bh_SecondWitness = [], bh_Consensus = 0, bh_ExtraData = []\<rparr>"

definition sample_call :: "address \<Rightarrow> int \<Rightarrow> uint64 \<Rightarrow> bytes \<Rightarrow> svm_ctx" where
  "sample_call to amount limit payload =
     \<lparr>sv_Tx = \<lparr>tx_Hash = EmptyHash, tx_Data = \<lparr>td_Type = TxTypeRegular, td_From = alice, td_To = to, td_Amount = Some amount, td_AccountNonce = 3,
        td_GasPrice = Some 2, td_GasLimit = limit, td_Timestamp = 0, td_Payload = payload\<rparr>, tx_Signature = []\<rparr>,
      sv_TxIndex = 1, sv_BlockHeader = sample_header\<rparr>"

definition sample_state :: "int \<Rightarrow> trie statedb" where
  "sample_state n = fold (sdb_exec (mpt_ops sample_hash) sample_hash)
     [OpCreateAccount alice, OpSetBalance alice n, OpCreateAccount miner]
     (NewStatedbWithTrie (NewEmptyTrie TrieDbPrefix Map.empty))"

definition sample_world :: "int \<Rightarrow> trie world" where
  "sample_world n = \<lparr>wd_db = sample_state n, wd_preBlockHeight = 0\<rparr>"

definition sample_ledger :: "int \<Rightarrow> ledger" where
  "sample_ledger n = sview sample_hash Map.empty (sd_objects (sample_state n))"

lemma sample_is_ledger:
  "is_ledger sample_hash Map.empty TrieDbPrefix Map.empty (wd_db (sample_world n)) (sample_ledger n) (sd_refund (sample_state n))"
proof -
  have "sdb_path (mpt_ops sample_hash) sample_hash 0 (NewStatedbWithTrie (NewEmptyTrie TrieDbPrefix Map.empty)) (sample_state n)"
    unfolding sample_state_def by (rule path_fold)
  from path_state [OF sample_empty this] show ?thesis
    by (simp add: is_ledger_def good_def sample_ledger_def sample_world_def)
qed

lemma sample_ops: "se_ops sample_svm = mpt_ops (se_sha sample_svm)"
  by (simp add: sample_svm_def)

lemma ok_result: "\<not> isl (snd r) \<Longrightarrow> \<exists>w' x. r = (w', Inr x)"
  by (metis isl_def prod.collapse sum.exhaust)

lemma some_account: "\<not> Option.is_none x \<Longrightarrow> x \<noteq> None"
  by (cases x) simp_all

definition transfer :: svm_ctx where "transfer = sample_call bob 5 21000 []"
definition remote :: svm_ctx where "remote = sample_call carol 5 42000 []"
definition short_call :: svm_ctx where "short_call = sample_call DomainNameContractAddress 0 30000 [0, 97]"
definition full_call :: svm_ctx where "full_call = sample_call DomainNameContractAddress 0 130000 [0, 97]"

lemmas sample_fields = transfer_def remote_def short_call_def full_call_def sample_call_def sv_From_def sv_To_def sv_Amount_def
  sv_GasPrice_def fee_account_def sample_header_def BftConsensus_def

lemma transfer_runs: "\<not> isl (snd (Process sample_svm transfer 2000000 (sample_world 200000)))"
  by code_simp

lemma remote_runs: "\<not> isl (snd (Process sample_svm remote 2000000 (sample_world 200000)))"
  by code_simp

lemma short_call_runs: "\<not> isl (snd (Process sample_svm short_call 2000000 (sample_world 60000)))"
  by code_simp

lemma full_call_runs:
  "\<not> isl (snd (Process sample_svm full_call 2000000 (sample_world 600000)))"
  "case snd (Process sample_svm full_call 2000000 (sample_world 600000)) of Inl e \<Rightarrow> True | Inr r \<Rightarrow> \<not> rc_Failed r"
  by code_simp+

lemma sample_accounts:
  "\<not> Option.is_none (sample_ledger 200000 alice)" "\<not> Option.is_none (sample_ledger 200000 miner)"
  "\<not> Option.is_none (sample_ledger 60000 miner)" "\<not> Option.is_none (sample_ledger 600000 alice)"
  "balance (sample_ledger 200000) alice = 200000" "balance (sample_ledger 200000) miner = 0" "balance (sample_ledger 200000) bob = 0"
  "balance (sample_ledger 60000) alice = 60000" "balance (sample_ledger 60000) miner = 0"
  "code_at (sample_ledger 200000) bob = []" "nonce_at (sample_ledger 600000) DomainNameContractAddress = 0"
  by code_simp+

lemma sample_contracts:
  "GetContractByAddress (se_json sample_svm) (cr_sha256 (se_crypto sample_svm)) (mpt_ops (se_sha sample_svm)) (se_sha sample_svm) bob = None"
  "GetContractByAddress (se_json sample_svm) (cr_sha256 (se_crypto sample_svm)) (mpt_ops (se_sha sample_svm)) (se_sha sample_svm) carol = None"
  "GetContractByAddress (se_json sample_svm) (cr_sha256 (se_crypto sample_svm)) (mpt_ops (se_sha sample_svm)) (se_sha sample_svm)
     DomainNameContractAddress = Some (domainNameCommands (mpt_ops sample_hash) sample_hash)"
  by (simp_all add: GetContractByAddress_def DomainNameContractAddress_def SubChainContractAddress_def HashTimeLockContractAddress_def
      MasternodeContractAddress_def BTCRelayContractAddress_def BytesToAddress_def person_def AddressLen_def sample_svm_def numeral_eq_Suc)

lemma sample_params:
  "se_sha sample_svm = sample_hash" "se_ShardCount sample_svm = 2" "se_Local sample_svm = 1" "se_crypto sample_svm = sample_crypto"
  by (simp_all add: sample_svm_def)

lemma sample_shards:
  "Shard 2 alice = 1" "Shard 2 bob = 1" "Shard 2 carol = 2" "\<not> Address_IsEmpty bob" "\<not> Address_IsEmpty carol" "\<not> IsReserved carol"
  "\<not> IsEVMContract carol" "\<not> Address_IsEmpty alice" "PrecompiledContractsByzantium sample_crypto bob = None"
  "alice \<noteq> bob" "alice \<noteq> miner" "bob \<noteq> miner" "carol \<noteq> miner" "alice \<noteq> DomainNameContractAddress"
  by code_simp+

lemma transfer_fields:
  "sv_From transfer = alice" "sv_To transfer = bob" "sv_Amount transfer = 5" "sv_GasPrice transfer = 2" "fee_account transfer = miner"
  "td_AccountNonce (tx_Data (sv_Tx transfer)) = 3" "IntrinsicGas 2 (sv_Tx transfer) = 21000"
  using sample_shards by (simp_all add: IntrinsicGas_def IsCrossShardTx_def sample_fields ethIntrinsicGas_def TxGas_def)

theorem plain_transfer_witness:
  "\<exists>w' receipt s V'. Process sample_svm transfer 2000000 (sample_world 200000) = (w', Inr receipt)
     \<and> is_ledger sample_hash Map.empty TrieDbPrefix Map.empty s V' 0 \<and> rooted sample_svm s w' receipt
     \<and> balance V' alice = 157995 \<and> balance V' bob = 5 \<and> balance V' miner = 42000 \<and> nonce_at V' alice = 4"
proof -
  obtain w' receipt where p: "Process sample_svm transfer 2000000 (sample_world 200000) = (w', Inr receipt)"
    using ok_result [OF transfer_runs] by blast
  have d: "distinct [alice, bob, miner]" using sample_shards by simp
  note some = sample_accounts(1,2) [THEN some_account]
  note L = sample_is_ledger [of 200000, folded sample_params(1)]
  have "\<not> rc_Failed receipt \<and> rc_UsedGas receipt = 21000
    \<and> (\<exists>s V'. is_ledger sample_hash Map.empty TrieDbPrefix Map.empty s V' 0 \<and> rooted sample_svm s w' receipt
          \<and> balance V' alice = balance (sample_ledger 200000) alice - 5 - uint (21000 :: uint64) * 2
          \<and> balance V' bob = balance (sample_ledger 200000) bob + 5
          \<and> balance V' miner = balance (sample_ledger 200000) miner + uint (21000 :: uint64) * 2
          \<and> (\<forall>a. a \<notin> {alice, bob, miner} \<longrightarrow> balance V' a = balance (sample_ledger 200000) a)
          \<and> nonce_at V' alice = 3 + 1)"
    by (rule plain_transfer [OF sample_ops L p, unfolded transfer_fields sample_params])
      (use sample_contracts(1) sample_shards sample_accounts(10) d some in \<open>simp_all add: sample_params transfer_fields\<close>)
  then show ?thesis using p sample_accounts by auto
qed

lemma short_call_fields:
  "sv_From short_call = alice" "sv_To short_call = DomainNameContractAddress" "sv_GasPrice short_call = 2" "fee_account short_call = miner"
  "td_AccountNonce (tx_Data (sv_Tx short_call)) = 3" "td_GasLimit (tx_Data (sv_Tx short_call)) = 30000"
  "IntrinsicGas 2 (sv_Tx short_call) = 21072" "td_Payload (tx_Data (sv_Tx short_call)) = [0, 97]"
  by code_simp+

lemma short_call_required: "contract_RequiredGas (domainNameCommands (mpt_ops sample_hash) sample_hash) [0, 97] = 50000"
  by (simp add: contract_RequiredGas_def domainNameCommands_def)

theorem out_of_gas_mints_witness:
  "\<exists>w' receipt s V'. Process sample_svm short_call 2000000 (sample_world 60000) = (w', Inr receipt) \<and> rc_UsedGas receipt = 71072
     \<and> is_ledger sample_hash Map.empty TrieDbPrefix Map.empty s V' 0 \<and> rooted sample_svm s w' receipt
     \<and> balance V' alice = 60000 \<and> balance V' miner = 142144"
proof -
  obtain w' receipt where p: "Process sample_svm short_call 2000000 (sample_world 60000) = (w', Inr receipt)"
    using ok_result [OF short_call_runs] by blast
  note L = sample_is_ledger [of 60000, folded sample_params(1)]
  have "rc_Failed receipt \<and> rc_UsedGas receipt = 50000 + 21072
    \<and> (\<exists>s V'. is_ledger sample_hash Map.empty TrieDbPrefix Map.empty s V' 0 \<and> rooted sample_svm s w' receipt
          \<and> balance V' alice = balance (sample_ledger 60000) alice
          \<and> balance V' miner = balance (sample_ledger 60000) miner + 142144
          \<and> (\<forall>a. a \<noteq> miner \<longrightarrow> balance V' a = balance (sample_ledger 60000) a))"
    by (rule out_of_gas_mints [where cmds = "domainNameCommands (mpt_ops sample_hash) sample_hash", OF sample_ops L p, unfolded short_call_fields sample_params])
      (use sample_contracts(3) sample_shards sample_accounts sample_accounts(3) [THEN some_account] in
        \<open>simp_all add: sample_params short_call_fields short_call_required\<close>)
  then show ?thesis using p sample_accounts by auto
qed

lemma short_call_paid:
  "case snd (Process sample_svm short_call 2000000 (sample_world 200000)) of Inl e \<Rightarrow> False
   | Inr r \<Rightarrow> rc_Failed r \<and> rc_UsedGas r = 71072"
  by code_simp

theorem failed_transaction_effect_witness:
  "\<exists>w' receipt n s V'. Process sample_svm short_call 2000000 (sample_world 200000) = (w', Inr receipt) \<and> rc_Failed receipt
     \<and> is_ledger sample_hash Map.empty TrieDbPrefix Map.empty s V' 0 \<and> rooted sample_svm s w' receipt
     \<and> V' = credit miner 142144 (debit alice 142144 (renonce alice n (sample_ledger 200000)))
     \<and> balance V' alice = 57856 \<and> balance V' miner = 142144 \<and> 3 < n"
proof -
  obtain w' receipt where p: "Process sample_svm short_call 2000000 (sample_world 200000) = (w', Inr receipt)"
    and f: "rc_Failed receipt" and g: "rc_UsedGas receipt = 71072"
    using short_call_paid ok_result [of "Process sample_svm short_call 2000000 (sample_world 200000)"]
    by (cases "snd (Process sample_svm short_call 2000000 (sample_world 200000))") auto
  note L = sample_is_ledger [of 200000, folded sample_params(1)]
  obtain n s where n: "is_ledger sample_hash Map.empty TrieDbPrefix Map.empty s
      (credit miner 142144 (debit alice 142144 (renonce alice n (sample_ledger 200000)))) 0" "rooted sample_svm s w' receipt" "3 < n"
    using failed_transaction_effect [OF sample_ops L p f refl, unfolded g] sample_accounts(5)
    by (auto simp: short_call_fields sample_params SmartContractNonceForkHeight_def)
  then show ?thesis using p f sample_accounts sample_accounts(1,2) [THEN some_account] sample_shards
    by (intro exI [of _ w'] exI [of _ receipt] exI [of _ n] exI [of _ s] exI) auto
qed

theorem transaction_gas_bounds_witness:
  "\<exists>w' receipt. Process sample_svm transfer 2000000 (sample_world 200000) = (w', Inr receipt)
     \<and> rc_UsedGas receipt \<le> 21000 \<and> 21000 \<le> 2 * unat (rc_UsedGas receipt)"
proof -
  obtain w' receipt where p: "Process sample_svm transfer 2000000 (sample_world 200000) = (w', Inr receipt)"
    using ok_result [OF transfer_runs] by blast
  have l: "td_GasLimit (tx_Data (sv_Tx transfer)) = 21000" by (simp add: sample_fields)
  have c: "\<not> IsCrossShardTx 2 (sv_Tx transfer)" using sample_shards by (simp add: IsCrossShardTx_def sample_fields)
  show ?thesis
    using transaction_gas_bounds [OF p, unfolded transfer_fields sample_params l sample_ops] p sample_contracts(1) c
    by (simp add: sample_params transfer_fields)
qed

definition cash :: "Debt \<Rightarrow> trie world \<times> svm_error option" where
  "cash d = ApplyDebtWithoutVerify sample_svm (\<lambda>_. False) miner d (sample_world 0)"

lemma remote_fields:
  "sv_From remote = alice" "sv_To remote = carol" "sv_Amount remote = 5" "sv_GasPrice remote = 2" "bh_Creator (sv_BlockHeader remote) = miner"
  "IsCrossShardTx 2 (sv_Tx remote)"
  using sample_shards by (simp_all add: IsCrossShardTx_def sample_fields)

lemma remote_debt:
  "case NewDebtWithoutContext 2 1 sample_hash (sv_Tx remote) of None \<Rightarrow> False | Some d \<Rightarrow> Option.is_none (snd (cash d))"
  "\<not> Option.is_none (sample_ledger 0 miner)" "balance (sample_ledger 0) miner = 0" "balance (sample_ledger 0) carol = 0"
  by code_simp+

theorem cross_shard_conserves_witness:
  "\<exists>w' receipt d u' s V' U'. Process sample_svm remote 2000000 (sample_world 200000) = (w', Inr receipt)
     \<and> NewDebtWithoutContext 2 1 sample_hash (sv_Tx remote) = Some d
     \<and> ApplyDebtWithoutVerify sample_svm (\<lambda>_. False) miner d (sample_world 0) = (u', None)
     \<and> is_ledger sample_hash Map.empty TrieDbPrefix Map.empty s V' 0
     \<and> is_ledger sample_hash Map.empty TrieDbPrefix Map.empty (wd_db u') U' (sd_refund (sample_state 0))
     \<and> balance V' alice = 73995 \<and> balance V' miner = 42000 \<and> balance U' carol = 5 \<and> balance U' miner = 84000"
proof -
  obtain w' receipt where p: "Process sample_svm remote 2000000 (sample_world 200000) = (w', Inr receipt)"
    using ok_result [OF remote_runs] by blast
  obtain d u' where d: "NewDebtWithoutContext 2 1 sample_hash (sv_Tx remote) = Some d"
    and a: "ApplyDebtWithoutVerify sample_svm (\<lambda>_. False) miner d (sample_world 0) = (u', None)"
    using remote_debt(1) by (auto simp: cash_def Option.is_none_def split: option.splits) (metis prod.collapse)
  note L = sample_is_ledger [of 200000, folded sample_params(1)] and L2 = sample_is_ledger [of 0, folded sample_params(1)]
  note some = sample_accounts(2) [THEN some_account] remote_debt(2) [THEN some_account]
  have "\<exists>s V' U'. is_ledger sample_hash Map.empty TrieDbPrefix Map.empty s V' 0 \<and> rooted sample_svm s w' receipt
    \<and> is_ledger sample_hash Map.empty TrieDbPrefix Map.empty (wd_db u') U' (sd_refund (sample_state 0))
    \<and> (\<forall>a. balance V' a = balance (sample_ledger 200000) a - (if a = alice then 5 + 63000 * 2 else 0) + (if a = miner then 42000 else 0))
    \<and> (\<forall>a. balance U' a = balance (sample_ledger 0) a + (if a = carol then 5 else 0) + (if a = miner then 84000 else 0))
    \<and> (\<Sum>a\<in>{alice, carol, miner}. balance V' a + balance U' a)
      = (\<Sum>a\<in>{alice, carol, miner}. balance (sample_ledger 200000) a + balance (sample_ledger 0) a) - (63000 * 2 - 42000 - 84000)"
    by (rule cross_shard_conserves [where creator = miner and ?creator2.0 = miner and ?E2.0 = sample_svm and packed = "\<lambda>_. False",
          OF sample_ops L p, unfolded remote_fields sample_params])
      (use sample_contracts(2) remote_fields(6) d a L2 sample_ops some sample_shards in \<open>simp_all add: sample_params\<close>)
  then show ?thesis using p d a sample_accounts(5,6) remote_debt(3,4) sample_shards by fastforce
qed

lemma full_call_fields:
  "sv_From full_call = alice" "sv_To full_call = DomainNameContractAddress" "td_AccountNonce (tx_Data (sv_Tx full_call)) = 3"
  "td_Amount (tx_Data (sv_Tx full_call)) = Some 0" "td_GasPrice (tx_Data (sv_Tx full_call)) = Some 2"
  "td_GasLimit (tx_Data (sv_Tx full_call)) = 130000"
  by (simp_all add: sample_fields)

theorem system_contract_replay_witness:
  "\<exists>w' receipt s V'. Process sample_svm full_call 2000000 (sample_world 600000) = (w', Inr receipt) \<and> \<not> rc_Failed receipt
     \<and> is_ledger sample_hash Map.empty TrieDbPrefix Map.empty s V' 0 \<and> nonce_at V' alice = 0"
proof -
  obtain w' receipt where p: "Process sample_svm full_call 2000000 (sample_world 600000) = (w', Inr receipt)"
    using ok_result [OF full_call_runs(1)] by blast
  have f: "\<not> rc_Failed receipt" using full_call_runs(2) p by simp
  note L = sample_is_ledger [of 600000, folded sample_params(1)]
  have "\<exists>s V'. is_ledger sample_hash Map.empty TrieDbPrefix Map.empty s V' 0 \<and> nonce_at V' alice = nonce_at (sample_ledger 600000) DomainNameContractAddress"
    using system_contract_replay [OF sample_ops L p f, unfolded full_call_fields sample_params, OF sample_contracts(3) [unfolded sample_params] _ _ refl refl]
      sample_shards(14) sample_accounts(4) [THEN some_account] by blast
  then show ?thesis using p f sample_accounts(11) by auto
qed

end
