(* ===== verification/System_Witness.thy ===== *)
theory System_Witness
  imports System_Laws Svm_Witness
begin

text \<open>
  Concrete states and inputs for the theorems on the system contracts: a name to register, a registered
  masternode, a stored hash time lock and a relayed block.
\<close>

definition contract_state :: "sdb_op list \<Rightarrow> trie statedb" where
  "contract_state ops = fold (sdb_exec (mpt_ops sample_hash) sample_hash) ops (NewStatedbWithTrie (NewEmptyTrie TrieDbPrefix Map.empty))"

definition contract_world :: "sdb_op list \<Rightarrow> trie world" where
  "contract_world ops = \<lparr>wd_db = contract_state ops, wd_preBlockHeight = 0\<rparr>"

definition contract_ledger :: "sdb_op list \<Rightarrow> ledger" where
  "contract_ledger ops = sview sample_hash Map.empty (sd_objects (contract_state ops))"

lemma contract_is_ledger:
  "is_ledger sample_hash Map.empty TrieDbPrefix Map.empty (wd_db (contract_world ops)) (contract_ledger ops) (sd_refund (contract_state ops))"
proof -
  have "sdb_path (mpt_ops sample_hash) sample_hash 0 (NewStatedbWithTrie (NewEmptyTrie TrieDbPrefix Map.empty)) (contract_state ops)"
    unfolding contract_state_def by (rule path_fold)
  from path_state [OF sample_empty this] show ?thesis
    by (simp add: is_ledger_def good_def contract_ledger_def contract_world_def)
qed

definition by_person :: "address \<Rightarrow> int \<Rightarrow> uint64 \<Rightarrow> int \<Rightarrow> sys_ctx" where
  "by_person a n height time = \<lparr>cx_tx = \<lparr>tx_Hash = EmptyHash, tx_Data = \<lparr>td_Type = TxTypeRegular, td_From = a, td_To = HashTimeLockContractAddress,
      td_Amount = Some n, td_AccountNonce = 0, td_GasPrice = Some 1, td_GasLimit = 0, td_Timestamp = 0, td_Payload = []\<rparr>, tx_Signature = []\<rparr>,
    cx_header = sample_header\<lparr>bh_Height := height, bh_CreateTimestamp := Some time\<rparr>\<rparr>"

lemma by_person_fields [simp]:
  "cx_From (by_person a n height time) = a" "cx_Amount (by_person a n height time) = n" "bh_Height (cx_header (by_person a n height time)) = height"
  by (simp_all add: by_person_def cx_From_def cx_Amount_def)

section \<open>Domain names\<close>

definition abc :: bytes where "abc = [0x61, 0x62, 0x63]"

lemma abc_key: "domainNameToKey abc = Inr (BytesToHash abc)"
  by code_simp

theorem domain_case_kept_witness:
  "\<exists>key2. domainNameToKey abc = Inr (BytesToHash abc) \<and> domainNameToKey [0x61, 0x42, 0x63] = Inr key2 \<and> key2 \<noteq> BytesToHash abc"
proof -
  have a: "list_all (\<lambda>b. b < 128) abc" by (simp add: abc_def)
  have "ToLower [0x61, 0x42, 0x63] = ToLower abc" by code_simp
  then show ?thesis using domain_case_kept [OF a _ abc_key, of "[0x61, 0x42, 0x63]"] abc_key by (simp add: abc_def)
qed

theorem domain_key_collision_witness:
  "domainNameToKey (abc @ concat (replicate 12 [0xE2, 0x84, 0xAA])) = domainNameToKey (concat (replicate 12 [0xE2, 0x84, 0xAA]))"
  by (rule conjunct1 [OF domain_key_collision [OF _ _ _ _ refl]])
    (simp_all add: abc_def name_char_def maxDomainNameLength_def HashLength_def)

lemma abc_free: "data_at (open_account sample_hash Map.empty DomainNameContractAddress (contract_ledger [])) DomainNameContractAddress (BytesToHash abc) = []"
  by code_simp

theorem domain_name_registration_witness:
  "\<exists>w1. createDomainName (mpt_ops sample_hash) sample_hash abc (by_person alice 0 5 100) (contract_world []) = (w1, Inr alice)
    \<and> snd (getDomainNameOwner (mpt_ops sample_hash) sample_hash abc (by_person bob 0 6 100)
        (domain_calls sample_hash [(0 # abc, by_person bob 0 6 100)] w1)) = Inr alice
    \<and> snd (createDomainName (mpt_ops sample_hash) sample_hash abc (by_person bob 0 6 100)
        (domain_calls sample_hash [(0 # abc, by_person bob 0 6 100)] w1)) = Inl errExists"
proof -
  let ?c = "createDomainName (mpt_ops sample_hash) sample_hash abc (by_person alice 0 5 100) (contract_world [])"
  have n: "cx_From (by_person alice 0 5 100) \<noteq> []" by (simp add: person_def)
  show ?thesis
    using domain_name_registration [OF contract_is_ledger [of "[]"] abc_key n refl, where ?w1.0 = "fst ?c" and res = "snd ?c"] abc_free
    by (intro exI [of _ "fst ?c"]) (simp add: prod_eq_iff)
qed

section \<open>Masternodes\<close>

definition node_ops :: "sdb_op list" where
  "node_ops = [OpCreateAccount MasternodeContractAddress, OpSetBalance MasternodeContractAddress (2 * depositLimit), OpCreateAccount bob,
     OpSetData MasternodeContractAddress (MustHash sample_hash alice) (masternodeInfo_bytes \<lparr>mn_IsQuit = False, mn_QuitBlock = 0\<rparr>)]"

lemma node_facts:
  "data_at (contract_ledger node_ops) MasternodeContractAddress (MustHash sample_hash alice) = masternodeInfo_bytes \<lparr>mn_IsQuit = False, mn_QuitBlock = 0\<rparr>"
  "\<not> Option.is_none (contract_ledger node_ops MasternodeContractAddress)" "\<not> Option.is_none (contract_ledger node_ops bob)"
  "balance (contract_ledger node_ops) MasternodeContractAddress = 2 * depositLimit" "balance (contract_ledger node_ops) bob = 0"
  "bob \<noteq> MasternodeContractAddress" "0 \<le> depositLimit" "recallDistanceLimit < 9000 - 100"
  by code_simp+

theorem masternode_theft_witness:
  "\<exists>w1 w2 V2 r. quitCmd (mpt_ops sample_hash) sample_hash alice (by_person bob 0 100 100) (contract_world node_ops) = (w1, Inr [])
    \<and> recallCmd (mpt_ops sample_hash) sample_hash alice (by_person bob 0 9000 200) w1 = (w2, Inr [])
    \<and> is_ledger sample_hash Map.empty TrieDbPrefix Map.empty (wd_db w2) V2 r \<and> balance V2 bob = depositLimit"
proof -
  let ?q = "quitCmd (mpt_ops sample_hash) sample_hash alice (by_person bob 0 100 100) (contract_world node_ops)"
  let ?r = "recallCmd (mpt_ops sample_hash) sample_hash alice (by_person bob 0 9000 200) (fst ?q)"
  have q: "?q = (fst ?q, snd ?q)" and r: "?r = (fst ?r, snd ?r)" by simp_all
  have "snd ?q = Inr [] \<and> snd ?r = Inr []
    \<and> (\<exists>V2. is_ledger sample_hash Map.empty TrieDbPrefix Map.empty (wd_db (fst ?r)) V2 (sd_refund (contract_state node_ops))
          \<and> balance V2 bob = balance (contract_ledger node_ops) bob + depositLimit
          \<and> balance V2 MasternodeContractAddress = balance (contract_ledger node_ops) MasternodeContractAddress - depositLimit
          \<and> data_at V2 MasternodeContractAddress (MustHash sample_hash alice) = [])"
    by (rule masternode_theft [OF contract_is_ledger node_facts(1) _ _ _ q r])
      (use node_facts node_facts(2,3) [THEN some_account] in \<open>simp_all\<close>)
  then show ?thesis using q r node_facts(5) by (metis add_0)
qed

section \<open>Hash time locks\<close>

definition sample_lock :: htlc where
  "sample_lock = \<lparr>ht_Tx = cx_tx (by_person alice 5 1 10), ht_HashLock = [3], ht_TimeLock = 1000, ht_To = bob, ht_Refunded = False,
     ht_Withdrawed = False, ht_Preimage = []\<rparr>"

definition lock_json :: json_ops where
  "lock_json = no_json\<lparr>js_htlc := (\<lambda>b. if b = [1] then Some sample_lock
       else if b = [2] then Some (sample_lock\<lparr>ht_Preimage := [3], ht_Withdrawed := True\<rparr>) else None),
     js_of_htlc := (\<lambda>x. if x = sample_lock then Some [1] else if x = sample_lock\<lparr>ht_Preimage := [3], ht_Withdrawed := True\<rparr> then Some [2] else None),
     js_Withdrawing := (\<lambda>b. Some \<lparr>wi_Hash = EmptyHash, wi_Preimage = b\<rparr>)\<rparr>"

definition lock_ops :: "sdb_op list" where
  "lock_ops = [OpCreateAccount HashTimeLockContractAddress, OpAddBalance HashTimeLockContractAddress 5, OpCreateAccount bob,
     OpSetData HashTimeLockContractAddress EmptyHash [1]]"

definition lock_run :: "(lock_cmd \<times> sys_ctx) list" where
  "lock_run = [(Withdraw [4], by_person bob 0 2 50), (Withdraw [3], by_person bob 0 3 60), (Withdraw [3], by_person bob 0 4 70),
     (Refund EmptyHash, by_person alice 0 5 2000)]"

lemma lock_json_law: "json_law lock_json"
  by (simp add: json_law_def lock_json_def)

lemma empty_ledger: "contract_ledger [] = Map.empty"
  by (rule ext) (simp add: contract_ledger_def contract_state_def sview_def NewStatedbWithTrie_def find_object_def trie_object_def)

lemma fresh_data: "data_at (open_account sample_hash Map.empty a V) b k = (if b = a \<and> V a = None then [] else data_at V b k)"
  by (simp add: open_account_def data_at_def new_view_def obj_view_def newStateObject_def obj_storage_def opt_bytes_def split: option.splits)

definition lock_ledger :: ledger where
  "lock_ledger = store_at HashTimeLockContractAddress EmptyHash [1] (open_account sample_hash Map.empty bob
     (credit HashTimeLockContractAddress 5 (open_account sample_hash Map.empty HashTimeLockContractAddress Map.empty)))"

lemma lock_is_ledger:
  "is_ledger sample_hash Map.empty TrieDbPrefix Map.empty (wd_db (contract_world lock_ops)) lock_ledger (sd_refund (contract_state []))"
proof -
  note A = create_refines [OF contract_is_ledger [of "[]", unfolded empty_ledger], of HashTimeLockContractAddress]
  note B = create_refines [OF balance_refines(1) [OF A, of HashTimeLockContractAddress 5], of bob]
  show ?thesis using data_refines [OF B, of HashTimeLockContractAddress EmptyHash "[1]"]
    by (simp add: lock_ops_def lock_ledger_def contract_world_def contract_state_def)
qed

lemma lock_data: "locks lock_ledger k = (if k = EmptyHash then [1] else [])"
  by (simp add: lock_ledger_def fresh_data)

lemma lock_runs: "payouts lock_json id (mpt_ops sample_hash) sample_hash EmptyHash (take 2 lock_run) (contract_world lock_ops) = 1"
  by code_simp

theorem htlc_pays_once_witness:
  "payouts lock_json id (mpt_ops sample_hash) sample_hash EmptyHash (take 2 lock_run) (contract_world lock_ops) = 1
    \<and> payouts lock_json id (mpt_ops sample_hash) sample_hash EmptyHash lock_run (contract_world lock_ops) \<le> 1"
proof -
  have l: "lock_at lock_json lock_ledger k info \<longleftrightarrow> k = EmptyHash \<and> info = sample_lock" for k info
    by (auto simp: lock_at_def lock_data lock_json_def)
  have t: "tx_Hash (ht_Tx sample_lock) = EmptyHash" by (simp add: sample_lock_def by_person_def)
  have s: "sorted (0 # map (cx_now \<circ> snd) lock_run)" by code_simp
  have a: "lock_ledger HashTimeLockContractAddress \<noteq> None" unfolding lock_ledger_def by (simp del: not_None_eq)
  have o: "locks_ok lock_json lock_ledger" using l t by (simp add: locks_ok_def)
  have n: "\<forall>i ctx. (NewLock i, ctx) \<in> set lock_run \<longrightarrow> tx_Hash (cx_tx ctx) \<noteq> EmptyHash" by (simp add: lock_run_def)
  have "lock_at lock_json lock_ledger EmptyHash sample_lock" using l by simp
  from htlc_pays_once [OF lock_json_law lock_is_ledger a o this s n] lock_runs show ?thesis by blast
qed

section \<open>The relay\<close>

definition sample_block :: BTCBlock where
  "sample_block = \<lparr>bb_BlockHeaderHex = [9], bb_Height = 100, bb_PreviousBlockHex = [8], bb_TxHexs = [[7]], bb_Relayer = []\<rparr>"

definition relay_json :: json_ops where
  "relay_json = no_json\<lparr>js_RelayRequest := (\<lambda>_. Some \<lparr>rr_BTCBlock = sample_block, rr_TxHex = [7], rr_RelayAddress = []\<rparr>),
     js_of_blocks := (\<lambda>m. if m = [[9] \<mapsto> sample_block\<lparr>bb_Relayer := alice\<rparr>] then Some [1] else None), js_blocks := (\<lambda>b. if b = [1] then Some [[9] \<mapsto> sample_block\<lparr>bb_Relayer := alice\<rparr>] else None)\<rparr>"

definition relay_ops :: "sdb_op list" where
  "relay_ops = [OpCreateAccount BTCRelayContractAddress, OpCreateAccount alice]"

lemma relay_facts:
  "\<not> Option.is_none (contract_ledger relay_ops BTCRelayContractAddress)" "\<not> Option.is_none (contract_ledger relay_ops alice)"
  "data_at (contract_ledger relay_ops) BTCRelayContractAddress keyBlocksHash = []" "balance (contract_ledger relay_ops) alice = 0"
  "alice \<noteq> BTCRelayContractAddress" "relay_fee \<le> Uint64 5"
  by code_simp+

lemma relay_json_fields:
  "js_RelayRequest relay_json b = Some \<lparr>rr_BTCBlock = sample_block, rr_TxHex = [7], rr_RelayAddress = []\<rparr>"
  "js_of_blocks relay_json m = (if m = [[9] \<mapsto> sample_block\<lparr>bb_Relayer := alice\<rparr>] then Some [1] else None)"
  "js_blocks relay_json b = (if b = [1] then Some [[9] \<mapsto> sample_block\<lparr>bb_Relayer := alice\<rparr>] else None)"
  by (simp_all add: relay_json_def)

lemma relay_stored:
  "\<exists>w1. storeBlockHeader relay_json (mpt_ops sample_hash) sample_hash [] (by_person alice 0 2 50) (contract_world relay_ops) = (w1, Inr success)"
  using getBTCBlocks_ledger [OF contract_is_ledger [of relay_ops], of relay_json]
  by (auto simp: storeBlockHeader_def relay_json_fields relay_facts sample_block_def)

theorem relay_confirmations_reversed_witness:
  "\<exists>w1 w2 V2 r. storeBlockHeader relay_json (mpt_ops sample_hash) sample_hash [] (by_person alice 0 2 50) (contract_world relay_ops) = (w1, Inr success)
    \<and> verifyTx relay_json (mpt_ops sample_hash) sample_hash [] (by_person bob 5 3 60) w1 = (w2, Inr success)
    \<and> is_ledger sample_hash Map.empty TrieDbPrefix Map.empty (wd_db w2) V2 r \<and> balance V2 alice = 5
    \<and> snd (verifyTx relay_json (mpt_ops sample_hash) sample_hash [] (by_person bob 5 3 60) (w1\<lparr>wd_preBlockHeight := 110\<rparr>)) = Inl (errConfirmations 110 100)"
proof -
  obtain w1 where s: "storeBlockHeader relay_json (mpt_ops sample_hash) sample_hash [] (by_person alice 0 2 50) (contract_world relay_ops) = (w1, Inr success)"
    using relay_stored by blast
  have law: "\<forall>m b. js_of_blocks relay_json m = Some b \<longrightarrow> js_blocks relay_json b = Some m" by (simp add: relay_json_fields)
  have h: "bb_Height sample_block = 100" "[7] \<in> set (bb_TxHexs sample_block)" by (simp_all add: sample_block_def)
  note some = relay_facts(1,2) [THEN some_account]
  show ?thesis
    using relay_confirmations_reversed [OF contract_is_ledger some(1) law s relay_json_fields(1), of "by_person bob 5 3 60" 110] some relay_facts h s
    by (simp del: not_None_eq) blast
qed

end
