(* ===== verification/Spec2Isabelle.thy ===== *)
theory Spec2Isabelle
  imports Evm_Arith Evm_Jump Evm_Host System_Witness
begin

text \<open>
  Verification of go-seele. (Header to be completed.)
\<close>

end
